(* ===== verification/Prelude.thy ===== *)
theory Prelude
  imports Main "HOL-Library.Word" "HOL-Library.State_Monad" "HOL-Library.Multiset"
begin

text \<open>
  The shared foundation of the development.

  The Go code is effectful: it talks to the Kubernetes API server, to the node runtimes, to the
  clock and to the file system.  Every such interaction is a \<open>call\<close>: the answer is chosen by an
  environment function that may look at the whole history of earlier interactions, and the
  interaction with its answer is appended to the history.  So a program of the source becomes a
  computation of type \<open>('e list, 'a) state\<close> over the history, and a theorem that holds for every
  environment holds for every failure, every stale read and every interleaving with other actors.

  \<open>ensures m Q\<close> says that \<open>m\<close>, started in any history, only appends events and that its result and
  the events it appended satisfy \<open>Q\<close>.  The rules of the collection \<open>ensures_rules\<close> compute such facts
  backwards through a program, as a weakest precondition calculus does.
\<close>

section \<open>Names of the shared types\<close>

type_synonym int32 = "32 word"
type_synonym int64 = "64 word"

section \<open>Interactions with the environment\<close>

definition call :: "('e list \<Rightarrow> 'r) \<Rightarrow> ('r \<Rightarrow> 'e) \<Rightarrow> ('e list, 'r) state" where
  "call f ev = State (\<lambda>h. (f h, h @ [ev (f h)]))"

lemma run_state_call [simp]: "run_state (call f ev) h = (f h, h @ [ev (f h)])"
  by (simp add: call_def)

definition ensures :: "('e list, 'a) state \<Rightarrow> ('a \<Rightarrow> 'e list \<Rightarrow> bool) \<Rightarrow> bool" where
  "ensures m Q \<longleftrightarrow> (\<forall>h. \<exists>a es. run_state m h = (a, h @ es) \<and> Q a es)"

named_theorems ensures_rules

lemma ensures_return [ensures_rules]: "Q a [] \<Longrightarrow> ensures (State_Monad.return a) Q"
  by (simp add: ensures_def)

lemma ensures_call [ensures_rules]: "(\<And>h. Q (f h) [ev (f h)]) \<Longrightarrow> ensures (call f ev) Q"
  by (simp add: ensures_def)

lemma ensures_bind:
  assumes "ensures m (\<lambda>a es. ensures (f a) (\<lambda>b es'. Q b (es @ es')))"
  shows "ensures (State_Monad.bind m f) Q"
  unfolding ensures_def
proof
  fix h
  obtain a es where m: "run_state m h = (a, h @ es)"
    and f: "ensures (f a) (\<lambda>b es'. Q b (es @ es'))"
    using assms unfolding ensures_def by blast
  obtain b es' where "run_state (f a) (h @ es) = (b, (h @ es) @ es')" and "Q b (es @ es')"
    using f unfolding ensures_def by blast
  with m show "\<exists>b es. run_state (State_Monad.bind m f) h = (b, h @ es) \<and> Q b es"
    by auto
qed

lemma ensures_bind_call [ensures_rules]:
  assumes "\<And>h. ensures (k (f h)) (\<lambda>b es. Q b (ev (f h) # es))"
  shows "ensures (State_Monad.bind (call f ev) k) Q"
  by (rule ensures_bind) (rule ensures_call, use assms in simp)

lemma ensures_mono:
  assumes "ensures m Q" and "\<And>a es. Q a es \<Longrightarrow> R a es"
  shows "ensures m R"
  using assms unfolding ensures_def by blast

lemma ensures_bind_of:
  assumes "ensures m R" and "\<And>a es. R a es \<Longrightarrow> ensures (f a) (\<lambda>b es'. Q b (es @ es'))"
  shows "ensures (State_Monad.bind m f) Q"
  by (rule ensures_bind) (rule ensures_mono [OF assms])

lemma ensures_bind_after:
  assumes "ensures m R" and "\<And>a. ensures (f a) Q" and "\<And>b es es'. Q b es' \<Longrightarrow> Q b (es @ es')"
  shows "ensures (State_Monad.bind m f) Q"
  by (rule ensures_bind_of [OF assms(1)]) (rule ensures_mono [OF assms(2) assms(3)])

lemma ensures_conj:
  assumes "ensures m Q" and "ensures m R"
  shows "ensures m (\<lambda>a es. Q a es \<and> R a es)"
  unfolding ensures_def
proof
  fix h
  obtain a es where "run_state m h = (a, h @ es)" "Q a es"
    using assms(1) unfolding ensures_def by blast
  moreover obtain a' es' where "run_state m h = (a', h @ es')" "R a' es'"
    using assms(2) unfolding ensures_def by blast
  ultimately show "\<exists>a es. run_state m h = (a, h @ es) \<and> Q a es \<and> R a es" by auto
qed

lemma ensures_all:
  assumes "\<And>x. ensures m (Q x)"
  shows "ensures m (\<lambda>a es. \<forall>x. Q x a es)"
  unfolding ensures_def
proof
  fix h
  obtain a es where m: "run_state m h = (a, h @ es)"
    using assms unfolding ensures_def by blast
  have "Q x a es" for x
    using assms [of x] m unfolding ensures_def by (metis prod.inject same_append_eq)
  with m show "\<exists>a es. run_state m h = (a, h @ es) \<and> (\<forall>x. Q x a es)" by blast
qed

lemma ensures_imp:
  assumes "P \<Longrightarrow> ensures m Q" and "ensures m (\<lambda>_ _. True)"
  shows "ensures m (\<lambda>a es. P \<longrightarrow> Q a es)"
  by (cases P) (use assms in \<open>auto elim: ensures_mono\<close>)

text \<open>How a fact about every run of a program is used at one run of it.\<close>

lemma ensuresD:
  assumes "ensures m Q" and "run_state m h = (a, h @ es)"
  shows "Q a es"
  using assms unfolding ensures_def by (metis prod.inject same_append_eq)

lemma ensures_runs:
  assumes "ensures m Q"
  obtains a es where "run_state m h = (a, h @ es)" and "Q a es"
  using assms unfolding ensures_def by blast

section \<open>Branches\<close>

lemma ensures_if [ensures_rules]:
  "(b \<Longrightarrow> ensures m Q) \<Longrightarrow> (\<not> b \<Longrightarrow> ensures n Q) \<Longrightarrow> ensures (if b then m else n) Q"
  by simp

lemma ensures_case_option [ensures_rules]:
  "(x = None \<Longrightarrow> ensures m Q) \<Longrightarrow> (\<And>y. x = Some y \<Longrightarrow> ensures (f y) Q) \<Longrightarrow>
   ensures (case x of None \<Rightarrow> m | Some y \<Rightarrow> f y) Q"
  by (cases x) auto

lemma ensures_case_sum [ensures_rules]:
  "(\<And>y. x = Inl y \<Longrightarrow> ensures (f y) Q) \<Longrightarrow> (\<And>z. x = Inr z \<Longrightarrow> ensures (g z) Q) \<Longrightarrow>
   ensures (case x of Inl y \<Rightarrow> f y | Inr z \<Rightarrow> g z) Q"
  by (cases x) auto

lemma ensures_case_prod [ensures_rules]:
  "(\<And>y z. x = (y, z) \<Longrightarrow> ensures (f y z) Q) \<Longrightarrow> ensures (case x of (y, z) \<Rightarrow> f y z) Q"
  by (cases x) auto

lemma ensures_Let [ensures_rules]: "ensures (f x) Q \<Longrightarrow> ensures (let y = x in f y) Q"
  by simp


section \<open>Guarded traces\<close>

text \<open>
  \<open>guarded G pre es\<close>: every event of \<open>es\<close> satisfies the guard \<open>G\<close>, which also sees all events before it
  (\<open>pre\<close> and the events of \<open>es\<close> up to it).  \<open>keeps G pre m\<close> says so of every run of \<open>m\<close>.
\<close>

fun guarded :: "('e list \<Rightarrow> 'e \<Rightarrow> bool) \<Rightarrow> 'e list \<Rightarrow> 'e list \<Rightarrow> bool" where
  "guarded G pre [] \<longleftrightarrow> True"
| "guarded G pre (e # es) \<longleftrightarrow> G pre e \<and> guarded G (pre @ [e]) es"

lemma guarded_append [simp]:
  "guarded G pre (xs @ ys) \<longleftrightarrow> guarded G pre xs \<and> guarded G (pre @ xs) ys"
  by (induction xs arbitrary: pre) auto

lemma guarded_at: "guarded G [] (pre @ e # post) \<Longrightarrow> G pre e"
  by simp

lemma guarded_all: "(\<And>pre' e. e \<in> set es \<Longrightarrow> G pre' e) \<Longrightarrow> guarded G pre es"
  by (induction es arbitrary: pre) auto

lemma guarded_mono:
  assumes "guarded G pre es" and "\<And>rest e. G (pre @ rest) e \<Longrightarrow> H (pre @ rest) e"
  shows "guarded H pre es"
  using assms
proof (induction es arbitrary: pre)
  case (Cons e es)
  have "guarded H (pre @ [e]) es"
    by (rule Cons.IH) (use Cons.prems in \<open>auto intro: Cons.prems(2)\<close>)
  then show ?case using Cons.prems(1) Cons.prems(2) [of "[]" e] by simp
qed simp

definition keeps :: "('e list \<Rightarrow> 'e \<Rightarrow> bool) \<Rightarrow> 'e list \<Rightarrow> ('e list, 'a) state \<Rightarrow> bool" where
  "keeps G pre m \<longleftrightarrow> ensures m (\<lambda>_ es. guarded G pre es)"

named_theorems keeps_rules

lemma keeps_return [keeps_rules]: "keeps G pre (State_Monad.return a)"
  by (simp add: keeps_def ensures_return)

lemma keeps_call [keeps_rules]: "(\<And>h. G pre (ev (f h))) \<Longrightarrow> keeps G pre (call f ev)"
  by (simp add: keeps_def ensures_call)

lemma keeps_bind_call [keeps_rules]:
  assumes "\<And>h. G pre (ev (f h))" and "\<And>h. keeps G (pre @ [ev (f h)]) (k (f h))"
  shows "keeps G pre (State_Monad.bind (call f ev) k)"
  unfolding keeps_def
  by (rule ensures_bind_call) (use assms in \<open>simp add: keeps_def\<close>)

lemma keeps_bind_of:
  assumes "ensures m R" and "\<And>a es. R a es \<Longrightarrow> guarded G pre es"
    and "\<And>a es. R a es \<Longrightarrow> keeps G (pre @ es) (f a)"
  shows "keeps G pre (State_Monad.bind m f)"
  unfolding keeps_def
proof (rule ensures_bind_of [OF assms(1)])
  fix a es assume "R a es"
  then show "ensures (f a) (\<lambda>_ es'. guarded G pre (es @ es'))"
    using assms(2) [of a es] assms(3) [of a es] by (simp add: keeps_def)
qed

lemma keeps_if [keeps_rules]:
  "(b \<Longrightarrow> keeps G pre m) \<Longrightarrow> (\<not> b \<Longrightarrow> keeps G pre n) \<Longrightarrow> keeps G pre (if b then m else n)"
  by simp

lemma keeps_case_option [keeps_rules]:
  "(x = None \<Longrightarrow> keeps G pre m) \<Longrightarrow> (\<And>y. x = Some y \<Longrightarrow> keeps G pre (f y)) \<Longrightarrow>
   keeps G pre (case x of None \<Rightarrow> m | Some y \<Rightarrow> f y)"
  by (cases x) auto

lemma keeps_case_sum [keeps_rules]:
  "(\<And>y. x = Inl y \<Longrightarrow> keeps G pre (f y)) \<Longrightarrow> (\<And>z. x = Inr z \<Longrightarrow> keeps G pre (g z)) \<Longrightarrow>
   keeps G pre (case x of Inl y \<Rightarrow> f y | Inr z \<Rightarrow> g z)"
  by (cases x) auto

lemma keeps_case_prod [keeps_rules]:
  "(\<And>y z. x = (y, z) \<Longrightarrow> keeps G pre (f y z)) \<Longrightarrow> keeps G pre (case x of (y, z) \<Rightarrow> f y z)"
  by (cases x) auto

lemma keeps_Let [keeps_rules]: "keeps G pre (f x) \<Longrightarrow> keeps G pre (let y = x in f y)"
  by simp

lemma keeps_bind_silent:
  assumes "keeps G pre m" and "\<And>a. ensures (f a) (\<lambda>_ es. es = [])"
  shows "keeps G pre (State_Monad.bind m f)"
  unfolding keeps_def
  by (rule ensures_bind_of [OF assms(1) [unfolded keeps_def]], rule ensures_mono [OF assms(2)]) simp

lemma keeps_anything:
  assumes "ensures m (\<lambda>_ _. True)" and "\<And>rest e. G (pre @ rest) e"
  shows "keeps G pre m"
proof -
  have "guarded G (pre @ rest) es" for rest es
    by (induction es arbitrary: rest) (use assms(2) in auto)
  from this [of "[]"] have "guarded G pre es" for es by simp
  then show ?thesis unfolding keeps_def by (intro ensures_mono [OF assms(1)])
qed

lemma keepsD:
  assumes "keeps G [] m" and "run_state m h = (a, h @ pre @ e # post)"
  shows "G pre e"
  using ensuresD [OF assms(1) [unfolded keeps_def] assms(2)] by (rule guarded_at)

end
