(* ===== verification/Go_Lib.thy ===== *)
theory Go_Lib
  imports Prelude "HOL-Library.Char_ord" "HOL-Library.List_Lexorder" "HOL-Library.Sublist"
begin

text \<open>
  What the source uses of the Go language and of its standard library: error values, the string
  functions of \<open>strings\<close>, \<open>fmt\<close> and \<open>strconv\<close>, and \<open>sort.Strings\<close>.
  A Go string is a sequence of bytes, which is what an Isabelle \<open>string\<close> (a list of 8-bit
  characters) is.  The lemmas give the facts the components rest on: decimal printing is injective
  and is read back by \<open>Atoi\<close>, splitting inverts joining, and equality of sorted lists is equality of
  multisets.
\<close>

section \<open>Error values\<close>

text \<open>
  A Go \<open>error\<close> the program can meet.  \<open>APIError\<close> is the error type of \<open>internal/smolvm/client.go\<close>.
  \<open>KubeError b m\<close> is an error of the Kubernetes client libraries with message \<open>m\<close>; the flag \<open>b\<close> is the
  answer of \<open>apierrors.IsNotFound\<close> for it.  \<open>ErrorString m\<close> is any other error without a cause, and
  \<open>WrapError p e\<close> is \<open>fmt.Errorf("p: %w", e)\<close>.
\<close>

datatype goerror =
    APIError (StatusCode: int) (Body: string)
  | KubeError (KubeNotFound: bool) (KubeMessage: string)
  | ErrorString string
  | WrapError string goerror

section \<open>Decimal numbers\<close>

definition digit :: "nat \<Rightarrow> char" where
  "digit d = char_of (48 + d)"

fun nat_dec :: "nat \<Rightarrow> string" where
  "nat_dec n = (if n < 10 then [digit n] else nat_dec (n div 10) @ [digit (n mod 10)])"

declare nat_dec.simps [simp del]

text \<open>The verb \<open>%d\<close> of \<open>fmt\<close>.\<close>

definition int_dec :: "int \<Rightarrow> string" where
  "int_dec i = (if i < 0 then CHR ''-'' # nat_dec (nat (- i)) else nat_dec (nat i))"

definition is_digit :: "char \<Rightarrow> bool" where
  "is_digit c \<longleftrightarrow> 48 \<le> (of_char c :: nat) \<and> (of_char c :: nat) \<le> 57"

definition digit_val :: "char \<Rightarrow> nat" where
  "digit_val c = of_char c - 48"

definition dec_val :: "string \<Rightarrow> nat" where
  "dec_val s = foldl (\<lambda>a c. 10 * a + digit_val c) 0 s"

lemma digit_val_digit [simp]: "d < 10 \<Longrightarrow> digit_val (digit d) = d"
  by (simp add: digit_val_def digit_def)

lemma is_digit_digit [simp]: "d < 10 \<Longrightarrow> is_digit (digit d)"
  by (simp add: is_digit_def digit_def)

lemma dec_val_snoc [simp]: "dec_val (s @ [c]) = 10 * dec_val s + digit_val c"
  by (simp add: dec_val_def)

lemma dec_val_single [simp]: "dec_val [c] = digit_val c"
  by (simp add: dec_val_def)

lemma dec_val_nat_dec [simp]: "dec_val (nat_dec n) = n"
proof (induction n rule: nat_dec.induct)
  case (1 n)
  then show ?case
    by (subst nat_dec.simps) auto
qed

lemma nat_dec_digits: "list_all is_digit (nat_dec n)"
proof (induction n rule: nat_dec.induct)
  case (1 n)
  then show ?case
    by (subst nat_dec.simps) auto
qed

lemma nat_dec_not_Nil [simp]: "nat_dec n \<noteq> []"
  by (subst nat_dec.simps) simp

lemma inj_nat_dec [simp]: "nat_dec m = nat_dec n \<longleftrightarrow> m = n"
  by (metis dec_val_nat_dec)

lemma not_is_digit_minus [simp]: "\<not> is_digit CHR ''-''"
  by (simp add: is_digit_def)

lemma minus_not_in_nat_dec [simp]: "CHR ''-'' # s \<noteq> nat_dec n"
  using nat_dec_digits [of n] by (metis list.pred_inject(2) not_is_digit_minus)

lemma inj_int_dec [simp]: "int_dec i = int_dec j \<longleftrightarrow> i = j"
  by (auto simp: int_dec_def minus_not_in_nat_dec [symmetric])

lemma colon_not_in_int_dec: "CHR '':'' \<notin> set (int_dec i)"
proof -
  have "\<not> is_digit CHR '':''" by (simp add: is_digit_def)
  then have "CHR '':'' \<notin> set (nat_dec n)" for n
    using nat_dec_digits [of n] by (auto simp: list_all_iff)
  then show ?thesis by (simp add: int_dec_def)
qed

text \<open>
  \<open>strconv.Quote\<close>, the verb \<open>%q\<close> of \<open>fmt\<close>, on ASCII strings.  A byte outside ASCII is printed as
  \<open>\\xNN\<close>, which is what Go prints for a byte that is not part of valid UTF-8; the printing of
  valid multi-byte characters depends on Unicode tables and is not modelled.
\<close>

definition hex_digit :: "nat \<Rightarrow> char" where
  "hex_digit d = (if d < 10 then char_of (48 + d) else char_of (87 + d))"

definition hex_byte :: "nat \<Rightarrow> string" where
  "hex_byte n = [hex_digit (n div 16 mod 16), hex_digit (n mod 16)]"

definition quote_char :: "char \<Rightarrow> string" where
  "quote_char c =
     (let n = (of_char c :: nat) in
      if n = 34 \<or> n = 92 then [CHR 0x5C, c]
      else if n = 7 then [CHR 0x5C, CHR ''a''] else if n = 8 then [CHR 0x5C, CHR ''b'']
      else if n = 12 then [CHR 0x5C, CHR ''f''] else if n = 10 then [CHR 0x5C, CHR ''n'']
      else if n = 13 then [CHR 0x5C, CHR ''r''] else if n = 9 then [CHR 0x5C, CHR ''t'']
      else if n = 11 then [CHR 0x5C, CHR ''v'']
      else if 32 \<le> n \<and> n < 127 then [c]
      else [CHR 0x5C, CHR ''x''] @ hex_byte n)"

definition Quote :: "string \<Rightarrow> string" where
  "Quote s = [CHR 0x22] @ concat (map quote_char s) @ [CHR 0x22]"

text \<open>
  \<open>strconv.Atoi\<close>.  The digits are read from the left (\<open>ParseUint\<close>): a byte that is no digit is a
  syntax error with value 0, and a value that leaves 64 bits is a range error at once, with the
  nearest bound of \<open>int\<close> as the value.  The second component of the result is the error.
\<close>

datatype num_error = ErrSyntax | ErrRange

fun ParseUint :: "nat \<Rightarrow> string \<Rightarrow> num_error + nat" where
  "ParseUint acc [] = Inr acc"
| "ParseUint acc (c # cs) =
     (if \<not> is_digit c then Inl ErrSyntax
      else if 10 * acc + digit_val c \<ge> 2 ^ 64 then Inl ErrRange
      else ParseUint (10 * acc + digit_val c) cs)"

definition Atoi :: "string \<Rightarrow> int \<times> goerror option" where
  "Atoi s =
     (let (neg, ds) = (case s of [] \<Rightarrow> (False, [])
                               | c # cs \<Rightarrow> if c = CHR ''-'' then (True, cs)
                                           else if c = CHR ''+'' then (False, cs) else (False, s));
          err = (\<lambda>m. Some (ErrorString (''strconv.Atoi: parsing '' @ Quote s @ '': '' @ m)));
          range = (if neg then - (2 ^ 63) else 2 ^ 63 - 1, err ''value out of range'')
      in if ds = [] then (0, err ''invalid syntax'')
         else (case ParseUint 0 ds of
             Inl ErrSyntax \<Rightarrow> (0, err ''invalid syntax'')
           | Inl ErrRange \<Rightarrow> range
           | Inr n \<Rightarrow>
               if \<not> neg \<and> n \<ge> 2 ^ 63 \<or> neg \<and> n > 2 ^ 63 then range
               else (if neg then - int n else int n, None)))"

lemma foldl_dec_mono: "a \<le> foldl (\<lambda>a c. 10 * a + digit_val c) a ds"
proof (induction ds arbitrary: a)
  case (Cons d ds)
  have "a \<le> 10 * a + digit_val d" by simp
  also have "\<dots> \<le> foldl (\<lambda>a c. 10 * a + digit_val c) (10 * a + digit_val d) ds"
    by (rule Cons.IH)
  finally show ?case by simp
qed simp

lemma ParseUint_ok:
  assumes "list_all is_digit ds" and "foldl (\<lambda>a c. 10 * a + digit_val c) acc ds < 2 ^ 64"
  shows "ParseUint acc ds = Inr (foldl (\<lambda>a c. 10 * a + digit_val c) acc ds)"
  using assms
proof (induction ds arbitrary: acc)
  case (Cons d ds)
  have "10 * acc + digit_val d < 2 ^ 64"
    using foldl_dec_mono [of "10 * acc + digit_val d" ds] Cons.prems(2) by simp
  with Cons show ?case by simp
qed simp

lemma ParseUint_nat_dec: "n < 2 ^ 64 \<Longrightarrow> ParseUint 0 (nat_dec n) = Inr n"
  using ParseUint_ok [OF nat_dec_digits, of 0 n] dec_val_nat_dec [of n]
  by (simp add: dec_val_def)

lemma nat_dec_Cons:
  obtains c cs where "nat_dec n = c # cs" and "is_digit c"
  using nat_dec_digits [of n] nat_dec_not_Nil [of n]
  by (cases "nat_dec n") auto

lemma Atoi_int_dec:
  assumes "- (2 ^ 63) \<le> i" and "i < 2 ^ 63"
  shows "Atoi (int_dec i) = (i, None)"
proof (cases "i < 0")
  case True
  with assms have "ParseUint 0 (nat_dec (nat (- i))) = Inr (nat (- i))"
    by (intro ParseUint_nat_dec) simp
  with True assms show ?thesis
    by (auto simp: Atoi_def int_dec_def)
next
  case False
  obtain c cs where c: "nat_dec (nat i) = c # cs" "is_digit c"
    by (rule nat_dec_Cons)
  then have "c \<noteq> CHR ''-''" "c \<noteq> CHR ''+''"
    by (auto simp: is_digit_def)
  moreover from False assms have "ParseUint 0 (nat_dec (nat i)) = Inr (nat i)"
    by (intro ParseUint_nat_dec) simp
  ultimately show ?thesis
    using False assms c by (auto simp: Atoi_def int_dec_def Let_def)
qed

section \<open>Strings\<close>

definition HasPrefix :: "string \<Rightarrow> string \<Rightarrow> bool" where
  "HasPrefix s p \<longleftrightarrow> take (length p) s = p"

lemma HasPrefix_iff: "HasPrefix s p \<longleftrightarrow> (\<exists>r. s = p @ r)"
  unfolding HasPrefix_def by (metis append_eq_conv_conj append_take_drop_id)

definition TrimPrefix :: "string \<Rightarrow> string \<Rightarrow> string" where
  "TrimPrefix s p = (if HasPrefix s p then drop (length p) s else s)"

text \<open>\<open>strings.TrimRight(s, cutset)\<close> for a cutset of single bytes.\<close>

definition TrimRight :: "string \<Rightarrow> string \<Rightarrow> string" where
  "TrimRight s cutset = rev (dropWhile (\<lambda>c. c \<in> set cutset) (rev s))"

text \<open>\<open>strings.Split(s, sep)\<close> for a separator of one byte: at least one part, possibly empty.\<close>

fun Split :: "char \<Rightarrow> string \<Rightarrow> string list" where
  "Split sep [] = [[]]"
| "Split sep (c # cs) =
     (if c = sep then [] # Split sep cs
      else (case Split sep cs of [] \<Rightarrow> [[c]] | p # ps \<Rightarrow> (c # p) # ps))"

fun Join :: "string list \<Rightarrow> string \<Rightarrow> string" where
  "Join [] sep = []"
| "Join [x] sep = x"
| "Join (x # y # ys) sep = x @ sep @ Join (y # ys) sep"

lemma Split_not_Nil [simp]: "Split sep s \<noteq> []"
  by (induction s) (auto split: list.splits)

lemma Join_Split: "Join (Split sep s) [sep] = s"
proof (induction s)
  case (Cons c cs)
  then show ?case
    by (cases "Split sep cs"; cases "tl (Split sep cs)") (auto simp: neq_Nil_conv)
qed simp

lemma Split_no_sep: "sep \<notin> set s \<Longrightarrow> Split sep s = [s]"
  by (induction s) auto

lemma Split_append_sep: "sep \<notin> set p \<Longrightarrow> Split sep (p @ sep # r) = p # Split sep r"
  by (induction p) auto

section \<open>Sorting\<close>

text \<open>
  \<open>sort.Strings\<close> sorts by the bytewise lexicographic order, which is the order of
  \<open>HOL-Library.List_Lexorder\<close> over \<open>HOL-Library.Char_ord\<close>.
\<close>

definition sort_Strings :: "string list \<Rightarrow> string list" where
  "sort_Strings xs = sort xs"

lemma sort_Strings_eq_iff: "sort_Strings xs = sort_Strings ys \<longleftrightarrow> mset xs = mset ys"
  unfolding sort_Strings_def by (metis mset_sort properties_for_sort sorted_sort)

lemma inj_image_mset_eq:
  assumes "inj f"
  shows "image_mset f A = image_mset f B \<longleftrightarrow> A = B"
proof
  assume "image_mset f A = image_mset f B"
  then have "image_mset f A = image_mset f B + {#}" by simp
  then obtain C where "A = B + C" "{#} = image_mset f C"
    using image_mset_eq_image_mset_plusD [of f A B "{#}"] assms by (metis inj_on_subset subset_UNIV)
  then show "A = B" by simp
qed simp

lemma length_sort_Strings [simp]: "length (sort_Strings xs) = length xs"
  by (simp add: sort_Strings_def)

end
