(* ===== verification/Api_Types.thy ===== *)
theory Api_Types
  imports Go_Lib
begin

text \<open>
  The API objects of \<open>src/api/v1alpha1\<close>: the custom resources \<open>SmolVM\<close> and \<open>SmolVMNode\<close>, their
  constants, and the fields of the Kubernetes types (\<open>ObjectMeta\<close>, \<open>Condition\<close>, \<open>Node\<close>) that the
  program reads or writes.

  Conventions: an \<open>int32\<close> or \<open>int64\<close> field is a word of that width, read as signed; a pointer that
  may be nil is an \<open>option\<close>; a slice is a list (nil and the empty slice are both \<open>[]\<close>: no code of the
  program tells them apart); a \<open>map[string]string\<close> is an association list whose lookup gives the empty
  string for a missing key, as Go's does; a time is a number of nanoseconds.
\<close>

section \<open>Constants\<close>

definition SmolVMFinalizer :: string where
  "SmolVMFinalizer = ''smolvms.vm.smolvm.dev/finalizer''"

definition ConditionReady :: string where "ConditionReady = ''Ready''"
definition ConditionRuntimeReady :: string where "ConditionRuntimeReady = ''RuntimeReady''"
definition ConditionGuestReady :: string where "ConditionGuestReady = ''GuestReady''"
definition ConditionReconciled :: string where "ConditionReconciled = ''Reconciled''"
definition ConditionScheduled :: string where "ConditionScheduled = ''Scheduled''"
definition ConditionDeletionBlocked :: string where "ConditionDeletionBlocked = ''DeletionBlocked''"

definition SmolVMNodeConditionReady :: string where "SmolVMNodeConditionReady = ''Ready''"
definition SmolVMNodeConditionKVMAvailable :: string where
  "SmolVMNodeConditionKVMAvailable = ''KVMAvailable''"
definition SmolVMNodeConditionRuntimeReady :: string where
  "SmolVMNodeConditionRuntimeReady = ''RuntimeReady''"
definition SmolVMNodeConditionSchedulable :: string where
  "SmolVMNodeConditionSchedulable = ''Schedulable''"

definition ForceDeleteLocalStateAnnotation :: string where
  "ForceDeleteLocalStateAnnotation = ''vm.smolvm.dev/force-delete-local-state''"

lemmas vm_condition_names =
  ConditionReady_def ConditionRuntimeReady_def ConditionGuestReady_def ConditionReconciled_def
  ConditionScheduled_def ConditionDeletionBlocked_def

lemmas node_condition_names =
  SmolVMNodeConditionReady_def SmolVMNodeConditionKVMAvailable_def
  SmolVMNodeConditionRuntimeReady_def SmolVMNodeConditionSchedulable_def

section \<open>Kubernetes types\<close>

type_synonym strmap = "(string \<times> string) list"
type_synonym time = int
type_synonym ConditionStatus = string

definition map_get :: "strmap \<Rightarrow> string \<Rightarrow> string" where
  "map_get m k = (case map_of m k of None \<Rightarrow> [] | Some v \<Rightarrow> v)"

definition ConditionTrue :: ConditionStatus where "ConditionTrue = ''True''"
definition ConditionFalse :: ConditionStatus where "ConditionFalse = ''False''"
definition ConditionUnknown :: ConditionStatus where "ConditionUnknown = ''Unknown''"

lemmas condition_status = ConditionTrue_def ConditionFalse_def ConditionUnknown_def

record Condition =
  cond_Type :: string
  cond_Status :: ConditionStatus
  cond_ObservedGeneration :: int64
  cond_LastTransitionTime :: time
  cond_Reason :: string
  cond_Message :: string

record ObjectMeta =
  meta_Name :: string
  meta_Namespace :: string
  meta_UID :: string
  meta_ResourceVersion :: string
  meta_Generation :: int64
  meta_DeletionTimestamp :: "time option"
  meta_Labels :: strmap
  meta_Annotations :: strmap
  meta_Finalizers :: "string list"

record NamespacedName =
  nn_Namespace :: string
  nn_Name :: string

record NodeCondition =
  nc_Type :: string
  nc_Status :: ConditionStatus

text \<open>
  A Kubernetes \<open>Node\<close>.  \<open>node_AllocCPU\<close> and \<open>node_AllocMemory\<close> are the values that
  \<open>Status.Allocatable.Cpu().Value()\<close> and \<open>Status.Allocatable.Memory().Value()\<close> return.
\<close>

record Node =
  node_Meta :: ObjectMeta
  node_Unschedulable :: bool
  node_Conditions :: "NodeCondition list"
  node_AllocCPU :: int64
  node_AllocMemory :: int64

section \<open>SmolVM\<close>

record SmolVMResources =
  res_CPUs :: int32
  res_MemoryMiB :: int32

record SmolVMStorage =
  sto_StorageGiB :: int64
  sto_OverlayGiB :: int64

record SmolVMPort =
  HostPort :: int32
  GuestPort :: int32

record SmolVMNetwork =
  net_Enabled :: bool
  net_AllowedCIDRs :: "string list"
  net_Ports :: "SmolVMPort list"

record SmolVMSpec =
  spec_Running :: bool
  spec_NodeName :: string
  spec_NodeSelector :: strmap
  spec_Image :: string
  spec_From :: string
  spec_Resources :: SmolVMResources
  spec_Storage :: SmolVMStorage
  spec_Network :: SmolVMNetwork

record SmolVMStatus =
  status_Phase :: string
  status_NodeName :: string
  status_MachineName :: string
  status_RuntimePID :: "int32 option"
  status_Network :: bool
  status_Ports :: "SmolVMPort list"
  status_StorageGiB :: "int64 option"
  status_OverlayGiB :: "int64 option"
  status_ObservedGeneration :: int64
  status_Conditions :: "Condition list"

record SmolVM =
  vm_Meta :: ObjectMeta
  vm_Spec :: SmolVMSpec
  vm_Status :: SmolVMStatus

text \<open>Names for the paths the code uses most.\<close>

abbreviation vm_Name :: "SmolVM \<Rightarrow> string" where "vm_Name vm \<equiv> meta_Name (vm_Meta vm)"
abbreviation vm_Namespace :: "SmolVM \<Rightarrow> string" where "vm_Namespace vm \<equiv> meta_Namespace (vm_Meta vm)"
abbreviation vm_UID :: "SmolVM \<Rightarrow> string" where "vm_UID vm \<equiv> meta_UID (vm_Meta vm)"
abbreviation vm_Finalizers :: "SmolVM \<Rightarrow> string list" where
  "vm_Finalizers vm \<equiv> meta_Finalizers (vm_Meta vm)"
abbreviation vm_NodeName :: "SmolVM \<Rightarrow> string" where "vm_NodeName vm \<equiv> status_NodeName (vm_Status vm)"
abbreviation vm_Ports :: "SmolVM \<Rightarrow> SmolVMPort list" where
  "vm_Ports vm \<equiv> net_Ports (spec_Network (vm_Spec vm))"
abbreviation vm_CPUs :: "SmolVM \<Rightarrow> int32" where "vm_CPUs vm \<equiv> res_CPUs (spec_Resources (vm_Spec vm))"
abbreviation vm_MemoryMiB :: "SmolVM \<Rightarrow> int32" where
  "vm_MemoryMiB vm \<equiv> res_MemoryMiB (spec_Resources (vm_Spec vm))"
abbreviation vm_StorageGiB :: "SmolVM \<Rightarrow> int64" where
  "vm_StorageGiB vm \<equiv> sto_StorageGiB (spec_Storage (vm_Spec vm))"
abbreviation vm_OverlayGiB :: "SmolVM \<Rightarrow> int64" where
  "vm_OverlayGiB vm \<equiv> sto_OverlayGiB (spec_Storage (vm_Spec vm))"

section \<open>SmolVMNode\<close>

record SmolVMNodeEndpoint =
  ep_PodName :: string
  ep_PodNamespace :: string
  ep_PodIP :: string
  ep_Port :: int32

record SmolVMNodeAllocatable =
  alloc_CPUs :: int32
  alloc_MemoryMiB :: int64
  alloc_StorageGiB :: int64

record SmolVMNodeStatus =
  ns_NodeUID :: string
  ns_RuntimeVersion :: string
  ns_ProtocolVersion :: string
  ns_HeartbeatTime :: "time option"
  ns_Endpoint :: SmolVMNodeEndpoint
  ns_Allocatable :: SmolVMNodeAllocatable
  ns_Conditions :: "Condition list"

record SmolVMNode =
  sn_Meta :: ObjectMeta
  sn_Status :: SmolVMNodeStatus

abbreviation sn_Name :: "SmolVMNode \<Rightarrow> string" where "sn_Name n \<equiv> meta_Name (sn_Meta n)"

section \<open>Zero values\<close>

definition emptyMeta :: ObjectMeta where
  "emptyMeta = \<lparr>meta_Name = [], meta_Namespace = [], meta_UID = [], meta_ResourceVersion = [],
     meta_Generation = 0, meta_DeletionTimestamp = None, meta_Labels = [], meta_Annotations = [],
     meta_Finalizers = []\<rparr>"

definition emptySpec :: SmolVMSpec where
  "emptySpec = \<lparr>spec_Running = False, spec_NodeName = [], spec_NodeSelector = [], spec_Image = [],
     spec_From = [], spec_Resources = \<lparr>res_CPUs = 0, res_MemoryMiB = 0\<rparr>,
     spec_Storage = \<lparr>sto_StorageGiB = 0, sto_OverlayGiB = 0\<rparr>,
     spec_Network = \<lparr>net_Enabled = False, net_AllowedCIDRs = [], net_Ports = []\<rparr>\<rparr>"

definition emptyStatus :: SmolVMStatus where
  "emptyStatus = \<lparr>status_Phase = [], status_NodeName = [], status_MachineName = [],
     status_RuntimePID = None, status_Network = False, status_Ports = [], status_StorageGiB = None,
     status_OverlayGiB = None, status_ObservedGeneration = 0, status_Conditions = []\<rparr>"

definition emptyVM :: SmolVM where
  "emptyVM = \<lparr>vm_Meta = emptyMeta, vm_Spec = emptySpec, vm_Status = emptyStatus\<rparr>"

definition emptyNodeStatus :: SmolVMNodeStatus where
  "emptyNodeStatus = \<lparr>ns_NodeUID = [], ns_RuntimeVersion = [], ns_ProtocolVersion = [],
     ns_HeartbeatTime = None,
     ns_Endpoint = \<lparr>ep_PodName = [], ep_PodNamespace = [], ep_PodIP = [], ep_Port = 0\<rparr>,
     ns_Allocatable = \<lparr>alloc_CPUs = 0, alloc_MemoryMiB = 0, alloc_StorageGiB = 0\<rparr>,
     ns_Conditions = []\<rparr>"

definition emptySmolVMNode :: SmolVMNode where
  "emptySmolVMNode = \<lparr>sn_Meta = emptyMeta, sn_Status = emptyNodeStatus\<rparr>"

definition emptyNode :: Node where
  "emptyNode = \<lparr>node_Meta = emptyMeta, node_Unschedulable = False, node_Conditions = [],
     node_AllocCPU = 0, node_AllocMemory = 0\<rparr>"

lemmas zero_values = emptyMeta_def emptySpec_def emptyStatus_def emptyVM_def emptyNodeStatus_def
  emptySmolVMNode_def emptyNode_def

section \<open>The admission schema\<close>

text \<open>
  The validation markers on the types (\<open>+kubebuilder:validation\<close>, \<open>listType=map\<close>, \<open>XValidation\<close>),
  from which the CRD schema is generated: what the API server admits as the spec of a \<open>SmolVM\<close>.
  An optional field that is absent has its zero value.  The format \<open>cidr\<close> is checked by the API
  server; its check is the parameter \<open>cidr\<close>.
\<close>

definition optional_min :: "int \<Rightarrow> 'a::len word \<Rightarrow> bool" where
  "optional_min m x \<longleftrightarrow> sint x = 0 \<or> m \<le> sint x"

definition schema_port :: "SmolVMPort \<Rightarrow> bool" where
  "schema_port p \<longleftrightarrow> 1 \<le> sint (HostPort p) \<and> sint (HostPort p) \<le> 65535 \<and>
                     1 \<le> sint (GuestPort p) \<and> sint (GuestPort p) \<le> 65535"

definition schema_admits :: "(string \<Rightarrow> bool) \<Rightarrow> SmolVMSpec \<Rightarrow> bool" where
  "schema_admits cidr sp \<longleftrightarrow>
     (spec_Image sp \<noteq> []) \<noteq> (spec_From sp \<noteq> []) \<and>
     optional_min 1 (res_CPUs (spec_Resources sp)) \<and>
     optional_min 64 (res_MemoryMiB (spec_Resources sp)) \<and>
     optional_min 1 (sto_StorageGiB (spec_Storage sp)) \<and>
     optional_min 1 (sto_OverlayGiB (spec_Storage sp)) \<and>
     list_all cidr (net_AllowedCIDRs (spec_Network sp)) \<and>
     list_all schema_port (net_Ports (spec_Network sp)) \<and>
     distinct (map HostPort (net_Ports (spec_Network sp)))"

text \<open>The transition rule of the schema: once set, \<open>spec.nodeName\<close> keeps its value.\<close>

definition schema_admits_update :: "(string \<Rightarrow> bool) \<Rightarrow> SmolVMSpec \<Rightarrow> SmolVMSpec \<Rightarrow> bool" where
  "schema_admits_update cidr old new \<longleftrightarrow>
     schema_admits cidr new \<and>
     (spec_NodeName old \<noteq> [] \<longrightarrow> spec_NodeName new = spec_NodeName old)"

end
