(* ===== verification/Smolvm_Client.thy ===== *)
theory Smolvm_Client
  imports Go_Lib
begin

text \<open>
  The data types, the constructors and the errors of the HTTP client of the smolvm API
  (\<open>src/internal/smolvm/client.go\<close>).
\<close>

section \<open>Requests and responses\<close>

record PortSpec =
  port_Host :: int32
  port_Guest :: int32

record MachineInfo =
  mi_Name :: string
  mi_State :: string
  mi_CPUs :: int32
  mi_MemoryMiB :: int32
  mi_PID :: "int32 option"
  mi_Ports :: "PortSpec list"
  mi_Network :: bool
  mi_StorageGB :: "int64 option"
  mi_OverlayGB :: "int64 option"

record Identity =
  id_NodeName :: string
  id_NodeUID :: string

record Health =
  health_OK :: bool
  health_KVMAvailable :: bool
  health_SocketReady :: bool
  health_StateReady :: bool
  health_Message :: string

record Capabilities =
  cap_RuntimeVersion :: string
  cap_ProtocolVersion :: string
  cap_CPUs :: int32
  cap_MemoryMiB :: int64
  cap_StorageGiB :: int64
  cap_KVMAvailable :: bool

record CreateMachineRequest =
  create_Name :: string
  create_CPUs :: int32
  create_MemoryMiB :: int32
  create_Ports :: "PortSpec list"
  create_Network :: bool
  create_StorageGB :: "int64 option"
  create_OverlayGB :: "int64 option"
  create_AllowedCIDRs :: "string list"
  create_Image :: string
  create_From :: string

record ResizeRequest =
  resize_StorageGB :: "int64 option"
  resize_OverlayGB :: "int64 option"

section \<open>Errors\<close>

text \<open>
  \<open>err.Error()\<close>.  The first two equations are the method \<open>APIError.Error\<close>; a wrapped error prints
  its prefix, a colon and its cause.
\<close>

fun Error :: "goerror \<Rightarrow> string" where
  "Error (APIError code body) =
     (if body = [] then ''smolvm API returned HTTP '' @ int_dec code
      else ''smolvm API returned HTTP '' @ int_dec code @ '': '' @ body)"
| "Error (KubeError nf msg) = msg"
| "Error (ErrorString msg) = msg"
| "Error (WrapError pre e) = pre @ '': '' @ Error e"

text \<open>The type assertion \<open>err.(APIError)\<close> does not look inside a wrapped error.\<close>

fun IsNotFound :: "goerror \<Rightarrow> bool" where
  "IsNotFound (APIError code body) \<longleftrightarrow> code = 404"
| "IsNotFound _ \<longleftrightarrow> False"

text \<open>
  \<open>apierrors.IsNotFound\<close> of the Kubernetes libraries: the answer is part of the error value that the
  environment returned; a wrapped error has the answer of its cause.
\<close>

fun apierrors_IsNotFound :: "goerror \<Rightarrow> bool" where
  "apierrors_IsNotFound (KubeError nf msg) \<longleftrightarrow> nf"
| "apierrors_IsNotFound (WrapError pre e) \<longleftrightarrow> apierrors_IsNotFound e"
| "apierrors_IsNotFound _ \<longleftrightarrow> False"

lemma IsNotFound_iff: "IsNotFound e \<longleftrightarrow> (\<exists>body. e = APIError 404 body)"
  by (cases e) auto

section \<open>The client\<close>

text \<open>
  \<open>client_InsecureSkipVerify\<close> and \<open>client_Socket\<close> are what the constructor configures in the transport:
  whether certificates are checked, and the Unix socket to dial (empty: the address of the URL).
\<close>

record Client =
  client_baseURL :: string
  client_token :: string
  client_InsecureSkipVerify :: bool
  client_Socket :: string
  client_Timeout :: int

definition NewClientWithAuth :: "string \<Rightarrow> string \<Rightarrow> string \<Rightarrow> bool \<Rightarrow> Client" where
  "NewClientWithAuth baseURL socketPath token insecureSkipVerify =
     (let baseURL = (if baseURL = [] then ''http://127.0.0.1:8080'' else baseURL);
          baseURL = (if socketPath \<noteq> [] then ''http://unix'' else baseURL)
      in \<lparr>client_baseURL = TrimRight baseURL ''/'', client_token = token,
          client_InsecureSkipVerify = insecureSkipVerify, client_Socket = socketPath,
          client_Timeout = 30 * 10 ^ 9\<rparr>)"

definition NewClient :: "string \<Rightarrow> string \<Rightarrow> Client" where
  "NewClient baseURL socketPath = NewClientWithAuth baseURL socketPath [] False"

lemma TrimRight_no_trailing: "TrimRight s cutset = [] \<or> last (TrimRight s cutset) \<notin> set cutset"
  unfolding TrimRight_def by (metis hd_dropWhile last_rev rev_is_Nil_conv)

end
