(* ===== verification/Cluster_Env.thy ===== *)
theory Cluster_Env
  imports Api_Types Smolvm_Client
begin

text \<open>
  What the controller talks to.  The Kubernetes client, the node runtimes, the clock, the process
  environment and the helper functions of the controller libraries are not code of this repository:
  they are the fields of the record \<open>env\<close>, a parameter of every definition that uses them.  A field that
  answers a call gets the history of all earlier calls, so it may fail at will, return stale objects
  or reflect the work of other clients.  \<open>env_ok\<close> collects the documented behaviour of the library
  helpers that some properties rest on; nothing is assumed of the answers to calls.
\<close>

section \<open>Runtime handles and events\<close>

text \<open>
  A value of the interface \<open>SmolVMRuntime\<close>: the HTTP client of a node's runtime API, or the runtime
  that an injected \<open>RuntimeFactory\<close> returns.
\<close>

datatype SmolVMRuntime = HTTPRuntime Client | FactoryRuntime

text \<open>One interaction of the controller with its environment, with the answer it got.\<close>

datatype event =
    EvNow time
  | EvGetVM NamespacedName "goerror + SmolVM"
  | EvGetSmolVMNode string "goerror + SmolVMNode"
  | EvGetNode string "goerror + Node"
  | EvListVM "goerror + SmolVM list"
  | EvListSmolVMNode "goerror + SmolVMNode list"
  | EvUpdateVM SmolVM "goerror option"
  | EvUpdateVMStatus SmolVM "goerror option"
  | EvHealth SmolVMRuntime "goerror + Health"
  | EvGetIdentity SmolVMRuntime "goerror + Identity"
  | EvCapabilities SmolVMRuntime "goerror + Capabilities"
  | EvGetMachine SmolVMRuntime string "goerror + MachineInfo"
  | EvCreateMachine SmolVMRuntime CreateMachineRequest "goerror + MachineInfo"
  | EvEnsureMachineRunning SmolVMRuntime string "goerror option"
  | EvStopMachine SmolVMRuntime string "goerror option"
  | EvDeleteMachine SmolVMRuntime string "goerror option"
  | EvResizeMachine SmolVMRuntime string ResizeRequest "goerror option"
  | EvRecord SmolVM string string string

type_synonym 'a prog = "(event list, 'a) state"

section \<open>The environment\<close>

record env =
  env_ContainsFinalizer :: "string list \<Rightarrow> string \<Rightarrow> bool"
  env_AddFinalizer :: "string list \<Rightarrow> string \<Rightarrow> string list"
  env_RemoveFinalizer :: "string list \<Rightarrow> string \<Rightarrow> string list"
  env_DeepEqual :: "SmolVMStatus \<Rightarrow> SmolVMStatus \<Rightarrow> bool"
  env_Getenv :: "string \<Rightarrow> string"
  env_Now :: "event list \<Rightarrow> time"
  env_GetVM :: "event list \<Rightarrow> NamespacedName \<Rightarrow> goerror + SmolVM"
  env_GetSmolVMNode :: "event list \<Rightarrow> string \<Rightarrow> goerror + SmolVMNode"
  env_GetNode :: "event list \<Rightarrow> string \<Rightarrow> goerror + Node"
  env_ListVM :: "event list \<Rightarrow> goerror + SmolVM list"
  env_ListSmolVMNode :: "event list \<Rightarrow> goerror + SmolVMNode list"
  env_UpdateVM :: "event list \<Rightarrow> SmolVM \<Rightarrow> goerror option"
  env_UpdateVMStatus :: "event list \<Rightarrow> SmolVM \<Rightarrow> goerror option"
  env_Health :: "event list \<Rightarrow> SmolVMRuntime \<Rightarrow> goerror + Health"
  env_GetIdentity :: "event list \<Rightarrow> SmolVMRuntime \<Rightarrow> goerror + Identity"
  env_Capabilities :: "event list \<Rightarrow> SmolVMRuntime \<Rightarrow> goerror + Capabilities"
  env_GetMachine :: "event list \<Rightarrow> SmolVMRuntime \<Rightarrow> string \<Rightarrow> goerror + MachineInfo"
  env_CreateMachine :: "event list \<Rightarrow> SmolVMRuntime \<Rightarrow> CreateMachineRequest \<Rightarrow> goerror + MachineInfo"
  env_EnsureMachineRunning :: "event list \<Rightarrow> SmolVMRuntime \<Rightarrow> string \<Rightarrow> goerror option"
  env_StopMachine :: "event list \<Rightarrow> SmolVMRuntime \<Rightarrow> string \<Rightarrow> goerror option"
  env_DeleteMachine :: "event list \<Rightarrow> SmolVMRuntime \<Rightarrow> string \<Rightarrow> goerror option"
  env_ResizeMachine :: "event list \<Rightarrow> SmolVMRuntime \<Rightarrow> string \<Rightarrow> ResizeRequest \<Rightarrow> goerror option"

text \<open>
  \<open>controllerutil\<close>: \<open>ContainsFinalizer\<close> is membership, \<open>AddFinalizer\<close> and \<open>RemoveFinalizer\<close> add and
  remove the one finalizer.  \<open>apiequality.Semantic.DeepEqual\<close> is equality of the two statuses.
\<close>

definition env_ok :: "env \<Rightarrow> bool" where
  "env_ok E \<longleftrightarrow>
     (\<forall>fs f. env_ContainsFinalizer E fs f \<longleftrightarrow> f \<in> set fs) \<and>
     (\<forall>fs f. set (env_AddFinalizer E fs f) = insert f (set fs)) \<and>
     (\<forall>fs f. set (env_RemoveFinalizer E fs f) = set fs - {f}) \<and>
     (\<forall>a b. env_DeepEqual E a b \<longleftrightarrow> a = b)"

section \<open>The calls\<close>

definition Now :: "env \<Rightarrow> time prog" where "Now E = call (env_Now E) EvNow"
definition GetVM :: "env \<Rightarrow> NamespacedName \<Rightarrow> (goerror + SmolVM) prog" where
  "GetVM E n = call (\<lambda>h. env_GetVM E h n) (EvGetVM n)"
definition GetSmolVMNode :: "env \<Rightarrow> string \<Rightarrow> (goerror + SmolVMNode) prog" where
  "GetSmolVMNode E n = call (\<lambda>h. env_GetSmolVMNode E h n) (EvGetSmolVMNode n)"
definition GetNode :: "env \<Rightarrow> string \<Rightarrow> (goerror + Node) prog" where
  "GetNode E n = call (\<lambda>h. env_GetNode E h n) (EvGetNode n)"
definition ListVM :: "env \<Rightarrow> (goerror + SmolVM list) prog" where
  "ListVM E = call (env_ListVM E) EvListVM"
definition ListSmolVMNode :: "env \<Rightarrow> (goerror + SmolVMNode list) prog" where
  "ListSmolVMNode E = call (env_ListSmolVMNode E) EvListSmolVMNode"
definition UpdateVM :: "env \<Rightarrow> SmolVM \<Rightarrow> goerror option prog" where
  "UpdateVM E vm = call (\<lambda>h. env_UpdateVM E h vm) (EvUpdateVM vm)"
definition UpdateVMStatus :: "env \<Rightarrow> SmolVM \<Rightarrow> goerror option prog" where
  "UpdateVMStatus E vm = call (\<lambda>h. env_UpdateVMStatus E h vm) (EvUpdateVMStatus vm)"
definition Health :: "env \<Rightarrow> SmolVMRuntime \<Rightarrow> (goerror + Health) prog" where
  "Health E api = call (\<lambda>h. env_Health E h api) (EvHealth api)"
definition GetIdentity :: "env \<Rightarrow> SmolVMRuntime \<Rightarrow> (goerror + Identity) prog" where
  "GetIdentity E api = call (\<lambda>h. env_GetIdentity E h api) (EvGetIdentity api)"
definition Capabilities :: "env \<Rightarrow> SmolVMRuntime \<Rightarrow> (goerror + Capabilities) prog" where
  "Capabilities E api = call (\<lambda>h. env_Capabilities E h api) (EvCapabilities api)"
definition GetMachine :: "env \<Rightarrow> SmolVMRuntime \<Rightarrow> string \<Rightarrow> (goerror + MachineInfo) prog" where
  "GetMachine E api n = call (\<lambda>h. env_GetMachine E h api n) (EvGetMachine api n)"
definition CreateMachine ::
  "env \<Rightarrow> SmolVMRuntime \<Rightarrow> CreateMachineRequest \<Rightarrow> (goerror + MachineInfo) prog" where
  "CreateMachine E api r = call (\<lambda>h. env_CreateMachine E h api r) (EvCreateMachine api r)"
definition EnsureMachineRunning :: "env \<Rightarrow> SmolVMRuntime \<Rightarrow> string \<Rightarrow> goerror option prog" where
  "EnsureMachineRunning E api n =
     call (\<lambda>h. env_EnsureMachineRunning E h api n) (EvEnsureMachineRunning api n)"
definition StopMachine :: "env \<Rightarrow> SmolVMRuntime \<Rightarrow> string \<Rightarrow> goerror option prog" where
  "StopMachine E api n = call (\<lambda>h. env_StopMachine E h api n) (EvStopMachine api n)"
definition DeleteMachine :: "env \<Rightarrow> SmolVMRuntime \<Rightarrow> string \<Rightarrow> goerror option prog" where
  "DeleteMachine E api n = call (\<lambda>h. env_DeleteMachine E h api n) (EvDeleteMachine api n)"
definition ResizeMachine ::
  "env \<Rightarrow> SmolVMRuntime \<Rightarrow> string \<Rightarrow> ResizeRequest \<Rightarrow> goerror option prog" where
  "ResizeMachine E api n r = call (\<lambda>h. env_ResizeMachine E h api n r) (EvResizeMachine api n r)"

lemmas call_defs =
  Now_def GetVM_def GetSmolVMNode_def GetNode_def ListVM_def ListSmolVMNode_def UpdateVM_def
  UpdateVMStatus_def Health_def GetIdentity_def Capabilities_def GetMachine_def CreateMachine_def
  EnsureMachineRunning_def StopMachine_def DeleteMachine_def ResizeMachine_def

section \<open>The reconciler value\<close>

text \<open>
  The struct \<open>SmolVMReconciler\<close>: its client is the environment; what is left is whether a runtime
  factory is injected and whether there is an event recorder.
\<close>

record SmolVMReconciler =
  rec_RuntimeFactory :: bool
  rec_Recorder :: bool

definition record_event :: "SmolVMReconciler \<Rightarrow> SmolVM \<Rightarrow> string \<Rightarrow> string \<Rightarrow> string \<Rightarrow> unit prog" where
  "record_event R vm eventType reason message =
     (if rec_Recorder R then call (\<lambda>_. ()) (\<lambda>_. EvRecord vm eventType reason message)
      else State_Monad.return ())"

text \<open>\<open>ctrl.Result\<close>: the delay after which the request comes back (0: it does not).\<close>

record Result =
  RequeueAfter :: int

definition noRequeue :: Result where "noRequeue = \<lparr>RequeueAfter = 0\<rparr>"
definition requeueAfter :: int where "requeueAfter = 10 * 10 ^ 9"
definition requeue :: Result where "requeue = \<lparr>RequeueAfter = requeueAfter\<rparr>"

text \<open>\<open>client.IgnoreNotFound\<close>.\<close>

definition IgnoreNotFound :: "goerror \<Rightarrow> goerror option" where
  "IgnoreNotFound err = (if apierrors_IsNotFound err then None else Some err)"

end
