(* ===== verification/Conditions.thy ===== *)
theory Conditions
  imports Api_Types
begin

text \<open>
  The condition lists of the two custom resources.  The controller and the runtime agent each have
  their own \<open>setCondition\<close> (\<open>src/internal/controller/smolvm_controller.go\<close> and
  \<open>src/cmd/runtime-agent/main.go\<close>): the controller's also stamps the generation.  The contract both
  keep is the locale \<open>condition_setter\<close>; its lemmas are proved once and hold of both functions through
  the two interpretations.
\<close>

section \<open>The operations\<close>

text \<open>\<open>now\<close> is the clock reading of \<open>metav1.Now()\<close>; it is used where the code reads the clock.\<close>

fun setCondition ::
  "time \<Rightarrow> Condition list \<Rightarrow> string \<Rightarrow> ConditionStatus \<Rightarrow> string \<Rightarrow> string \<Rightarrow> int64 \<Rightarrow> Condition list" where
  "setCondition now [] typ st reason msg generation =
     [\<lparr>cond_Type = typ, cond_Status = st, cond_ObservedGeneration = generation,
       cond_LastTransitionTime = now, cond_Reason = reason, cond_Message = msg\<rparr>]"
| "setCondition now (c # cs) typ st reason msg generation =
     (if cond_Type c = typ then
        (let c = (if cond_Status c \<noteq> st then c\<lparr>cond_LastTransitionTime := now\<rparr> else c)
         in c\<lparr>cond_Status := st, cond_Reason := reason, cond_Message := msg,
             cond_ObservedGeneration := generation\<rparr>) # cs
      else c # setCondition now cs typ st reason msg generation)"

fun agent_setCondition ::
  "time \<Rightarrow> Condition list \<Rightarrow> string \<Rightarrow> ConditionStatus \<Rightarrow> string \<Rightarrow> string \<Rightarrow> Condition list" where
  "agent_setCondition now [] typ st reason msg =
     [\<lparr>cond_Type = typ, cond_Status = st, cond_ObservedGeneration = 0,
       cond_LastTransitionTime = now, cond_Reason = reason, cond_Message = msg\<rparr>]"
| "agent_setCondition now (c # cs) typ st reason msg =
     (if cond_Type c = typ then
        (let c = (if cond_Status c \<noteq> st then c\<lparr>cond_LastTransitionTime := now\<rparr> else c)
         in c\<lparr>cond_Status := st, cond_Reason := reason, cond_Message := msg\<rparr>) # cs
      else c # agent_setCondition now cs typ st reason msg)"

fun hasCondition :: "Condition list \<Rightarrow> string \<Rightarrow> ConditionStatus \<Rightarrow> bool" where
  "hasCondition [] typ st \<longleftrightarrow> False"
| "hasCondition (c # cs) typ st \<longleftrightarrow>
     (if cond_Type c = typ \<and> cond_Status c = st then True else hasCondition cs typ st)"

section \<open>The abstract view: a lookup by type\<close>

definition findCondition :: "string \<Rightarrow> Condition list \<Rightarrow> Condition option" where
  "findCondition ty cs = find (\<lambda>c. cond_Type c = ty) cs"

definition distinct_types :: "Condition list \<Rightarrow> bool" where
  "distinct_types cs \<longleftrightarrow> distinct (map cond_Type cs)"

lemma findCondition_simps [simp]:
  "findCondition ty [] = None"
  "findCondition ty (c # cs) = (if cond_Type c = ty then Some c else findCondition ty cs)"
  by (simp_all add: findCondition_def)

lemma findCondition_None: "findCondition ty cs = None \<longleftrightarrow> ty \<notin> cond_Type ` set cs"
  by (induction cs) auto

lemma findCondition_type: "findCondition ty cs = Some c \<Longrightarrow> cond_Type c = ty"
  by (induction cs) (auto split: if_splits)

lemma hasCondition_iff: "hasCondition cs ty st \<longleftrightarrow> (\<exists>c \<in> set cs. cond_Type c = ty \<and> cond_Status c = st)"
  by (induction cs) auto

lemma findCondition_has: "findCondition ty cs = Some c \<Longrightarrow> hasCondition cs ty (cond_Status c)"
  by (induction cs) (auto split: if_splits)

lemma hasCondition_find:
  "distinct_types cs \<Longrightarrow>
   hasCondition cs ty st \<longleftrightarrow> (\<exists>c. findCondition ty cs = Some c \<and> cond_Status c = st)"
proof (induction cs)
  case (Cons a cs)
  show ?case
  proof (cases "cond_Type a = ty")
    case True
    with Cons.prems have "\<forall>c \<in> set cs. cond_Type c \<noteq> ty"
      by (auto simp: distinct_types_def image_iff)
    with True show ?thesis by (auto simp: hasCondition_iff)
  next
    case False
    with Cons show ?thesis by (simp add: distinct_types_def)
  qed
qed simp

section \<open>The contract of a condition setter\<close>

text \<open>
  \<open>stamped c\<close> says that a condition carries what the setter records besides status, reason and message
  (the generation, for the controller).
\<close>

locale condition_setter =
  fixes setc :: "time \<Rightarrow> Condition list \<Rightarrow> string \<Rightarrow> ConditionStatus \<Rightarrow> string \<Rightarrow> string \<Rightarrow> Condition list"
    and stamped :: "Condition \<Rightarrow> bool"
  assumes setc_types:
      "map cond_Type (setc now cs ty st r m) =
       map cond_Type cs @ (if ty \<in> cond_Type ` set cs then [] else [ty])"
    and setc_other: "t \<noteq> ty \<Longrightarrow> findCondition t (setc now cs ty st r m) = findCondition t cs"
    and setc_found:
      "\<exists>c. findCondition ty (setc now cs ty st r m) = Some c \<and> stamped c \<and>
           cond_Status c = st \<and> cond_Reason c = r \<and> cond_Message c = m \<and>
           cond_LastTransitionTime c =
             (case findCondition ty cs of
                None \<Rightarrow> now
              | Some d \<Rightarrow> if cond_Status d = st then cond_LastTransitionTime d else now)"
    and setc_fix:
      "findCondition ty cs = Some c \<Longrightarrow> stamped c \<Longrightarrow>
       setc now cs ty (cond_Status c) (cond_Reason c) (cond_Message c) = cs"
begin

lemma setc_distinct: "distinct_types cs \<Longrightarrow> distinct_types (setc now cs ty st r m)"
  by (auto simp: distinct_types_def setc_types)

lemma setc_has:
  assumes "distinct_types cs"
  shows "hasCondition (setc now cs ty st r m) t s \<longleftrightarrow>
         (if t = ty then s = st else hasCondition cs t s)"
  using setc_found [of ty now cs st r m] setc_other [of t ty now cs st r m]
  by (auto simp: hasCondition_find [OF setc_distinct [OF assms]] hasCondition_find [OF assms])

text \<open>A sequence of settings, each at its own clock reading.\<close>

definition sets :: "(time \<times> string \<times> ConditionStatus \<times> string \<times> string) list \<Rightarrow> Condition list \<Rightarrow> Condition list" where
  "sets us cs = foldl (\<lambda>cs (now, ty, st, r, m). setc now cs ty st r m) cs us"

lemma sets_simps [simp]:
  "sets [] cs = cs"
  "sets ((now, ty, st, r, m) # us) cs = sets us (setc now cs ty st r m)"
  by (simp_all add: sets_def)

lemma sets_other:
  "t \<notin> set (map (fst \<circ> snd) us) \<Longrightarrow> findCondition t (sets us cs) = findCondition t cs"
  by (induction us arbitrary: cs) (auto simp: setc_other)

lemma sets_distinct: "distinct_types cs \<Longrightarrow> distinct_types (sets us cs)"
  by (induction us arbitrary: cs) (auto simp: setc_distinct)

lemma sets_found:
  assumes "distinct (map (fst \<circ> snd) us)" and "(now, ty, st, r, m) \<in> set us"
  shows "\<exists>c. findCondition ty (sets us cs) = Some c \<and> stamped c \<and>
             cond_Status c = st \<and> cond_Reason c = r \<and> cond_Message c = m"
  using assms
proof (induction us arbitrary: cs)
  case (Cons u us)
  obtain now' ty' st' r' m' where u: "u = (now', ty', st', r', m')" by (cases u)
  show ?case
  proof (cases "(now, ty, st, r, m) \<in> set us")
    case True
    with Cons u show ?thesis by simp
  next
    case False
    with Cons.prems u have eq: "u = (now, ty, st, r, m)" and "ty \<notin> set (map (fst \<circ> snd) us)"
      by auto
    with setc_found [of ty now cs st r m] show ?thesis by (auto simp: sets_other)
  qed
qed simp

text \<open>Settings that the list already shows change nothing, whatever the clock says.\<close>

lemma sets_fix:
  assumes "\<And>now ty st r m. (now, ty, st, r, m) \<in> set us \<Longrightarrow>
    \<exists>c. findCondition ty cs = Some c \<and> stamped c \<and> cond_Status c = st \<and> cond_Reason c = r \<and> cond_Message c = m"
  shows "sets us cs = cs"
  using assms
proof (induction us)
  case (Cons u us)
  obtain now ty st r m where u: "u = (now, ty, st, r, m)" by (cases u)
  have "setc now cs ty st r m = cs"
    using Cons.prems [of now ty st r m] u setc_fix by fastforce
  moreover have "sets us cs = cs"
    by (rule Cons.IH) (rule Cons.prems, rule list.set_intros(2))
  ultimately show ?case using u by simp
qed simp

lemma sets_idem:
  assumes "distinct (map (fst \<circ> snd) us)" and "map snd us' = map snd us"
  shows "sets us' (sets us cs) = sets us cs"
proof (rule sets_fix)
  fix now ty st r m
  assume "(now, ty, st, r, m) \<in> set us'"
  then have "snd (now, ty, st, r, m) \<in> set (map snd us')"
    unfolding set_map by (rule imageI)
  then have "(ty, st, r, m) \<in> set (map snd us)"
    using assms(2) by simp
  then obtain now' where "(now', ty, st, r, m) \<in> set us" by auto
  with assms(1) show "\<exists>c. findCondition ty (sets us cs) = Some c \<and> stamped c \<and>
    cond_Status c = st \<and> cond_Reason c = r \<and> cond_Message c = m"
    by (rule sets_found)
qed

end

section \<open>Both setters keep the contract\<close>

lemma setCondition_types:
  "map cond_Type (setCondition now cs ty st r m gen) =
   map cond_Type cs @ (if ty \<in> cond_Type ` set cs then [] else [ty])"
  by (induction cs) (auto simp: Let_def)

lemma agent_setCondition_types:
  "map cond_Type (agent_setCondition now cs ty st r m) =
   map cond_Type cs @ (if ty \<in> cond_Type ` set cs then [] else [ty])"
  by (induction cs) (auto simp: Let_def)

interpretation ctrl: condition_setter
  "\<lambda>now cs ty st r m. setCondition now cs ty st r m gen"
  "\<lambda>c. cond_ObservedGeneration c = gen" for gen
proof (unfold_locales, goal_cases)
  case (1 now cs ty st r m)
  show ?case by (rule setCondition_types)
next
  case (2 t ty now cs st r m)
  then show ?case by (induction cs) (auto simp: Let_def)
next
  case (3 ty now cs st r m)
  show ?case by (induction cs) (auto simp: Let_def)
next
  case (4 ty cs c now)
  then show ?case by (induction cs) (auto simp: Let_def split: if_splits)
qed

interpretation agent: condition_setter agent_setCondition "\<lambda>_. True"
proof (unfold_locales, goal_cases)
  case (1 now cs ty st r m)
  show ?case by (rule agent_setCondition_types)
next
  case (2 t ty now cs st r m)
  then show ?case by (induction cs) (auto simp: Let_def)
next
  case (3 ty now cs st r m)
  show ?case by (induction cs) (auto simp: Let_def)
next
  case (4 ty cs c now)
  then show ?case by (induction cs) (auto simp: Let_def split: if_splits)
qed

end
