(* ===== verification/Scheduler.thy ===== *)
theory Scheduler
  imports Cluster_Env Conditions
begin

text \<open>
  The scheduler of the controller (\<open>schedule\<close>, \<open>nodeRejectReason\<close> and the functions they call in
  \<open>src/internal/controller/smolvm_controller.go\<close>).  A node is rejected with a reason, the empty string
  means it is acceptable; the code's loops over slices are recursions over lists, and resource sums
  are kept at the width of the Go integers, where they wrap around.
\<close>

section \<open>Node eligibility\<close>

text \<open>
  The code reads the clock (\<open>time.Since\<close>) after the checks of the conditions; here the reading comes first and is
  an argument, and a node that fails those checks does not use it.
\<close>

definition smolVMNodeEligible :: "time \<Rightarrow> SmolVMNode \<Rightarrow> bool" where
  "smolVMNodeEligible now node =
     (let st = sn_Status node in
      if \<not> hasCondition (ns_Conditions st) SmolVMNodeConditionReady ConditionTrue \<or>
         \<not> hasCondition (ns_Conditions st) SmolVMNodeConditionKVMAvailable ConditionTrue \<or>
         \<not> hasCondition (ns_Conditions st) SmolVMNodeConditionRuntimeReady ConditionTrue \<or>
         \<not> hasCondition (ns_Conditions st) SmolVMNodeConditionSchedulable ConditionTrue
      then False
      else if ns_ProtocolVersion st \<noteq> [] \<and> ns_ProtocolVersion st \<noteq> ''v1alpha1'' then False
      else case ns_HeartbeatTime st of
        None \<Rightarrow> False
      | Some hb \<Rightarrow>
          if now - hb > 2 * 60 * 10 ^ 9 then False
          else ep_PodIP (ns_Endpoint st) \<noteq> [] \<and> 0 < sint (ep_Port (ns_Endpoint st)))"

fun matchesSelector :: "strmap \<Rightarrow> strmap \<Rightarrow> bool" where
  "matchesSelector labels [] \<longleftrightarrow> True"
| "matchesSelector labels ((key, val) # sel) \<longleftrightarrow>
     (if map_get labels key \<noteq> val then False else matchesSelector labels sel)"

definition matchesNodeSelector :: "SmolVMNode \<Rightarrow> strmap \<Rightarrow> bool" where
  "matchesNodeSelector node selector = matchesSelector (meta_Labels (sn_Meta node)) selector"

fun nodeConditionsReady :: "NodeCondition list \<Rightarrow> bool" where
  "nodeConditionsReady [] \<longleftrightarrow> False"
| "nodeConditionsReady (c # cs) \<longleftrightarrow>
     (if nc_Type c = ''Ready'' then nc_Status c = ConditionTrue else nodeConditionsReady cs)"

definition kubernetesNodeReady :: "Node \<Rightarrow> bool" where
  "kubernetesNodeReady node = nodeConditionsReady (node_Conditions node)"

section \<open>Capacity and host ports\<close>

text \<open>The sums of the loop in \<open>resourceFitReason\<close>, over the VMs bound to the node.\<close>

fun usedResources ::
  "string \<Rightarrow> SmolVM list \<Rightarrow> int32 \<times> int64 \<times> int64 \<Rightarrow> int32 \<times> int64 \<times> int64" where
  "usedResources nodeName [] used = used"
| "usedResources nodeName (existing # bound) (usedCPU, usedMemory, usedStorage) =
     (if vm_NodeName existing \<noteq> nodeName
      then usedResources nodeName bound (usedCPU, usedMemory, usedStorage)
      else usedResources nodeName bound
        (usedCPU + vm_CPUs existing,
         usedMemory + signed (vm_MemoryMiB existing),
         usedStorage + (vm_StorageGiB existing + vm_OverlayGiB existing)))"

definition resourceFitReason :: "SmolVMNode \<Rightarrow> SmolVM \<Rightarrow> SmolVM list \<Rightarrow> string" where
  "resourceFitReason node vm bound =
     (let (usedCPU, usedMemory, usedStorage) = usedResources (sn_Name node) bound (0, 0, 0);
          alloc = ns_Allocatable (sn_Status node);
          requestedStorage = vm_StorageGiB vm + vm_OverlayGiB vm
      in if 0 < sint (alloc_CPUs alloc) \<and> sint (usedCPU + vm_CPUs vm) > sint (alloc_CPUs alloc)
         then ''insufficient cpu: requested '' @ int_dec (sint (vm_CPUs vm)) @ '' used '' @
              int_dec (sint usedCPU) @ '' allocatable '' @ int_dec (sint (alloc_CPUs alloc))
         else if 0 < sint (alloc_MemoryMiB alloc) \<and>
                 sint (usedMemory + signed (vm_MemoryMiB vm)) > sint (alloc_MemoryMiB alloc)
         then ''insufficient memory: requested '' @ int_dec (sint (vm_MemoryMiB vm)) @ ''MiB used '' @
              int_dec (sint usedMemory) @ ''MiB allocatable '' @
              int_dec (sint (alloc_MemoryMiB alloc)) @ ''MiB''
         else if 0 < sint (alloc_StorageGiB alloc) \<and>
                 sint (usedStorage + requestedStorage) > sint (alloc_StorageGiB alloc)
         then ''insufficient storage: requested '' @ int_dec (sint requestedStorage) @ ''GiB used '' @
              int_dec (sint usedStorage) @ ''GiB allocatable '' @
              int_dec (sint (alloc_StorageGiB alloc)) @ ''GiB''
         else [])"

fun portConflict :: "int32 list \<Rightarrow> SmolVM \<Rightarrow> SmolVMPort list \<Rightarrow> string" where
  "portConflict requested existing [] = []"
| "portConflict requested existing (p # ps) =
     (if HostPort p \<in> set requested
      then ''hostPort '' @ int_dec (sint (HostPort p)) @ '' conflicts with '' @
           vm_Namespace existing @ ''/'' @ vm_Name existing
      else portConflict requested existing ps)"

fun boundPortConflict :: "string \<Rightarrow> int32 list \<Rightarrow> SmolVM list \<Rightarrow> string" where
  "boundPortConflict nodeName requested [] = []"
| "boundPortConflict nodeName requested (existing # bound) =
     (if vm_NodeName existing \<noteq> nodeName then boundPortConflict nodeName requested bound
      else let reason = portConflict requested existing (vm_Ports existing) in
        if reason \<noteq> [] then reason else boundPortConflict nodeName requested bound)"

definition hostPortConflictReason :: "string \<Rightarrow> SmolVM \<Rightarrow> SmolVM list \<Rightarrow> string" where
  "hostPortConflictReason nodeName vm bound =
     (let requested = map HostPort (vm_Ports vm) in
      if requested = [] then [] else boundPortConflict nodeName requested bound)"

section \<open>Choosing a node\<close>

definition nodeRejectReason :: "env \<Rightarrow> SmolVMNode \<Rightarrow> SmolVM \<Rightarrow> SmolVM list \<Rightarrow> string prog" where
  "nodeRejectReason E node vm bound = do {
     now \<leftarrow> Now E;
     if \<not> smolVMNodeEligible now node
     then State_Monad.return ''runtime not ready, heartbeat stale, or endpoint missing''
     else if \<not> matchesNodeSelector node (spec_NodeSelector (vm_Spec vm))
     then State_Monad.return ''nodeSelector does not match''
     else do {
       r \<leftarrow> GetNode E (sn_Name node);
       case r of
         Inl err \<Rightarrow> State_Monad.return (''Kubernetes Node unavailable: '' @ Error err)
       | Inr k8sNode \<Rightarrow>
           State_Monad.return
             (if node_Unschedulable k8sNode then ''Kubernetes Node is unschedulable''
              else if \<not> kubernetesNodeReady k8sNode then ''Kubernetes Node is not Ready''
              else let reason = resourceFitReason node vm bound in
                if reason \<noteq> [] then reason
                else let reason = hostPortConflictReason (sn_Name node) vm bound in
                  if reason \<noteq> [] then reason else [])
     }
   }"

definition boundVMs :: "env \<Rightarrow> SmolVM \<Rightarrow> (goerror + SmolVM list) prog" where
  "boundVMs E pending = do {
     r \<leftarrow> ListVM E;
     State_Monad.return (case r of
         Inl err \<Rightarrow> Inl err
       | Inr items \<Rightarrow> Inr (filter (\<lambda>item.
           \<not> (vm_UID item = vm_UID pending \<or> vm_NodeName item = [] \<or>
              meta_DeletionTimestamp (vm_Meta item) \<noteq> None)) items))
   }"

text \<open>The loop over the listed nodes, with the reasons collected so far.\<close>

fun scheduleLoop ::
  "env \<Rightarrow> SmolVM \<Rightarrow> SmolVM list \<Rightarrow> SmolVMNode list \<Rightarrow> string list \<Rightarrow> (string \<times> string) prog" where
  "scheduleLoop E vm bound [] reasons = State_Monad.return
     (if reasons = [] then ([], ''no SmolVMNode objects exist'')
      else ([], ''no ready SmolVMNode matches this VM: '' @ Join reasons ''; ''))"
| "scheduleLoop E vm bound (node # nodes) reasons = do {
     reason \<leftarrow> nodeRejectReason E node vm bound;
     if reason \<noteq> []
     then scheduleLoop E vm bound nodes (reasons @ [sn_Name node @ '': '' @ reason])
     else State_Monad.return (sn_Name node, [])
   }"

text \<open>The results are the error, or the chosen node (empty if there is none) and a message.\<close>

definition schedule :: "env \<Rightarrow> SmolVM \<Rightarrow> (goerror + string \<times> string) prog" where
  "schedule E vm = do {
     b \<leftarrow> boundVMs E vm;
     case b of
       Inl err \<Rightarrow> State_Monad.return (Inl err)
     | Inr bound \<Rightarrow>
         let pinned = spec_NodeName (vm_Spec vm) in
         if pinned \<noteq> [] then do {
           r \<leftarrow> GetSmolVMNode E pinned;
           case r of
             Inl err \<Rightarrow>
               if apierrors_IsNotFound err
               then State_Monad.return
                 (Inr ([], ''pinned node '' @ pinned @ '' has no SmolVMNode runtime status''))
               else State_Monad.return (Inl err)
           | Inr node \<Rightarrow> do {
               reason \<leftarrow> nodeRejectReason E node vm bound;
               if reason \<noteq> []
               then State_Monad.return
                 (Inr ([], ''pinned node '' @ pinned @ '' is not eligible: '' @ reason))
               else State_Monad.return (Inr (sn_Name node, []))
             }
         }
         else do {
           r \<leftarrow> ListSmolVMNode E;
           case r of
             Inl err \<Rightarrow> State_Monad.return (Inl err)
           | Inr nodes \<Rightarrow> do { p \<leftarrow> scheduleLoop E vm bound nodes []; State_Monad.return (Inr p) }
         }
   }"

section \<open>Which requests a node change triggers\<close>

definition requestsForNodeChange :: "env \<Rightarrow> string \<Rightarrow> NamespacedName list prog" where
  "requestsForNodeChange E nodeName = do {
     r \<leftarrow> ListVM E;
     State_Monad.return (case r of
         Inl err \<Rightarrow> []
       | Inr items \<Rightarrow>
           map (\<lambda>vm. \<lparr>nn_Namespace = vm_Namespace vm, nn_Name = vm_Name vm\<rparr>)
             (filter (\<lambda>vm. vm_NodeName vm = nodeName \<or>
                vm_NodeName vm = [] \<and>
                  (spec_NodeName (vm_Spec vm) = [] \<or> spec_NodeName (vm_Spec vm) = nodeName)) items))
   }"

section \<open>Host ports\<close>

definition no_port_conflict :: "string \<Rightarrow> SmolVM \<Rightarrow> SmolVM list \<Rightarrow> bool" where
  "no_port_conflict nodeName vm bound \<longleftrightarrow>
     (\<forall>e \<in> set bound. vm_NodeName e = nodeName \<longrightarrow>
        HostPort ` set (vm_Ports e) \<inter> HostPort ` set (vm_Ports vm) = {})"

lemma portConflict_Nil:
  "portConflict requested existing ps = [] \<longleftrightarrow> HostPort ` set ps \<inter> set requested = {}"
  by (induction ps) auto

lemma boundPortConflict_Nil:
  "boundPortConflict nodeName requested bound = [] \<longleftrightarrow>
   (\<forall>e \<in> set bound. vm_NodeName e = nodeName \<longrightarrow> HostPort ` set (vm_Ports e) \<inter> set requested = {})"
  by (induction bound) (auto simp: Let_def portConflict_Nil)

lemma hostPortConflictReason_Nil:
  "hostPortConflictReason nodeName vm bound = [] \<longleftrightarrow> no_port_conflict nodeName vm bound"
  by (auto simp: hostPortConflictReason_def no_port_conflict_def boundPortConflict_Nil Let_def)

section \<open>Capacity\<close>

abbreviation on_node :: "string \<Rightarrow> SmolVM list \<Rightarrow> SmolVM list" where
  "on_node n vms \<equiv> filter (\<lambda>e. vm_NodeName e = n) vms"

text \<open>The demand of a list of VMs as unbounded integers.\<close>

definition cpu_demand :: "SmolVM list \<Rightarrow> int" where
  "cpu_demand vms = (\<Sum>e \<leftarrow> vms. sint (vm_CPUs e))"

definition memory_demand :: "SmolVM list \<Rightarrow> int" where
  "memory_demand vms = (\<Sum>e \<leftarrow> vms. sint (vm_MemoryMiB e))"

definition storage_demand :: "SmolVM list \<Rightarrow> int" where
  "storage_demand vms = (\<Sum>e \<leftarrow> vms. sint (vm_StorageGiB e) + sint (vm_OverlayGiB e))"

lemmas demand_defs = cpu_demand_def memory_demand_def storage_demand_def

text \<open>A node whose allocatable amount is not positive is not checked for that resource.\<close>

definition within_capacity :: "SmolVMNode \<Rightarrow> SmolVM list \<Rightarrow> bool" where
  "within_capacity node vms \<longleftrightarrow>
     (let alloc = ns_Allocatable (sn_Status node) in
      (0 < sint (alloc_CPUs alloc) \<longrightarrow> cpu_demand vms \<le> sint (alloc_CPUs alloc)) \<and>
      (0 < sint (alloc_MemoryMiB alloc) \<longrightarrow> memory_demand vms \<le> sint (alloc_MemoryMiB alloc)) \<and>
      (0 < sint (alloc_StorageGiB alloc) \<longrightarrow> storage_demand vms \<le> sint (alloc_StorageGiB alloc)))"

text \<open>The sums of the code do not wrap around.\<close>

definition demand_in_range :: "SmolVM list \<Rightarrow> bool" where
  "demand_in_range vms \<longleftrightarrow>
     cpu_demand vms \<in> {- (2 ^ 31)..<2 ^ 31} \<and>
     memory_demand vms \<in> {- (2 ^ 63)..<2 ^ 63} \<and>
     storage_demand vms \<in> {- (2 ^ 63)..<2 ^ 63}"

lemma usedResources_eq:
  "usedResources n bound (c, m, s) =
   (c + of_int (cpu_demand (on_node n bound)),
    m + of_int (memory_demand (on_node n bound)),
    s + of_int (storage_demand (on_node n bound)))"
  by (induction bound arbitrary: c m s) (auto simp: demand_defs)

lemma sint_of_int_in_range:
  "k \<in> {- (2 ^ (LENGTH('a) - 1))..<2 ^ (LENGTH('a) - 1)} \<Longrightarrow> sint (of_int k :: 'a::len word) = k"
  by (simp add: sint_sbintrunc' signed_take_bit_int_eq_self)

lemma resourceFitReason_Nil:
  assumes "demand_in_range (vm # on_node (sn_Name node) bound)"
  shows "resourceFitReason node vm bound = [] \<longleftrightarrow>
         within_capacity node (vm # on_node (sn_Name node) bound)"
proof -
  let ?vms = "vm # on_node (sn_Name node) bound"
  have "sint (of_int (cpu_demand (on_node (sn_Name node) bound)) + vm_CPUs vm) = cpu_demand ?vms"
    using sint_of_int_in_range [where 'a = 32, of "cpu_demand ?vms"] assms
    by (simp add: demand_in_range_def demand_defs add.commute)
  moreover have "sint (of_int (memory_demand (on_node (sn_Name node) bound)) + (signed (vm_MemoryMiB vm) :: int64)) = memory_demand ?vms"
    using sint_of_int_in_range [where 'a = 64, of "memory_demand ?vms"] assms
    by (simp add: demand_in_range_def demand_defs add.commute)
  moreover have "sint (of_int (storage_demand (on_node (sn_Name node) bound)) + (vm_StorageGiB vm + vm_OverlayGiB vm)) = storage_demand ?vms"
    using sint_of_int_in_range [where 'a = 64, of "storage_demand ?vms"] assms
    by (simp add: demand_in_range_def demand_defs add.commute)
  ultimately show ?thesis
    by (auto simp: resourceFitReason_def within_capacity_def usedResources_eq Let_def)
qed

section \<open>What an accepted node satisfies\<close>

definition bound_of :: "SmolVM \<Rightarrow> SmolVM list \<Rightarrow> SmolVM list" where
  "bound_of pending items = filter (\<lambda>item.
     \<not> (vm_UID item = vm_UID pending \<or> vm_NodeName item = [] \<or>
        meta_DeletionTimestamp (vm_Meta item) \<noteq> None)) items"

text \<open>The whole acceptance test, as one predicate of the values that were read.\<close>

definition acceptable :: "time \<Rightarrow> SmolVMNode \<Rightarrow> Node \<Rightarrow> SmolVM \<Rightarrow> SmolVM list \<Rightarrow> bool" where
  "acceptable now node k8sNode vm bound \<longleftrightarrow>
     smolVMNodeEligible now node \<and>
     matchesNodeSelector node (spec_NodeSelector (vm_Spec vm)) \<and>
     \<not> node_Unschedulable k8sNode \<and> kubernetesNodeReady k8sNode \<and>
     resourceFitReason node vm bound = [] \<and>
     no_port_conflict (sn_Name node) vm bound"

lemma nodeRejectReason_ensures:
  "ensures (nodeRejectReason E node vm bound)
     (\<lambda>reason es. reason = [] \<longrightarrow>
        (\<exists>now k8sNode. EvNow now \<in> set es \<and> EvGetNode (sn_Name node) (Inr k8sNode) \<in> set es \<and>
           acceptable now node k8sNode vm bound))"
  unfolding nodeRejectReason_def call_defs
  by (intro ensures_rules)
    (auto simp: acceptable_def Let_def hostPortConflictReason_Nil split: if_splits)

text \<open>
  \<open>chosen vm n es\<close>: the run with events \<open>es\<close> saw everything that makes \<open>n\<close> a node for \<open>vm\<close>.
\<close>

definition chosen :: "SmolVM \<Rightarrow> string \<Rightarrow> event list \<Rightarrow> bool" where
  "chosen vm n es \<longleftrightarrow>
     (\<exists>items node now k8sNode.
        EvListVM (Inr items) \<in> set es \<and> EvNow now \<in> set es \<and> EvGetNode n (Inr k8sNode) \<in> set es \<and>
        sn_Name node = n \<and>
        (if spec_NodeName (vm_Spec vm) \<noteq> []
         then EvGetSmolVMNode (spec_NodeName (vm_Spec vm)) (Inr node) \<in> set es
         else \<exists>nodes. EvListSmolVMNode (Inr nodes) \<in> set es \<and> node \<in> set nodes) \<and>
        acceptable now node k8sNode vm (bound_of vm items))"

lemma scheduleLoop_ensures:
  "ensures (scheduleLoop E vm bound nodes reasons)
     (\<lambda>(n, msg) es. n \<noteq> [] \<longrightarrow>
        (\<exists>node \<in> set nodes. sn_Name node = n \<and>
           (\<exists>now k8sNode. EvNow now \<in> set es \<and> EvGetNode n (Inr k8sNode) \<in> set es \<and>
              acceptable now node k8sNode vm bound)))"
proof (induction nodes arbitrary: reasons)
  case Nil
  show ?case by (simp add: ensures_return)
next
  case (Cons node nodes)
  show ?case
    unfolding scheduleLoop.simps
    by (rule ensures_bind_of [OF nodeRejectReason_ensures], intro ensures_rules)
      (rule ensures_mono [OF Cons.IH], fastforce, fastforce)
qed

lemma boundVMs_ensures:
  "ensures (boundVMs E vm)
     (\<lambda>r es. (\<exists>err. r = Inl err \<and> es = [EvListVM (Inl err)]) \<or>
             (\<exists>items. r = Inr (bound_of vm items) \<and> es = [EvListVM (Inr items)]))"
  unfolding boundVMs_def call_defs
  by (intro ensures_rules) (auto simp: bound_of_def split: sum.splits)

definition schedule_sound :: "SmolVM \<Rightarrow> goerror + string \<times> string \<Rightarrow> event list \<Rightarrow> bool" where
  "schedule_sound vm r es \<longleftrightarrow> (\<forall>n msg. r = Inr (n, msg) \<and> n \<noteq> [] \<longrightarrow> chosen vm n es)"

lemma schedule_sound_simps [simp]:
  "schedule_sound vm (Inl err) es" "schedule_sound vm (Inr ([], msg)) es"
  by (simp_all add: schedule_sound_def)

lemma schedule_pinned_ensures:
  assumes "spec_NodeName (vm_Spec vm) \<noteq> []"
  shows "ensures (nodeRejectReason E node vm (bound_of vm items) \<bind>
      (\<lambda>reason. if reason \<noteq> [] then State_Monad.return (Inr ([], f reason))
                else State_Monad.return (Inr (sn_Name node, []))))
      (\<lambda>r es. schedule_sound vm r
        (EvListVM (Inr items) # EvGetSmolVMNode (spec_NodeName (vm_Spec vm)) (Inr node) # es))"
  by (rule ensures_bind_of [OF nodeRejectReason_ensures], intro ensures_rules)
    (use assms in \<open>auto simp: schedule_sound_def chosen_def\<close>)

lemma schedule_unpinned_ensures:
  assumes "spec_NodeName (vm_Spec vm) = []"
  shows "ensures (scheduleLoop E vm (bound_of vm items) nodes [] \<bind> (\<lambda>p. State_Monad.return (Inr p)))
      (\<lambda>r es. schedule_sound vm r (EvListVM (Inr items) # EvListSmolVMNode (Inr nodes) # es))"
  by (rule ensures_bind_of [OF scheduleLoop_ensures], intro ensures_rules)
    (use assms in \<open>fastforce simp: schedule_sound_def chosen_def\<close>)

lemma schedule_ensures: "ensures (schedule E vm) (schedule_sound vm)"
  unfolding schedule_def call_defs [of E]
  by (rule ensures_bind_of [OF boundVMs_ensures], intro ensures_rules)
    (auto intro!: ensures_rules schedule_pinned_ensures schedule_unpinned_ensures)

section \<open>The scheduler only reads\<close>

definition schedule_event :: "event \<Rightarrow> bool" where
  "schedule_event e \<longleftrightarrow>
     (case e of EvNow _ \<Rightarrow> True | EvGetSmolVMNode _ _ \<Rightarrow> True | EvGetNode _ _ \<Rightarrow> True
      | EvListVM _ \<Rightarrow> True | EvListSmolVMNode _ \<Rightarrow> True | _ \<Rightarrow> False)"

lemma nodeRejectReason_reads:
  "ensures (nodeRejectReason E node vm bound) (\<lambda>_ es. \<forall>e \<in> set es. schedule_event e)"
  unfolding nodeRejectReason_def call_defs
  by (intro ensures_rules) (auto simp: schedule_event_def)

lemma scheduleLoop_reads:
  "ensures (scheduleLoop E vm bound nodes reasons) (\<lambda>_ es. \<forall>e \<in> set es. schedule_event e)"
proof (induction nodes arbitrary: reasons)
  case (Cons node nodes)
  show ?case
    unfolding scheduleLoop.simps
    by (rule ensures_bind_of [OF nodeRejectReason_reads], intro ensures_rules)
      (rule ensures_mono [OF Cons.IH], auto)
qed (simp add: ensures_return)

lemma schedule_reads: "ensures (schedule E vm) (\<lambda>_ es. \<forall>e \<in> set es. schedule_event e)"
  unfolding schedule_def boundVMs_def call_defs [of E]
  by (auto intro!: ensures_rules ensures_bind_of [OF nodeRejectReason_reads]
      ensures_bind_of [OF scheduleLoop_reads] simp: schedule_event_def split: sum.splits)

lemma chosen_mono:
  assumes "chosen vm n es" and "set es \<subseteq> set es'"
  shows "chosen vm n es'"
  using assms(1) subsetD [OF assms(2)] unfolding chosen_def by metis

section \<open>First fit\<close>

text \<open>
  \<open>quiet_from E h\<close>: from the history \<open>h\<close> on, the answers to the scheduler's reads do not change while it
  only reads.  In such an environment \<open>schedule\<close> is a search for the first acceptable node of the list.
\<close>

definition quiet_from :: "env \<Rightarrow> event list \<Rightarrow> bool" where
  "quiet_from E h \<longleftrightarrow>
     (\<forall>es. (\<forall>e \<in> set es. schedule_event e) \<longrightarrow>
        env_Now E (h @ es) = env_Now E h \<and> env_GetNode E (h @ es) = env_GetNode E h \<and>
        env_GetSmolVMNode E (h @ es) = env_GetSmolVMNode E h \<and>
        env_ListVM E (h @ es) = env_ListVM E h \<and> env_ListSmolVMNode E (h @ es) = env_ListSmolVMNode E h)"

lemma quiet_fromD:
  assumes "quiet_from E h" and "\<forall>e \<in> set es. schedule_event e"
  shows "env_Now E (h @ es) = env_Now E h" "env_GetNode E (h @ es) = env_GetNode E h"
    "env_GetSmolVMNode E (h @ es) = env_GetSmolVMNode E h" "env_ListVM E (h @ es) = env_ListVM E h"
    "env_ListSmolVMNode E (h @ es) = env_ListSmolVMNode E h"
  using assms unfolding quiet_from_def by blast+

definition node_ok :: "env \<Rightarrow> event list \<Rightarrow> SmolVM \<Rightarrow> SmolVM list \<Rightarrow> SmolVMNode \<Rightarrow> bool" where
  "node_ok E h vm bound node \<longleftrightarrow>
     (\<exists>k8sNode. env_GetNode E h (sn_Name node) = Inr k8sNode \<and>
        acceptable (env_Now E h) node k8sNode vm bound)"

lemma nodeRejectReason_quiet:
  assumes "quiet_from E h" and "\<forall>e \<in> set es. schedule_event e"
  shows "fst (run_state (nodeRejectReason E node vm bound) (h @ es)) = [] \<longleftrightarrow> node_ok E h vm bound node"
proof -
  have now: "env_Now E (h @ es) = env_Now E h" by (rule quiet_fromD [OF assms])
  have get: "env_GetNode E (h @ es @ [EvNow (env_Now E h)]) = env_GetNode E h"
    by (rule quiet_fromD [OF assms(1)]) (use assms(2) in \<open>auto simp: schedule_event_def\<close>)
  show ?thesis
    by (cases "env_GetNode E h (sn_Name node)")
      (auto simp: nodeRejectReason_def call_defs now get node_ok_def acceptable_def Let_def
        hostPortConflictReason_Nil)
qed

definition name_of :: "SmolVMNode option \<Rightarrow> string" where
  "name_of n = (case n of None \<Rightarrow> [] | Some node \<Rightarrow> sn_Name node)"

lemma scheduleLoop_quiet:
  assumes "quiet_from E h" and "\<forall>e \<in> set es. schedule_event e"
  shows "fst (fst (run_state (scheduleLoop E vm bound nodes reasons) (h @ es))) =
         name_of (find (node_ok E h vm bound) nodes)"
  using assms(2)
proof (induction nodes arbitrary: reasons es)
  case (Cons node nodes)
  obtain reason es' where run: "run_state (nodeRejectReason E node vm bound) (h @ es) = (reason, (h @ es) @ es')"
    and ev: "\<forall>e \<in> set es'. schedule_event e"
    using ensures_runs [OF nodeRejectReason_reads] by metis
  have "reason = [] \<longleftrightarrow> node_ok E h vm bound node"
    using nodeRejectReason_quiet [OF assms(1) Cons.prems, of node vm bound] run by simp
  moreover have "fst (fst (run_state (scheduleLoop E vm bound nodes reasons) (h @ es @ es'))) =
      name_of (find (node_ok E h vm bound) nodes)" for reasons
    using Cons.IH [of "es @ es'" reasons] Cons.prems ev by auto
  ultimately show ?case using run by (auto simp: name_of_def)
qed (simp add: name_of_def)

lemma boundVMs_run:
  "env_ListVM E h = Inr items \<Longrightarrow>
   run_state (boundVMs E vm) h = (Inr (bound_of vm items), h @ [EvListVM (Inr items)])"
  by (simp add: boundVMs_def call_defs bound_of_def)

lemma schedule_quiet_unpinned:
  assumes "quiet_from E h" and "spec_NodeName (vm_Spec vm) = []"
    and "env_ListVM E h = Inr items" and "env_ListSmolVMNode E h = Inr nodes"
  shows "\<exists>msg. fst (run_state (schedule E vm) h) =
               Inr (name_of (find (node_ok E h vm (bound_of vm items)) nodes), msg)"
proof -
  have "env_ListSmolVMNode E (h @ [EvListVM (Inr items)]) = Inr nodes"
    using quiet_fromD(5) [OF assms(1), of "[EvListVM (Inr items)]"] assms(4)
    by (simp add: schedule_event_def)
  then show ?thesis
    using scheduleLoop_quiet [OF assms(1), of "[EvListVM (Inr items), EvListSmolVMNode (Inr nodes)]"
      vm "bound_of vm items" nodes "[]"] assms
    by (auto simp: schedule_def boundVMs_run call_defs schedule_event_def split: prod.splits)
qed

lemma schedule_quiet_pinned:
  assumes "quiet_from E h" and "spec_NodeName (vm_Spec vm) \<noteq> []"
    and "env_ListVM E h = Inr items" and "env_GetSmolVMNode E h (spec_NodeName (vm_Spec vm)) = Inr node"
  shows "\<exists>msg. fst (run_state (schedule E vm) h) =
               Inr (if node_ok E h vm (bound_of vm items) node then sn_Name node else [], msg)"
proof -
  let ?es = "[EvListVM (Inr items), EvGetSmolVMNode (spec_NodeName (vm_Spec vm)) (Inr node)]"
  have "env_GetSmolVMNode E (h @ [EvListVM (Inr items)]) (spec_NodeName (vm_Spec vm)) = Inr node"
    using quiet_fromD(3) [OF assms(1), of "[EvListVM (Inr items)]"] assms(4)
    by (simp add: schedule_event_def)
  moreover obtain reason h' where "run_state (nodeRejectReason E node vm (bound_of vm items)) (h @ ?es) = (reason, h')"
    by (cases "run_state (nodeRejectReason E node vm (bound_of vm items)) (h @ ?es)")
  moreover have "fst (run_state (nodeRejectReason E node vm (bound_of vm items)) (h @ ?es)) = [] \<longleftrightarrow>
      node_ok E h vm (bound_of vm items) node"
    by (rule nodeRejectReason_quiet [OF assms(1)]) (simp add: schedule_event_def)
  ultimately show ?thesis
    using assms by (auto simp: schedule_def boundVMs_run call_defs Let_def)
qed

section \<open>Selectors and watch requests\<close>

lemma matchesSelector_iff:
  "matchesSelector labels sel \<longleftrightarrow> (\<forall>(key, val) \<in> set sel. map_get labels key = val)"
  by (induction labels sel rule: matchesSelector.induct) auto

lemma requestsForNodeChange_ensures:
  "ensures (requestsForNodeChange E nodeName)
     (\<lambda>reqs es. \<exists>r. es = [EvListVM r] \<and>
        (case r of Inl err \<Rightarrow> reqs = []
         | Inr items \<Rightarrow> \<forall>n. n \<in> set reqs \<longleftrightarrow>
             (\<exists>vm \<in> set items. n = \<lparr>nn_Namespace = vm_Namespace vm, nn_Name = vm_Name vm\<rparr> \<and>
                (vm_NodeName vm = nodeName \<or>
                 vm_NodeName vm = [] \<and> spec_NodeName (vm_Spec vm) \<in> {[], nodeName}))))"
  unfolding requestsForNodeChange_def call_defs
  by (intro ensures_rules) (auto split: sum.splits)

end
