(* ===== verification/Go_Net.thy ===== *)
theory Go_Net
  imports Go_Lib
begin

text \<open>
  \<open>net.ParseCIDR\<close> of the Go standard library, as \<open>validateSpec\<close> uses it: only the error is looked
  at, so the model decides whether the text is accepted.  The functions keep the names and the order
  of checks of the packages \<open>net\<close> and \<open>net/netip\<close>.
\<close>

section \<open>IPv4 and IPv6 addresses\<close>

text \<open>
  \<open>parseIPv4Fields\<close>: the arguments are the previous byte, the value and the number of digits of the
  current octet, and the number of octets read before it.
\<close>

fun parseIPv4Fields :: "char option \<Rightarrow> nat \<Rightarrow> nat \<Rightarrow> nat \<Rightarrow> string \<Rightarrow> bool" where
  "parseIPv4Fields prev val digLen pos [] \<longleftrightarrow> \<not> pos < 3"
| "parseIPv4Fields prev val digLen pos (c # cs) \<longleftrightarrow>
     (if is_digit c then
        \<not> (digLen = 1 \<and> val = 0) \<and> val * 10 + digit_val c \<le> 255 \<and>
        parseIPv4Fields (Some c) (val * 10 + digit_val c) (Suc digLen) pos cs
      else if c = CHR ''.'' then
        \<not> (prev = None \<or> cs = [] \<or> prev = Some (CHR ''.'')) \<and> pos \<noteq> 3 \<and>
        parseIPv4Fields (Some c) 0 0 (Suc pos) cs
      else False)"

definition parseIPv4 :: "string \<Rightarrow> bool" where
  "parseIPv4 s \<longleftrightarrow> parseIPv4Fields None 0 0 0 s"

definition is_hex :: "char \<Rightarrow> bool" where
  "is_hex c \<longleftrightarrow> is_digit c \<or> 97 \<le> (of_char c :: nat) \<and> (of_char c :: nat) \<le> 102 \<or>
                65 \<le> (of_char c :: nat) \<and> (of_char c :: nat) \<le> 70"

text \<open>
  The loop of \<open>parseIPv6\<close>: \<open>i\<close> bytes of the address are filled, \<open>ellipsis\<close> is the place of \<open>::\<close> if it
  has been seen, \<open>s\<close> is the rest of the text.
\<close>

definition parseIPv6End :: "nat \<Rightarrow> nat option \<Rightarrow> string \<Rightarrow> bool" where
  "parseIPv6End i ellipsis s \<longleftrightarrow>
     s = [] \<and> (if i < 16 then ellipsis \<noteq> None else ellipsis = None)"

function parseIPv6Loop :: "nat \<Rightarrow> nat option \<Rightarrow> string \<Rightarrow> bool" where
  "parseIPv6Loop i ellipsis s \<longleftrightarrow>
     (if \<not> i < 16 then parseIPv6End i ellipsis s
      else
        let off = length (takeWhile is_hex s); rest = drop off s in
        if off > 4 \<or> off = 0 then False
        else if rest \<noteq> [] \<and> hd rest = CHR ''.'' then
          \<not> (ellipsis = None \<and> i \<noteq> 12) \<and> \<not> i + 4 > 16 \<and> parseIPv4 s \<and>
          parseIPv6End (i + 4) ellipsis []
        else if rest = [] then parseIPv6End (i + 2) ellipsis []
        else if hd rest \<noteq> CHR '':'' \<or> length rest = 1 then False
        else
          let s' = tl rest in
          if hd s' = CHR '':'' then
            ellipsis = None \<and>
            (if tl s' = [] then parseIPv6End (i + 2) (Some (i + 2)) []
             else parseIPv6Loop (i + 2) (Some (i + 2)) (tl s'))
          else parseIPv6Loop (i + 2) ellipsis s')"
  by pat_completeness auto
termination
  by (relation "measure (\<lambda>(i, ellipsis, s). 16 - i)") auto

declare parseIPv6Loop.simps [simp del]

text \<open>\<open>parseIPv6\<close>: \<open>None\<close> is an error, \<open>Some zone\<close> a valid address with that zone.\<close>

definition parseIPv6 :: "string \<Rightarrow> string option" where
  "parseIPv6 input =
     (let s = takeWhile (\<lambda>c. c \<noteq> CHR ''%'') input;
          hasZone = CHR ''%'' \<in> set input;
          zone = tl (dropWhile (\<lambda>c. c \<noteq> CHR ''%'') input)
      in if hasZone \<and> zone = [] then None
         else let z = (if hasZone then zone else []) in
           if length s \<ge> 2 \<and> s ! 0 = CHR '':'' \<and> s ! 1 = CHR '':'' then
             (if drop 2 s = [] then Some z
              else if parseIPv6Loop 0 (Some 0) (drop 2 s) then Some z else None)
           else if parseIPv6Loop 0 None s then Some z else None)"

text \<open>\<open>netip.ParseAddr\<close>: the bit length and the zone of the address, \<open>None\<close> for an error.\<close>

definition ParseAddr :: "string \<Rightarrow> (nat \<times> string) option" where
  "ParseAddr s =
     (case dropWhile (\<lambda>c. c \<noteq> CHR ''.'' \<and> c \<noteq> CHR '':'' \<and> c \<noteq> CHR ''%'') s of
        [] \<Rightarrow> None
      | c # _ \<Rightarrow>
          if c = CHR ''.'' then (if parseIPv4 s then Some (32, []) else None)
          else if c = CHR '':'' then map_option (\<lambda>z. (128, z)) (parseIPv6 s)
          else None)"

section \<open>CIDR notation\<close>

text \<open>\<open>dtoi\<close>: the value, the number of bytes read and whether it is a number below \<open>big\<close>.\<close>

fun dtoi_loop :: "nat \<Rightarrow> nat \<Rightarrow> string \<Rightarrow> nat \<times> nat \<times> bool" where
  "dtoi_loop n i [] = (if i = 0 then (0, 0, False) else (n, i, True))"
| "dtoi_loop n i (c # cs) =
     (if is_digit c then
        (if n * 10 + digit_val c \<ge> 0xFFFFFF then (0xFFFFFF, i, False)
         else dtoi_loop (n * 10 + digit_val c) (Suc i) cs)
      else if i = 0 then (0, 0, False) else (n, i, True))"

definition dtoi :: "string \<Rightarrow> nat \<times> nat \<times> bool" where
  "dtoi s = dtoi_loop 0 0 s"

definition ParseCIDR :: "string \<Rightarrow> goerror option" where
  "ParseCIDR s =
     (let err = Some (ErrorString (''invalid CIDR address: '' @ s));
          addr = takeWhile (\<lambda>c. c \<noteq> CHR ''/'') s;
          mask = tl (dropWhile (\<lambda>c. c \<noteq> CHR ''/'') s)
      in if CHR ''/'' \<notin> set s then err
         else case ParseAddr addr of
           None \<Rightarrow> err
         | Some (bits, zone) \<Rightarrow>
             if zone \<noteq> [] then err
             else let (n, i, ok) = dtoi mask in
               if \<not> ok \<or> i \<noteq> length mask \<or> n > bits then err else None)"

section \<open>The canonical notation is accepted\<close>

lemma dtoi_loop_digits:
  assumes "list_all is_digit ds" and "ds \<noteq> [] \<or> i \<noteq> 0"
    and "foldl (\<lambda>a c. 10 * a + digit_val c) n ds < 0xFFFFFF"
  shows "dtoi_loop n i ds = (foldl (\<lambda>a c. 10 * a + digit_val c) n ds, i + length ds, True)"
  using assms
proof (induction ds arbitrary: n i)
  case (Cons d ds)
  have "n * 10 + digit_val d < 0xFFFFFF"
    using foldl_dec_mono [of "10 * n + digit_val d" ds] Cons.prems(3) by simp
  with Cons.prems Cons.IH [of "Suc i" "n * 10 + digit_val d"] show ?case
    by (simp add: mult.commute)
qed auto

lemma dtoi_nat_dec: "n < 0xFFFFFF \<Longrightarrow> dtoi (nat_dec n) = (n, length (nat_dec n), True)"
  using dtoi_loop_digits [OF nat_dec_digits, of n 0 0] dec_val_nat_dec [of n]
  by (simp add: dtoi_def dec_val_def)

text \<open>An octet in decimal notation without superfluous zeros is read as one octet.\<close>

lemma nat_dec_below_256:
  assumes "a < 256"
  shows "nat_dec a =
    (if a < 10 then [digit a]
     else if a < 100 then [digit (a div 10), digit (a mod 10)]
     else [digit (a div 100), digit (a div 10 mod 10), digit (a mod 10)])"
proof -
  have "a div 10 div 10 = a div 100" by (simp add: div_mult2_eq [symmetric])
  moreover have "a div 100 < 10" using assms by simp
  ultimately show ?thesis
    by (auto simp: nat_dec.simps [of a] nat_dec.simps [of "a div 10"] nat_dec.simps [of "a div 100"])
qed

lemma parseIPv4Fields_octet:
  assumes "a < 256"
  shows "parseIPv4Fields prev 0 0 pos (nat_dec a @ s) \<longleftrightarrow>
         parseIPv4Fields (Some (last (nat_dec a))) a (length (nat_dec a)) pos s"
proof -
  have "a div 100 = a div 10 div 10" by (simp add: div_mult2_eq [symmetric])
  then have lead: "a div 100 * 10 + a div 10 mod 10 = a div 10" by simp
  have tens: "a div 10 * 10 + a mod 10 = a" by simp
  have nz: "a div 100 \<noteq> 0" if "\<not> a < 100" using that by simp
  have nz10: "a div 10 \<noteq> 0" if "\<not> a < 10" using that by simp
  have small: "a div 100 < 10" "a div 100 \<le> 255" "a div 10 \<le> 255" using assms by auto
  consider "a < 10" | "\<not> a < 10" "a < 100" | "\<not> a < 100" by linarith
  then show ?thesis
  proof cases
    case 1
    then show ?thesis using assms by (simp add: nat_dec_below_256)
  next
    case 2
    then show ?thesis using assms tens nz10 small by (simp add: nat_dec_below_256)
  next
    case 3
    then show ?thesis using assms lead tens nz nz10 small
      by (simp add: nat_dec_below_256)
  qed
qed

definition dotted_quad :: "nat \<Rightarrow> nat \<Rightarrow> nat \<Rightarrow> nat \<Rightarrow> string" where
  "dotted_quad a b c d = nat_dec a @ ''.'' @ nat_dec b @ ''.'' @ nat_dec c @ ''.'' @ nat_dec d"

lemma not_is_digit_dot [simp]: "\<not> is_digit CHR ''.''" and not_is_digit_slash [simp]: "\<not> is_digit CHR ''/''"
  by (simp_all add: is_digit_def)

lemma last_nat_dec_not_dot [simp]: "last (nat_dec a) \<noteq> CHR ''.''"
  using nat_dec_digits [of a] by (metis last_in_set list_all_iff nat_dec_not_Nil not_is_digit_dot)

lemma parseIPv4_dotted_quad:
  assumes "a < 256" "b < 256" "c < 256" "d < 256"
  shows "parseIPv4 (dotted_quad a b c d)"
  using assms parseIPv4Fields_octet [OF assms(4), of "Some CHR ''.''" 3 "[]"]
  by (simp add: parseIPv4_def dotted_quad_def parseIPv4Fields_octet numeral_3_eq_3)

lemma dotted_quad_bytes: "x \<in> set (dotted_quad a b c d) \<Longrightarrow> is_digit x \<or> x = CHR ''.''"
  using nat_dec_digits [of a] nat_dec_digits [of b] nat_dec_digits [of c] nat_dec_digits [of d]
  by (auto simp: dotted_quad_def list_all_iff)

lemma ParseAddr_dotted_quad:
  assumes "a < 256" "b < 256" "c < 256" "d < 256"
  shows "ParseAddr (dotted_quad a b c d) = Some (32, [])"
proof -
  have "dropWhile (\<lambda>x. x \<noteq> CHR ''.'' \<and> x \<noteq> CHR '':'' \<and> x \<noteq> CHR ''%'') (dotted_quad a b c d) =
        ''.'' @ nat_dec b @ ''.'' @ nat_dec c @ ''.'' @ nat_dec d"
    unfolding dotted_quad_def
    using nat_dec_digits [of a]
    by (subst dropWhile_append2) (auto simp: list_all_iff is_digit_def)
  with parseIPv4_dotted_quad [OF assms] show ?thesis
    by (simp add: ParseAddr_def)
qed

lemma dtoi_loop_sound:
  "dtoi_loop n i s = (m, i + length s, True) \<Longrightarrow> m = foldl (\<lambda>a c. 10 * a + digit_val c) n s"
proof (induction s arbitrary: n i)
  case (Cons c cs)
  then show ?case
    using Cons.IH [of "n * 10 + digit_val c" "Suc i"]
    by (auto simp: mult.commute split: if_splits)
qed (auto split: if_splits)

lemma dtoi_nat_dec_iff:
  assumes "m < 0xFFFFFF"
  shows "(\<exists>k. dtoi (nat_dec n) = (k, length (nat_dec n), True) \<and> k \<le> m) \<longleftrightarrow> n \<le> m"
proof
  assume "\<exists>k. dtoi (nat_dec n) = (k, length (nat_dec n), True) \<and> k \<le> m"
  then obtain k where "dtoi_loop 0 0 (nat_dec n) = (k, 0 + length (nat_dec n), True)" "k \<le> m"
    by (auto simp: dtoi_def)
  then show "n \<le> m"
    using dtoi_loop_sound dec_val_nat_dec [of n] unfolding dec_val_def by metis
next
  assume "n \<le> m"
  with assms show "\<exists>k. dtoi (nat_dec n) = (k, length (nat_dec n), True) \<and> k \<le> m"
    by (simp add: dtoi_nat_dec)
qed

lemma ParseCIDR_dotted_quad:
  assumes "a < 256" "b < 256" "c < 256" "d < 256"
  shows "ParseCIDR (dotted_quad a b c d @ ''/'' @ nat_dec n) = None \<longleftrightarrow> n \<le> 32"
proof -
  have "CHR ''/'' \<notin> set (dotted_quad a b c d)"
    using dotted_quad_bytes [of "CHR ''/''"] by auto
  then have "takeWhile (\<lambda>x. x \<noteq> CHR ''/'') (dotted_quad a b c d @ ''/'' @ nat_dec n) = dotted_quad a b c d"
    and "dropWhile (\<lambda>x. x \<noteq> CHR ''/'') (dotted_quad a b c d @ ''/'' @ nat_dec n) = ''/'' @ nat_dec n"
    by (auto simp: takeWhile_append dropWhile_append)
  then have "ParseCIDR (dotted_quad a b c d @ ''/'' @ nat_dec n) = None \<longleftrightarrow>
    (\<exists>k. dtoi (nat_dec n) = (k, length (nat_dec n), True) \<and> k \<le> 32)"
    using ParseAddr_dotted_quad [OF assms]
    by (auto simp: ParseCIDR_def Let_def split: prod.splits if_splits)
  then show ?thesis using dtoi_nat_dec_iff [of 32 n] by simp
qed

end
