(* ===== verification/Go_Sha256.thy ===== *)
theory Go_Sha256
  imports Go_Lib
begin

text \<open>
  SHA-256 of the package \<open>crypto/sha256\<close> (FIPS 180-4) and \<open>hex.EncodeToString\<close>: what
  \<open>stableMachineName\<close> uses of the standard library.
\<close>

unbundle bit_operations_syntax

section \<open>The compression function\<close>

text \<open>The round constants and the initial hash value, in decimal.\<close>

definition sha256_K :: "32 word list" where
  "sha256_K =
    [1116352408, 1899447441, 3049323471, 3921009573, 961987163, 1508970993, 2453635748,
     2870763221, 3624381080, 310598401, 607225278, 1426881987, 1925078388, 2162078206,
     2614888103, 3248222580, 3835390401, 4022224774, 264347078, 604807628, 770255983,
     1249150122, 1555081692, 1996064986, 2554220882, 2821834349, 2952996808, 3210313671,
     3336571891, 3584528711, 113926993, 338241895, 666307205, 773529912, 1294757372, 1396182291,
     1695183700, 1986661051, 2177026350, 2456956037, 2730485921, 2820302411, 3259730800,
     3345764771, 3516065817, 3600352804, 4094571909, 275423344, 430227734, 506948616, 659060556,
     883997877, 958139571, 1322822218, 1537002063, 1747873779, 1955562222, 2024104815,
     2227730452, 2361852424, 2428436474, 2756734187, 3204031479, 3329325298]"

definition sha256_H0 :: "32 word list" where
  "sha256_H0 =
    [1779033703, 3144134277, 1013904242, 2773480762, 1359893119, 2600822924, 528734635,
     1541459225]"

definition rotr :: "nat \<Rightarrow> 32 word \<Rightarrow> 32 word" where
  "rotr n x = drop_bit n x OR push_bit (32 - n) x"

text \<open>The message schedule, newest word first.\<close>

definition next_word :: "32 word list \<Rightarrow> 32 word" where
  "next_word ws =
     (let a = ws ! 1; b = ws ! 14
      in (rotr 17 a XOR rotr 19 a XOR drop_bit 10 a) + ws ! 6 +
         (rotr 7 b XOR rotr 18 b XOR drop_bit 3 b) + ws ! 15)"

definition schedule_words :: "32 word list \<Rightarrow> 32 word list" where
  "schedule_words block = rev (((\<lambda>ws. next_word ws # ws) ^^ 48) (rev block))"

fun sha256_round :: "32 word list \<Rightarrow> 32 word \<times> 32 word \<Rightarrow> 32 word list" where
  "sha256_round [a, b, c, d, e, f, g, h] (k, w) =
     (let t1 = h + (rotr 6 e XOR rotr 11 e XOR rotr 25 e) + ((e AND f) XOR (NOT e AND g)) + k + w;
          t2 = (rotr 2 a XOR rotr 13 a XOR rotr 22 a) + ((a AND b) XOR (a AND c) XOR (b AND c))
      in [t1 + t2, a, b, c, d + t1, e, f, g])"
| "sha256_round hs _ = hs"

definition sha256_block :: "32 word list \<Rightarrow> 32 word list \<Rightarrow> 32 word list" where
  "sha256_block hs block =
     map2 (+) hs (foldl sha256_round hs (zip sha256_K (schedule_words block)))"

section \<open>Padding and digest\<close>

text \<open>Bytes are integers from 0 to 255; numbers are written big-endian.\<close>

definition word_of_bytes :: "int list \<Rightarrow> 32 word" where
  "word_of_bytes bs = word_of_int (foldl (\<lambda>a b. a * 256 + b) 0 bs)"

fun be_bytes :: "nat \<Rightarrow> int \<Rightarrow> int list" where
  "be_bytes 0 n = []"
| "be_bytes (Suc k) n = be_bytes k (n div 256) @ [n mod 256]"

definition sha256_pad :: "int list \<Rightarrow> int list" where
  "sha256_pad msg =
     msg @ 128 # replicate ((119 - length msg mod 64) mod 64) 0 @ be_bytes 8 (8 * int (length msg))"

fun chunks :: "nat \<Rightarrow> nat \<Rightarrow> 'a list \<Rightarrow> 'a list list" where
  "chunks 0 k xs = []"
| "chunks (Suc n) k xs = take k xs # chunks n k (drop k xs)"

definition sha256_words :: "int list \<Rightarrow> 32 word list" where
  "sha256_words msg =
     (let p = sha256_pad msg; n = length p div 64
      in foldl (\<lambda>hs block. sha256_block hs (map word_of_bytes (chunks 16 4 block)))
           sha256_H0 (chunks n 64 p))"

definition Sum256 :: "string \<Rightarrow> int list" where
  "Sum256 s = concat (map (\<lambda>w. be_bytes 4 (uint w)) (sha256_words (map of_char s)))"

definition EncodeToString :: "int list \<Rightarrow> string" where
  "EncodeToString bs = concat (map (\<lambda>b. hex_byte (nat b)) bs)"

section \<open>Facts\<close>

lemma length_be_bytes [simp]: "length (be_bytes k n) = k"
  by (induction k arbitrary: n) simp_all

lemma length_sha256_round [simp]: "length hs = 8 \<Longrightarrow> length (sha256_round hs kw) = 8"
  by (induction hs kw rule: sha256_round.induct) (simp_all add: Let_def)

lemma length_foldl_round: "length hs = 8 \<Longrightarrow> length (foldl sha256_round hs ws) = 8"
  by (induction ws arbitrary: hs) simp_all

lemma length_sha256_block [simp]: "length hs = 8 \<Longrightarrow> length (sha256_block hs b) = 8"
  by (simp add: sha256_block_def length_foldl_round)

lemma length_foldl_block:
  "length hs = 8 \<Longrightarrow> length (foldl (\<lambda>hs block. sha256_block hs (f block)) hs bs) = 8"
  by (induction bs arbitrary: hs) simp_all

lemma length_sha256_words [simp]: "length (sha256_words msg) = 8"
  unfolding sha256_words_def Let_def by (rule length_foldl_block) (simp add: sha256_H0_def)

lemma length_concat_const: "(\<And>x. length (f x) = k) \<Longrightarrow> length (concat (map f xs)) = length xs * k"
  by (induction xs) simp_all

lemma length_Sum256 [simp]: "length (Sum256 s) = 32"
  unfolding Sum256_def by (subst length_concat_const [where k = 4]) simp_all

lemma length_EncodeToString [simp]: "length (EncodeToString bs) = 2 * length bs"
  unfolding EncodeToString_def by (subst length_concat_const [where k = 2]) (simp_all add: hex_byte_def)

lemma EncodeToString_hex: "c \<in> set (EncodeToString bs) \<Longrightarrow> c \<in> set ''0123456789abcdef''"
proof -
  assume "c \<in> set (EncodeToString bs)"
  then obtain x :: nat where "c = hex_digit (x div 16 mod 16) \<or> c = hex_digit (x mod 16)"
    by (auto simp: EncodeToString_def hex_byte_def)
  then obtain d where "d < 16" "c = hex_digit d"
    using mod_less_divisor [of 16] by (metis zero_less_numeral)
  moreover have "\<forall>d < 16. hex_digit d \<in> set ''0123456789abcdef''" by code_simp
  ultimately show ?thesis by blast
qed

end
