(* ===== verification/Validation.thy ===== *)
theory Validation
  imports Api_Types Smolvm_Client Go_Net Go_Sha256
begin

text \<open>
  The pure functions of \<open>src/internal/controller/smolvm_controller.go\<close> that compare a spec with itself
  (\<open>validateSpec\<close>) or with the machine the runtime reports (\<open>validateImmutableRuntimeFields\<close>,
  \<open>validateStorageDoesNotShrink\<close>, \<open>needsStorageExpansion\<close>), that build the requests to the runtime, and
  that derive phase, readiness and machine name.  An error result is an \<open>option\<close>: \<open>None\<close> is Go's nil.
\<close>

section \<open>The spec\<close>

fun validatePorts :: "int32 list \<Rightarrow> SmolVMPort list \<Rightarrow> goerror option" where
  "validatePorts seen [] = None"
| "validatePorts seen (p # ps) =
     (if HostPort p \<in> set seen
      then Some (ErrorString (''duplicate hostPort '' @ int_dec (sint (HostPort p))))
      else validatePorts (HostPort p # seen) ps)"

fun validateCIDRs :: "string list \<Rightarrow> goerror option" where
  "validateCIDRs [] = None"
| "validateCIDRs (c # cs) =
     (case ParseCIDR c of
        Some err \<Rightarrow> Some (WrapError (''invalid allowedCIDR '' @ Quote c) err)
      | None \<Rightarrow> validateCIDRs cs)"

definition validateSpec :: "SmolVM \<Rightarrow> goerror option" where
  "validateSpec vm =
     (let sp = vm_Spec vm in
      if vm_NodeName vm \<noteq> [] \<and> spec_NodeName sp \<noteq> [] \<and> spec_NodeName sp \<noteq> vm_NodeName vm
      then Some (ErrorString
        (''spec.nodeName is immutable after binding; machine is owned by node '' @ Quote (vm_NodeName vm)))
      else if spec_Image sp \<noteq> [] \<and> spec_From sp \<noteq> []
      then Some (ErrorString ''spec.image and spec.from are mutually exclusive'')
      else if spec_Image sp = [] \<and> spec_From sp = []
      then Some (ErrorString ''one of spec.image or spec.from is required'')
      else case validatePorts [] (vm_Ports vm) of
        Some err \<Rightarrow> Some err
      | None \<Rightarrow> validateCIDRs (net_AllowedCIDRs (spec_Network sp)))"

section \<open>Requests to the runtime\<close>

definition positive :: "int64 \<Rightarrow> int64 option" where
  "positive x = (if 0 < sint x then Some x else None)"

definition buildCreateRequest :: "SmolVM \<Rightarrow> string \<Rightarrow> CreateMachineRequest" where
  "buildCreateRequest vm machineName =
     \<lparr>create_Name = machineName,
      create_CPUs = vm_CPUs vm,
      create_MemoryMiB = vm_MemoryMiB vm,
      create_Ports = map (\<lambda>p. \<lparr>port_Host = HostPort p, port_Guest = GuestPort p\<rparr>) (vm_Ports vm),
      create_Network = net_Enabled (spec_Network (vm_Spec vm)),
      create_StorageGB = positive (vm_StorageGiB vm),
      create_OverlayGB = positive (vm_OverlayGiB vm),
      create_AllowedCIDRs = net_AllowedCIDRs (spec_Network (vm_Spec vm)),
      create_Image = spec_Image (vm_Spec vm),
      create_From = spec_From (vm_Spec vm)\<rparr>"

definition buildResizeRequest :: "SmolVM \<Rightarrow> ResizeRequest" where
  "buildResizeRequest vm =
     \<lparr>resize_StorageGB = positive (vm_StorageGiB vm), resize_OverlayGB = positive (vm_OverlayGiB vm)\<rparr>"

section \<open>The spec against the machine\<close>

definition samePorts :: "SmolVMPort list \<Rightarrow> PortSpec list \<Rightarrow> bool" where
  "samePorts sp runtime =
     (if length sp \<noteq> length runtime then False
      else
        let specPorts = sort_Strings
              (map (\<lambda>p. int_dec (sint (HostPort p)) @ '':'' @ int_dec (sint (GuestPort p))) sp);
            runtimePorts = sort_Strings
              (map (\<lambda>p. int_dec (sint (port_Host p)) @ '':'' @ int_dec (sint (port_Guest p))) runtime)
        in \<forall>i < length specPorts. specPorts ! i = runtimePorts ! i)"

definition validateImmutableRuntimeFields :: "SmolVM \<Rightarrow> MachineInfo \<Rightarrow> goerror option" where
  "validateImmutableRuntimeFields vm machine =
     (if 0 < sint (vm_CPUs vm) \<and> 0 < sint (mi_CPUs machine) \<and> vm_CPUs vm \<noteq> mi_CPUs machine
      then Some (ErrorString (''cpus is immutable after creation; runtime has '' @
        int_dec (sint (mi_CPUs machine)) @ '' and spec requests '' @ int_dec (sint (vm_CPUs vm))))
      else if 0 < sint (vm_MemoryMiB vm) \<and> 0 < sint (mi_MemoryMiB machine) \<and>
              vm_MemoryMiB vm \<noteq> mi_MemoryMiB machine
      then Some (ErrorString (''memoryMiB is immutable after creation; runtime has '' @
        int_dec (sint (mi_MemoryMiB machine)) @ '' and spec requests '' @
        int_dec (sint (vm_MemoryMiB vm))))
      else if \<not> samePorts (vm_Ports vm) (mi_Ports machine)
      then Some (ErrorString ''network port mappings are immutable after creation'')
      else None)"

definition portsFromRuntime :: "PortSpec list \<Rightarrow> SmolVMPort list" where
  "portsFromRuntime ports =
     (if ports = [] then [] else map (\<lambda>p. \<lparr>HostPort = port_Host p, GuestPort = port_Guest p\<rparr>) ports)"

text \<open>One disk: a wanted size against the size the runtime reports, if it reports one.\<close>

definition shrinks :: "int64 \<Rightarrow> int64 option \<Rightarrow> bool" where
  "shrinks want have = (0 < sint want \<and> (case have of None \<Rightarrow> False | Some h \<Rightarrow> sint want < sint h))"

definition grows :: "int64 \<Rightarrow> int64 option \<Rightarrow> bool" where
  "grows want have = (0 < sint want \<and> (case have of None \<Rightarrow> False | Some h \<Rightarrow> sint want > sint h))"

definition validateStorageDoesNotShrink :: "SmolVM \<Rightarrow> MachineInfo \<Rightarrow> goerror option" where
  "validateStorageDoesNotShrink vm machine =
     (if shrinks (vm_StorageGiB vm) (mi_StorageGB machine)
      then Some (ErrorString (''storageGiB cannot shrink from '' @
        int_dec (sint (the (mi_StorageGB machine))) @ '' to '' @ int_dec (sint (vm_StorageGiB vm))))
      else if shrinks (vm_OverlayGiB vm) (mi_OverlayGB machine)
      then Some (ErrorString (''overlayGiB cannot shrink from '' @
        int_dec (sint (the (mi_OverlayGB machine))) @ '' to '' @ int_dec (sint (vm_OverlayGiB vm))))
      else None)"

definition needsStorageExpansion :: "SmolVM \<Rightarrow> MachineInfo \<Rightarrow> bool" where
  "needsStorageExpansion vm machine \<longleftrightarrow>
     grows (vm_StorageGiB vm) (mi_StorageGB machine) \<or> grows (vm_OverlayGiB vm) (mi_OverlayGB machine)"

section \<open>Derived values\<close>

definition phaseFromMachine :: "MachineInfo \<Rightarrow> string" where
  "phaseFromMachine machine =
     (if mi_State machine = ''running'' then ''Running''
      else if mi_State machine = ''stopped'' then ''Stopped''
      else if mi_State machine = ''created'' then ''Created''
      else ''Unknown'')"

definition readyFromMachine :: "MachineInfo \<Rightarrow> ConditionStatus" where
  "readyFromMachine machine =
     (if mi_State machine = ''running'' then ConditionTrue else ConditionFalse)"

definition stableMachineName :: "SmolVM \<Rightarrow> string" where
  "stableMachineName vm =
     (let sum = Sum256 (vm_UID vm);
          uid = take 10 (EncodeToString sum)
      in ''k8s-'' @ vm_Namespace vm @ ''-'' @ vm_Name vm @ ''-'' @ uid)"

section \<open>Properties of the validation\<close>

lemma validatePorts_None:
  "validatePorts seen ps = None \<longleftrightarrow>
   distinct (map HostPort ps) \<and> set (map HostPort ps) \<inter> set seen = {}"
  by (induction ps arbitrary: seen) auto

lemma validateCIDRs_None: "validateCIDRs cs = None \<longleftrightarrow> (\<forall>c \<in> set cs. ParseCIDR c = None)"
  by (induction cs) (auto split: option.splits)

text \<open>What an accepted spec satisfies, said without the code's order of checks.\<close>

definition spec_valid :: "SmolVM \<Rightarrow> bool" where
  "spec_valid vm \<longleftrightarrow>
     (vm_NodeName vm = [] \<or> spec_NodeName (vm_Spec vm) \<in> {[], vm_NodeName vm}) \<and>
     (spec_Image (vm_Spec vm) = []) \<noteq> (spec_From (vm_Spec vm) = []) \<and>
     distinct (map HostPort (vm_Ports vm)) \<and>
     (\<forall>c \<in> set (net_AllowedCIDRs (spec_Network (vm_Spec vm))). ParseCIDR c = None)"

lemma validateSpec_None: "validateSpec vm = None \<longleftrightarrow> spec_valid vm"
proof -
  have "validateSpec vm = None \<longleftrightarrow>
    \<not> (vm_NodeName vm \<noteq> [] \<and> spec_NodeName (vm_Spec vm) \<noteq> [] \<and> spec_NodeName (vm_Spec vm) \<noteq> vm_NodeName vm) \<and>
    \<not> (spec_Image (vm_Spec vm) \<noteq> [] \<and> spec_From (vm_Spec vm) \<noteq> []) \<and>
    \<not> (spec_Image (vm_Spec vm) = [] \<and> spec_From (vm_Spec vm) = []) \<and>
    validatePorts [] (vm_Ports vm) = None \<and>
    validateCIDRs (net_AllowedCIDRs (spec_Network (vm_Spec vm))) = None"
    by (cases "validatePorts [] (vm_Ports vm)") (simp_all add: validateSpec_def Let_def)
  then show ?thesis
    by (auto simp: spec_valid_def validatePorts_None validateCIDRs_None simp del: not_None_eq)
qed

text \<open>The text of a port mapping determines it.\<close>

definition port_text :: "int32 \<times> int32 \<Rightarrow> string" where
  "port_text p = int_dec (sint (fst p)) @ '':'' @ int_dec (sint (snd p))"

lemma append_sep_inject:
  assumes "c \<notin> set xs" "c \<notin> set ys" "xs @ c # us = ys @ c # vs"
  shows "xs = ys \<and> us = vs"
  using assms
proof (induction xs arbitrary: ys)
  case Nil
  then show ?case by (cases ys) auto
next
  case (Cons x xs)
  then show ?case by (cases ys) auto
qed

lemma inj_port_text: "inj port_text"
proof (rule injI)
  fix p q :: "int32 \<times> int32"
  assume "port_text p = port_text q"
  then have "int_dec (sint (fst p)) = int_dec (sint (fst q)) \<and>
             int_dec (sint (snd p)) = int_dec (sint (snd q))"
    unfolding port_text_def
    by (intro append_sep_inject [where c = "CHR '':''"]) (simp_all add: colon_not_in_int_dec)
  then show "p = q" by (auto simp: prod_eq_iff intro: signed_word_eqI)
qed

lemma list_eq_by_nth: "length xs = length ys \<Longrightarrow> (\<forall>i < length xs. xs ! i = ys ! i) \<longleftrightarrow> xs = ys"
  by (auto simp: list_eq_iff_nth_eq)

abbreviation spec_pairs :: "SmolVMPort list \<Rightarrow> (int32 \<times> int32) list" where
  "spec_pairs ps \<equiv> map (\<lambda>p. (HostPort p, GuestPort p)) ps"

abbreviation runtime_pairs :: "PortSpec list \<Rightarrow> (int32 \<times> int32) list" where
  "runtime_pairs ps \<equiv> map (\<lambda>p. (port_Host p, port_Guest p)) ps"

lemma samePorts_mset: "samePorts sp rt \<longleftrightarrow> mset (spec_pairs sp) = mset (runtime_pairs rt)"
proof -
  have texts: "map (\<lambda>p. int_dec (sint (HostPort p)) @ '':'' @ int_dec (sint (GuestPort p))) sp =
      map port_text (spec_pairs sp)"
    "map (\<lambda>p. int_dec (sint (port_Host p)) @ '':'' @ int_dec (sint (port_Guest p))) rt =
      map port_text (runtime_pairs rt)"
    by (simp_all add: port_text_def)
  have "samePorts sp rt \<longleftrightarrow> length sp = length rt \<and>
      sort_Strings (map port_text (spec_pairs sp)) = sort_Strings (map port_text (runtime_pairs rt))"
    using list_eq_by_nth [of "sort_Strings (map port_text (spec_pairs sp))"
      "sort_Strings (map port_text (runtime_pairs rt))"]
    unfolding samePorts_def texts Let_def by simp
  also have "\<dots> \<longleftrightarrow> length sp = length rt \<and> mset (spec_pairs sp) = mset (runtime_pairs rt)"
    unfolding sort_Strings_eq_iff mset_map [of port_text]
    by (simp add: inj_image_mset_eq [OF inj_port_text] del: mset_map)
  also have "\<dots> \<longleftrightarrow> mset (spec_pairs sp) = mset (runtime_pairs rt)"
    using mset_eq_length [of "spec_pairs sp" "runtime_pairs rt"] by auto
  finally show ?thesis .
qed

lemma validateStorageDoesNotShrink_None:
  "validateStorageDoesNotShrink vm m = None \<longleftrightarrow>
   \<not> shrinks (vm_StorageGiB vm) (mi_StorageGB m) \<and> \<not> shrinks (vm_OverlayGiB vm) (mi_OverlayGB m)"
  by (auto simp: validateStorageDoesNotShrink_def)

lemma samePorts_created:
  "samePorts (vm_Ports vm) (create_Ports (buildCreateRequest vm name))"
  unfolding samePorts_mset by (simp add: buildCreateRequest_def comp_def)

end
