(* ===== verification/Vm_Status.thy ===== *)
theory Vm_Status
  imports Cluster_Env Conditions Validation
begin

text \<open>
  Status writing: \<open>statusInput\<close> and \<open>updateStatus\<close> of
  \<open>src/internal/controller/smolvm_controller.go\<close>.  \<open>updateStatus\<close> reads the object again, computes the
  new status from it (\<open>nextStatus\<close>) and writes it only when it differs.
\<close>

section \<open>The input\<close>

record statusInput =
  in_Phase :: string
  in_NodeName :: string
  in_MachineName :: string
  in_Machine :: "MachineInfo option"
  in_Scheduled :: ConditionStatus
  in_ScheduledReason :: string
  in_ScheduledMsg :: string
  in_Ready :: ConditionStatus
  in_ReadyReason :: string
  in_ReadyMsg :: string
  in_Recon :: ConditionStatus
  in_ReconReason :: string
  in_ReconMsg :: string
  in_DeletionBlocked :: ConditionStatus
  in_DeletionBlockedReason :: string
  in_DeletionBlockedMsg :: string

text \<open>The zero value: a literal of the source gives some fields, the others are empty.\<close>

definition emptyInput :: statusInput where
  "emptyInput = \<lparr>in_Phase = [], in_NodeName = [], in_MachineName = [], in_Machine = None,
     in_Scheduled = [], in_ScheduledReason = [], in_ScheduledMsg = [],
     in_Ready = [], in_ReadyReason = [], in_ReadyMsg = [],
     in_Recon = [], in_ReconReason = [], in_ReconMsg = [],
     in_DeletionBlocked = [], in_DeletionBlockedReason = [], in_DeletionBlockedMsg = []\<rparr>"

section \<open>The new status\<close>

definition defaultScheduled :: "statusInput \<Rightarrow> statusInput" where
  "defaultScheduled inp =
     (if in_ScheduledReason inp = [] \<and> in_NodeName inp \<noteq> []
      then inp\<lparr>in_Scheduled := ConditionTrue, in_ScheduledReason := ''Bound'',
               in_ScheduledMsg := ''assigned to node '' @ in_NodeName inp\<rparr>
      else inp)"

text \<open>
  The calls of \<open>setCondition\<close> in their order; \<open>t 0\<close> to \<open>t 5\<close> are the clock readings of the six calls.
\<close>

definition nextConditions ::
  "(nat \<Rightarrow> time) \<Rightarrow> int64 \<Rightarrow> statusInput \<Rightarrow> Condition list \<Rightarrow> Condition list" where
  "nextConditions t gen inp cs =
     (let inp = defaultScheduled inp;
          cs = (if in_ScheduledReason inp \<noteq> []
                then setCondition (t 0) cs ConditionScheduled (in_Scheduled inp)
                       (in_ScheduledReason inp) (in_ScheduledMsg inp) gen
                else cs);
          cs = setCondition (t 1) cs ConditionReady (in_Ready inp) (in_ReadyReason inp) (in_ReadyMsg inp) gen;
          cs = setCondition (t 2) cs ConditionRuntimeReady (in_Ready inp) (in_ReadyReason inp) (in_ReadyMsg inp) gen;
          cs = setCondition (t 3) cs ConditionGuestReady ConditionUnknown ''GuestReadinessUnavailable''
                 ''smolvm guest readiness is not reported by the runtime API'' gen;
          cs = setCondition (t 4) cs ConditionReconciled (in_Recon inp) (in_ReconReason inp) (in_ReconMsg inp) gen
      in if in_DeletionBlockedReason inp \<noteq> []
         then setCondition (t 5) cs ConditionDeletionBlocked (in_DeletionBlocked inp)
                (in_DeletionBlockedReason inp) (in_DeletionBlockedMsg inp) gen
         else cs)"

definition observeMachine :: "MachineInfo option \<Rightarrow> SmolVMStatus \<Rightarrow> SmolVMStatus" where
  "observeMachine machine st =
     (case machine of
        None \<Rightarrow> st
      | Some m \<Rightarrow> st\<lparr>status_RuntimePID := mi_PID m, status_Network := mi_Network m,
                    status_Ports := portsFromRuntime (mi_Ports m),
                    status_StorageGiB := mi_StorageGB m, status_OverlayGiB := mi_OverlayGB m\<rparr>)"

definition nextStatus :: "(nat \<Rightarrow> time) \<Rightarrow> SmolVM \<Rightarrow> statusInput \<Rightarrow> SmolVMStatus" where
  "nextStatus t latest inp =
     (let st = (vm_Status latest)\<lparr>status_Phase := in_Phase inp, status_NodeName := in_NodeName inp,
                                  status_MachineName := in_MachineName inp\<rparr>;
          st = observeMachine (in_Machine inp) st;
          gen = meta_Generation (vm_Meta latest)
      in st\<lparr>status_ObservedGeneration := gen,
            status_Conditions := nextConditions t gen inp (status_Conditions st)\<rparr>)"

section \<open>updateStatus\<close>

definition vm_key :: "SmolVM \<Rightarrow> NamespacedName" where
  "vm_key vm = \<lparr>nn_Namespace = vm_Namespace vm, nn_Name = vm_Name vm\<rparr>"

text \<open>
  The clock readings of the six \<open>setCondition\<close> calls.  The code reads the clock inside \<open>setCondition\<close>, and
  only where a transition time is set; here one reading is taken for each call beforehand, and a reading
  that is not needed is not used.
\<close>

definition clock6 :: "env \<Rightarrow> (nat \<Rightarrow> time) prog" where
  "clock6 E = do {
     t0 \<leftarrow> Now E; t1 \<leftarrow> Now E; t2 \<leftarrow> Now E; t3 \<leftarrow> Now E; t4 \<leftarrow> Now E; t5 \<leftarrow> Now E;
     State_Monad.return (\<lambda>i. [t0, t1, t2, t3, t4, t5] ! i)
   }"

definition updateStatus :: "env \<Rightarrow> SmolVM \<Rightarrow> statusInput \<Rightarrow> (Result \<times> goerror option) prog" where
  "updateStatus E vm inp = do {
     r \<leftarrow> GetVM E (vm_key vm);
     case r of
       Inl err \<Rightarrow> State_Monad.return (noRequeue, IgnoreNotFound err)
     | Inr latest \<Rightarrow> do {
         t \<leftarrow> clock6 E;
         let st = nextStatus t latest inp;
         if env_DeepEqual E (vm_Status latest) st
         then State_Monad.return (noRequeue, None)
         else do {
           err \<leftarrow> UpdateVMStatus E (latest\<lparr>vm_Status := st\<rparr>);
           State_Monad.return (noRequeue, err)
         }
       }
   }"

section \<open>The conditions as a sequence of settings\<close>

definition condition_updates ::
  "(nat \<Rightarrow> time) \<Rightarrow> statusInput \<Rightarrow> (time \<times> string \<times> ConditionStatus \<times> string \<times> string) list" where
  "condition_updates t inp0 =
     (let inp = defaultScheduled inp0 in
      (if in_ScheduledReason inp \<noteq> []
       then [(t 0, ConditionScheduled, in_Scheduled inp, in_ScheduledReason inp, in_ScheduledMsg inp)] else []) @
      [(t 1, ConditionReady, in_Ready inp, in_ReadyReason inp, in_ReadyMsg inp),
       (t 2, ConditionRuntimeReady, in_Ready inp, in_ReadyReason inp, in_ReadyMsg inp),
       (t 3, ConditionGuestReady, ConditionUnknown, ''GuestReadinessUnavailable'',
        ''smolvm guest readiness is not reported by the runtime API''),
       (t 4, ConditionReconciled, in_Recon inp, in_ReconReason inp, in_ReconMsg inp)] @
      (if in_DeletionBlockedReason inp \<noteq> []
       then [(t 5, ConditionDeletionBlocked, in_DeletionBlocked inp, in_DeletionBlockedReason inp,
              in_DeletionBlockedMsg inp)] else []))"

lemma nextConditions_sets: "nextConditions t gen inp cs = ctrl.sets gen (condition_updates t inp) cs"
  by (simp add: nextConditions_def condition_updates_def Let_def)

lemma condition_updates_distinct: "distinct (map (fst \<circ> snd) (condition_updates t inp))"
  by (simp add: condition_updates_def Let_def vm_condition_names)

lemma condition_updates_times: "map snd (condition_updates t inp) = map snd (condition_updates t' inp)"
  by (simp add: condition_updates_def Let_def)

lemma nextConditions_idem:
  "nextConditions t' gen inp (nextConditions t gen inp cs) = nextConditions t gen inp cs"
  unfolding nextConditions_sets
  by (rule ctrl.sets_idem) (rule condition_updates_distinct, rule condition_updates_times)

lemma nextConditions_distinct: "distinct_types cs \<Longrightarrow> distinct_types (nextConditions t gen inp cs)"
  unfolding nextConditions_sets by (rule ctrl.sets_distinct)

lemma nextConditions_found:
  assumes "(u, ty, st, r, m) \<in> set (condition_updates t inp)"
  shows "\<exists>c. findCondition ty (nextConditions t gen inp cs) = Some c \<and> cond_ObservedGeneration c = gen \<and>
             cond_Status c = st \<and> cond_Reason c = r \<and> cond_Message c = m"
  unfolding nextConditions_sets
  using ctrl.sets_found [OF condition_updates_distinct assms] by blast

lemma nextConditions_has:
  "(u, ty, st, r, m) \<in> set (condition_updates t inp) \<Longrightarrow> hasCondition (nextConditions t gen inp cs) ty st"
  using nextConditions_found findCondition_has by blast

lemma nextConditions_other:
  "ty \<notin> (fst \<circ> snd) ` set (condition_updates t inp) \<Longrightarrow>
   findCondition ty (nextConditions t gen inp cs) = findCondition ty cs"
  unfolding nextConditions_sets by (rule ctrl.sets_other) simp

text \<open>\<open>shows_condition cs ty st reason msg gen\<close>: the condition of type \<open>ty\<close> carries exactly these values.\<close>

definition shows_condition ::
  "Condition list \<Rightarrow> string \<Rightarrow> ConditionStatus \<Rightarrow> string \<Rightarrow> string \<Rightarrow> int64 \<Rightarrow> bool" where
  "shows_condition cs ty st reason msg gen \<longleftrightarrow>
     (case findCondition ty cs of
        None \<Rightarrow> False
      | Some c \<Rightarrow> cond_Status c = st \<and> cond_Reason c = reason \<and> cond_Message c = msg \<and> cond_ObservedGeneration c = gen)"

lemma nextConditions_shows:
  assumes "(u, ty, st, r, m) \<in> set (condition_updates t inp)"
  shows "shows_condition (nextConditions t gen inp cs) ty st r m gen"
  using nextConditions_found [OF assms, of gen cs] by (auto simp: shows_condition_def)

section \<open>Fields of the new status\<close>

lemma nextStatus_fields [simp]:
  "status_NodeName (nextStatus t latest inp) = in_NodeName inp"
  "status_MachineName (nextStatus t latest inp) = in_MachineName inp"
  "status_Phase (nextStatus t latest inp) = in_Phase inp"
  "status_ObservedGeneration (nextStatus t latest inp) = meta_Generation (vm_Meta latest)"
  "status_Conditions (nextStatus t latest inp) =
     nextConditions t (meta_Generation (vm_Meta latest)) inp (status_Conditions (vm_Status latest))"
  by (simp_all add: nextStatus_def observeMachine_def Let_def split: option.splits)

lemma nextStatus_idem:
  "nextStatus t' (latest\<lparr>vm_Status := nextStatus t latest inp\<rparr>) inp = nextStatus t latest inp"
  by (rule SmolVMStatus.equality)
    (simp_all add: nextStatus_def observeMachine_def Let_def nextConditions_idem split: option.splits)

section \<open>Runs of updateStatus\<close>

lemma clock6_ensures: "ensures (clock6 E) (\<lambda>t es. \<forall>e \<in> set es. \<exists>u. e = EvNow u)"
  unfolding clock6_def call_defs by (intro ensures_rules) auto

text \<open>The events of a status update: one read, clock readings, at most one write of the new status.\<close>

definition status_event :: "SmolVM \<Rightarrow> statusInput \<Rightarrow> event \<Rightarrow> bool" where
  "status_event vm inp e \<longleftrightarrow>
     (\<exists>u. e = EvNow u) \<or> (\<exists>r. e = EvGetVM (vm_key vm) r) \<or>
     (\<exists>t latest err. e = EvUpdateVMStatus (latest\<lparr>vm_Status := nextStatus t latest inp\<rparr>) err)"

lemma updateStatus_ensures:
  "ensures (updateStatus E vm inp) (\<lambda>(res, err) es. res = noRequeue \<and> (\<forall>e \<in> set es. status_event vm inp e))"
  unfolding updateStatus_def call_defs
  apply (intro ensures_rules)
   apply (force simp: status_event_def)
  apply (rule ensures_bind_of [OF clock6_ensures])
  apply (intro ensures_rules)
   apply (auto simp: status_event_def)
  done

text \<open>
  The outcome of a status update, exactly: when the object cannot be read, the error of that read; otherwise
  the new status is written, unless the object read carries it already.
\<close>

definition status_outcome :: "env \<Rightarrow> SmolVM \<Rightarrow> statusInput \<Rightarrow> goerror option \<Rightarrow> event list \<Rightarrow> bool" where
  "status_outcome E vm inp err es \<longleftrightarrow>
     (\<exists>e. es = [EvGetVM (vm_key vm) (Inl e)] \<and> err = IgnoreNotFound e) \<or>
     (\<exists>latest t ts. let v = latest\<lparr>vm_Status := nextStatus t latest inp\<rparr> in
        if env_DeepEqual E (vm_Status latest) (vm_Status v)
        then es = EvGetVM (vm_key vm) (Inr latest) # map EvNow ts \<and> err = None
        else es = EvGetVM (vm_key vm) (Inr latest) # map EvNow ts @ [EvUpdateVMStatus v err])"

lemma clock6_readings: "ensures (clock6 E) (\<lambda>t es. \<exists>ts. es = map EvNow ts)"
proof (rule ensures_mono [OF clock6_ensures])
  fix t :: "nat \<Rightarrow> time" and es assume "\<forall>e \<in> set es. \<exists>u. e = EvNow u"
  then show "\<exists>ts. es = map EvNow ts" by (metis ex_map_conv)
qed

lemma updateStatus_outcome:
  "ensures (updateStatus E vm inp) (\<lambda>(res, err) es. res = noRequeue \<and> status_outcome E vm inp err es)"
  unfolding updateStatus_def call_defs
proof (intro ensures_rules, goal_cases)
  case (2 h latest)
  show ?case
    by (rule ensures_bind_of [OF clock6_readings], intro ensures_rules)
      (use 2 in \<open>auto simp: status_outcome_def Let_def\<close>)
qed (auto simp: status_outcome_def)

end
