(* ===== verification/Reconciler.thy ===== *)
theory Reconciler
  imports Scheduler Vm_Status
begin

text \<open>
  The reconciler of \<open>src/internal/controller/smolvm_controller.go\<close>: \<open>Reconcile\<close> with \<open>reconcileDelete\<close>,
  \<open>runtimeForNode\<close> and \<open>runtimeUnavailable\<close>.  \<open>Reconcile\<close> is one function in the source; here its body
  is cut at its early returns into \<open>reconcileUnbound\<close> (no node assigned yet), \<open>reconcileBound\<close> (find the
  runtime of the assigned node), \<open>reconcileRuntime\<close> (ask it for the machine) and \<open>reconcileMachine\<close> (the
  machine exists).  Log lines are left
  out.  The result is Go's pair of a \<open>ctrl.Result\<close> and an error.
\<close>

section \<open>The runtime of a node\<close>

definition runtimeClient :: "env \<Rightarrow> SmolVMReconciler \<Rightarrow> SmolVMRuntime" where
  "runtimeClient E R =
     (if rec_RuntimeFactory R then FactoryRuntime
      else HTTPRuntime (NewClient (env_Getenv E ''SMOLVM_API_URL'') (env_Getenv E ''SMOLVM_API_SOCKET'')))"

definition nodeClient :: "env \<Rightarrow> SmolVMNodeEndpoint \<Rightarrow> SmolVMRuntime" where
  "nodeClient E endpoint = HTTPRuntime (NewClientWithAuth
     (''https://'' @ ep_PodIP endpoint @ '':'' @ int_dec (sint (ep_Port endpoint))) []
     (env_Getenv E ''SMOLVM_RUNTIME_TOKEN'')
     (env_Getenv E ''SMOLVM_RUNTIME_INSECURE_SKIP_VERIFY'' = ''true''))"

text \<open>The checks against the endpoint: health, identity and protocol.\<close>

definition probeRuntime :: "env \<Rightarrow> string \<Rightarrow> SmolVMNode \<Rightarrow> SmolVMRuntime \<Rightarrow> (goerror + SmolVMRuntime) prog" where
  "probeRuntime E nodeName node api = do {
     r \<leftarrow> Health E api;
     case r of
       Inl err \<Rightarrow> State_Monad.return (Inl (WrapError (''get runtime health for node '' @ nodeName) err))
     | Inr health \<Rightarrow>
       if \<not> health_OK health
       then State_Monad.return (Inl (ErrorString
         (''runtime for node '' @ nodeName @ '' is unhealthy: '' @ health_Message health)))
       else do {
         r \<leftarrow> GetIdentity E api;
         case r of
           Inl err \<Rightarrow> State_Monad.return (Inl (WrapError (''get runtime identity for node '' @ nodeName) err))
         | Inr identity \<Rightarrow>
           if id_NodeName identity \<noteq> nodeName \<or>
              ns_NodeUID (sn_Status node) \<noteq> [] \<and> id_NodeUID identity \<noteq> [] \<and>
              id_NodeUID identity \<noteq> ns_NodeUID (sn_Status node)
           then State_Monad.return (Inl (ErrorString
             (''runtime endpoint identity mismatch for node '' @ nodeName @ '': got node='' @
              id_NodeName identity @ '' uid='' @ id_NodeUID identity)))
           else do {
             r \<leftarrow> Capabilities E api;
             case r of
               Inl err \<Rightarrow>
                 State_Monad.return (Inl (WrapError (''get runtime capabilities for node '' @ nodeName) err))
             | Inr capabilities \<Rightarrow>
               if cap_ProtocolVersion capabilities \<noteq> [] \<and>
                  cap_ProtocolVersion capabilities \<noteq> ns_ProtocolVersion (sn_Status node)
               then State_Monad.return (Inl (ErrorString
                 (''runtime protocol mismatch for node '' @ nodeName @ '': endpoint='' @
                  cap_ProtocolVersion capabilities @ '' status='' @ ns_ProtocolVersion (sn_Status node))))
               else State_Monad.return (Inr api)
           }
       }
   }"

definition runtimeForNode :: "env \<Rightarrow> SmolVMReconciler \<Rightarrow> string \<Rightarrow> (goerror + SmolVMRuntime) prog" where
  "runtimeForNode E R nodeName =
     (if rec_RuntimeFactory R then State_Monad.return (Inr FactoryRuntime)
      else do {
        r \<leftarrow> GetSmolVMNode E nodeName;
        case r of
          Inl err \<Rightarrow> State_Monad.return (Inl (WrapError (''get SmolVMNode '' @ nodeName) err))
        | Inr node \<Rightarrow> do {
            now \<leftarrow> Now E;
            if \<not> smolVMNodeEligible now node
            then State_Monad.return (Inl (ErrorString
              (''SmolVMNode '' @ nodeName @ '' is not ready or heartbeat is stale'')))
            else
              let endpoint = ns_Endpoint (sn_Status node) in
              if ep_PodIP endpoint = [] \<or> ep_Port endpoint = 0
              then State_Monad.return (Inl (ErrorString
                (''SmolVMNode '' @ nodeName @ '' has no runtime endpoint'')))
              else probeRuntime E nodeName node (nodeClient E endpoint)
          }
      })"

section \<open>Errors of the runtime\<close>

text \<open>
  The pattern \<open>if _, err := r.updateStatus(...); err != nil { return Result{}, err }; return requeue\<close>.
\<close>

definition updateStatusThenRequeue ::
  "env \<Rightarrow> SmolVM \<Rightarrow> statusInput \<Rightarrow> (Result \<times> goerror option) prog" where
  "updateStatusThenRequeue E vm inp = do {
     (_, statusErr) \<leftarrow> updateStatus E vm inp;
     case statusErr of
       Some err \<Rightarrow> State_Monad.return (noRequeue, Some err)
     | None \<Rightarrow> State_Monad.return (requeue, None)
   }"

definition unavailableInput :: "string \<Rightarrow> string \<Rightarrow> goerror \<Rightarrow> statusInput" where
  "unavailableInput nodeName machineName err = emptyInput\<lparr>
     in_Phase := ''Unknown'', in_NodeName := nodeName, in_MachineName := machineName,
     in_Ready := ConditionFalse, in_ReadyReason := ''RuntimeUnavailable'', in_ReadyMsg := Error err,
     in_Recon := ConditionFalse, in_ReconReason := ''RuntimeUnavailable'', in_ReconMsg := Error err\<rparr>"

definition runtimeUnavailable ::
  "env \<Rightarrow> SmolVMReconciler \<Rightarrow> SmolVM \<Rightarrow> string \<Rightarrow> string \<Rightarrow> goerror \<Rightarrow> (Result \<times> goerror option) prog" where
  "runtimeUnavailable E R vm nodeName machineName err = do {
     record_event R vm ''Warning'' ''RuntimeUnavailable'' (Error err);
     updateStatusThenRequeue E vm (unavailableInput nodeName machineName err)
   }"

section \<open>Deletion\<close>

definition removeFinalizer :: "env \<Rightarrow> SmolVM \<Rightarrow> SmolVM" where
  "removeFinalizer E vm = vm\<lparr>vm_Meta := (vm_Meta vm)\<lparr>meta_Finalizers :=
     env_RemoveFinalizer E (vm_Finalizers vm) SmolVMFinalizer\<rparr>\<rparr>"

definition addFinalizer :: "env \<Rightarrow> SmolVM \<Rightarrow> SmolVM" where
  "addFinalizer E vm = vm\<lparr>vm_Meta := (vm_Meta vm)\<lparr>meta_Finalizers :=
     env_AddFinalizer E (vm_Finalizers vm) SmolVMFinalizer\<rparr>\<rparr>"

definition blockedInput :: "string \<Rightarrow> string \<Rightarrow> goerror \<Rightarrow> statusInput" where
  "blockedInput ownerNode machineName err = emptyInput\<lparr>
     in_Phase := ''Deleting'', in_NodeName := ownerNode, in_MachineName := machineName,
     in_Scheduled := ConditionTrue, in_ScheduledReason := ''Bound'',
     in_ScheduledMsg := ''assigned to node '' @ ownerNode,
     in_Ready := ConditionFalse, in_ReadyReason := ''RuntimeUnavailable'', in_ReadyMsg := Error err,
     in_Recon := ConditionFalse, in_ReconReason := ''DeletionBlocked'', in_ReconMsg := Error err,
     in_DeletionBlocked := ConditionTrue, in_DeletionBlockedReason := ''RuntimeUnavailable'',
     in_DeletionBlockedMsg :=
       ''owning node '' @ ownerNode @ '' is unavailable; local VM state may still exist''\<rparr>"

definition finishDelete :: "env \<Rightarrow> SmolVM \<Rightarrow> (Result \<times> goerror option) prog" where
  "finishDelete E vm = do {
     err \<leftarrow> UpdateVM E (removeFinalizer E vm);
     State_Monad.return (noRequeue, err)
   }"

definition reconcileDelete ::
  "env \<Rightarrow> SmolVMReconciler \<Rightarrow> SmolVM \<Rightarrow> string \<Rightarrow> string \<Rightarrow> (Result \<times> goerror option) prog" where
  "reconcileDelete E R vm machineName ownerNode =
     (if ownerNode = [] \<or> machineName = [] then finishDelete E vm
      else do {
        r \<leftarrow> runtimeForNode E R ownerNode;
        case r of
          Inl err \<Rightarrow>
            if map_get (meta_Annotations (vm_Meta vm)) ForceDeleteLocalStateAnnotation = ''true''
            then do {
              record_event R vm ''Warning'' ''ForceDeleteLocalState''
                (''removing finalizer while runtime for node '' @ ownerNode @
                 '' is unavailable; local VM state may remain'');
              finishDelete E vm
            }
            else do {
              record_event R vm ''Warning'' ''DeletionBlocked'' (Error err);
              updateStatusThenRequeue E vm (blockedInput ownerNode machineName err)
            }
        | Inr api \<Rightarrow> do {
            record_event R vm ''Normal'' ''Deleting'' (''deleting smolvm machine '' @ machineName);
            err \<leftarrow> DeleteMachine E api machineName;
            case err of
              Some e \<Rightarrow>
                if \<not> IsNotFound e then runtimeUnavailable E R vm ownerNode machineName e
                else finishDelete E vm
            | None \<Rightarrow> finishDelete E vm
          }
      })"

section \<open>A machine that exists\<close>

definition observedInput :: "string \<Rightarrow> string \<Rightarrow> MachineInfo \<Rightarrow> statusInput" where
  "observedInput ownerNode machineName machine = emptyInput\<lparr>
     in_Phase := phaseFromMachine machine, in_NodeName := ownerNode, in_MachineName := machineName,
     in_Machine := Some machine, in_Ready := readyFromMachine machine,
     in_ReadyReason := ''Observed'', in_ReadyMsg := ''smolvm machine is '' @ mi_State machine,
     in_Recon := ConditionFalse\<rparr>"

definition reconcileMachine ::
  "env \<Rightarrow> SmolVMReconciler \<Rightarrow> SmolVM \<Rightarrow> string \<Rightarrow> string \<Rightarrow> SmolVMRuntime \<Rightarrow> MachineInfo \<Rightarrow>
   (Result \<times> goerror option) prog" where
  "reconcileMachine E R vm machineName ownerNode api machine =
     (case validateImmutableRuntimeFields vm machine of
        Some immutableErr \<Rightarrow> do {
          record_event R vm ''Warning'' ''UnsupportedUpdate'' (Error immutableErr);
          updateStatus E vm ((observedInput ownerNode machineName machine)
            \<lparr>in_ReconReason := ''UnsupportedUpdate'', in_ReconMsg := Error immutableErr\<rparr>)
        }
      | None \<Rightarrow>
      case validateStorageDoesNotShrink vm machine of
        Some invalidResize \<Rightarrow>
          updateStatus E vm ((observedInput ownerNode machineName machine)
            \<lparr>in_ReconReason := ''InvalidStorageResize'', in_ReconMsg := Error invalidResize\<rparr>)
      | None \<Rightarrow>
      if needsStorageExpansion vm machine then
        if mi_State machine = ''running'' then
          updateStatus E vm ((observedInput ownerNode machineName machine)
            \<lparr>in_ReadyReason := ''ResizePending'',
             in_ReadyMsg := ''storage expansion requires the machine to be stopped'',
             in_ReconReason := ''ResizeRequiresStoppedMachine'',
             in_ReconMsg := ''set spec.running=false before expanding storage''\<rparr>)
        else do {
          record_event R vm ''Normal'' ''Resizing'' (''resizing smolvm machine '' @ machineName);
          err \<leftarrow> ResizeMachine E api machineName (buildResizeRequest vm);
          case err of
            Some e \<Rightarrow> runtimeUnavailable E R vm ownerNode machineName e
          | None \<Rightarrow> State_Monad.return (requeue, None)
        }
      else if spec_Running (vm_Spec vm) \<and> mi_State machine \<noteq> ''running'' then do {
        record_event R vm ''Normal'' ''Starting'' (''starting smolvm machine '' @ machineName);
        err \<leftarrow> EnsureMachineRunning E api machineName;
        case err of
          Some e \<Rightarrow> runtimeUnavailable E R vm ownerNode machineName e
        | None \<Rightarrow> State_Monad.return (requeue, None)
      }
      else if \<not> spec_Running (vm_Spec vm) \<and> mi_State machine = ''running'' then do {
        record_event R vm ''Normal'' ''Stopping'' (''stopping smolvm machine '' @ machineName);
        err \<leftarrow> StopMachine E api machineName;
        case err of
          Some e \<Rightarrow> runtimeUnavailable E R vm ownerNode machineName e
        | None \<Rightarrow> State_Monad.return (requeue, None)
      }
      else do {
        (result, err) \<leftarrow> updateStatus E vm ((observedInput ownerNode machineName machine)
          \<lparr>in_Recon := ConditionTrue, in_ReconReason := ''Reconciled'',
           in_ReconMsg := ''desired state matches smolvm runtime state''\<rparr>);
        case err of
          Some e \<Rightarrow> State_Monad.return (result, Some e)
        | None \<Rightarrow> State_Monad.return (requeue, None)
      })"

section \<open>A bound VM\<close>

definition createdInput :: "string \<Rightarrow> string \<Rightarrow> MachineInfo \<Rightarrow> statusInput" where
  "createdInput ownerNode machineName machine = emptyInput\<lparr>
     in_Phase := phaseFromMachine machine, in_NodeName := ownerNode, in_MachineName := machineName,
     in_Machine := Some machine, in_Ready := ConditionFalse, in_ReadyReason := ''Created'',
     in_ReadyMsg := ''smolvm machine has been created; waiting before start'',
     in_Recon := ConditionFalse, in_ReconReason := ''StartPending'',
     in_ReconMsg := ''waiting for smolvm create operation to release runtime locks''\<rparr>"

text \<open>With the runtime of the owning node at hand.\<close>

definition reconcileRuntime ::
  "env \<Rightarrow> SmolVMReconciler \<Rightarrow> SmolVM \<Rightarrow> string \<Rightarrow> string \<Rightarrow> SmolVMRuntime \<Rightarrow> (Result \<times> goerror option) prog" where
  "reconcileRuntime E R vm machineName ownerNode api = do {
     g \<leftarrow> GetMachine E api machineName;
     case g of
       Inl err \<Rightarrow>
         if IsNotFound err then do {
           record_event R vm ''Normal'' ''Creating'' (''creating smolvm machine '' @ machineName);
           c \<leftarrow> CreateMachine E api (buildCreateRequest vm machineName);
           case c of
             Inl err \<Rightarrow> runtimeUnavailable E R vm ownerNode machineName err
           | Inr machine \<Rightarrow>
               updateStatusThenRequeue E vm (createdInput ownerNode machineName machine)
         }
         else runtimeUnavailable E R vm ownerNode machineName err
     | Inr machine \<Rightarrow> reconcileMachine E R vm machineName ownerNode api machine
   }"

definition reconcileBound ::
  "env \<Rightarrow> SmolVMReconciler \<Rightarrow> SmolVM \<Rightarrow> string \<Rightarrow> string \<Rightarrow> (Result \<times> goerror option) prog" where
  "reconcileBound E R vm machineName ownerNode = do {
     r \<leftarrow> runtimeForNode E R ownerNode;
     case r of
       Inl err \<Rightarrow> runtimeUnavailable E R vm ownerNode machineName err
     | Inr api \<Rightarrow> reconcileRuntime E R vm machineName ownerNode api
   }"

section \<open>A VM without a node\<close>

definition pendingInput :: "string \<Rightarrow> string \<Rightarrow> statusInput" where
  "pendingInput machineName msg = emptyInput\<lparr>
     in_Phase := ''Pending'', in_NodeName := [], in_MachineName := machineName,
     in_Scheduled := ConditionFalse, in_ScheduledReason := ''NoEligibleNodes'', in_ScheduledMsg := msg,
     in_Ready := ConditionFalse, in_ReadyReason := ''AwaitingNodeAssignment'', in_ReadyMsg := msg,
     in_Recon := ConditionFalse, in_ReconReason := ''AwaitingNodeAssignment'', in_ReconMsg := msg\<rparr>"

definition scheduledInput :: "string \<Rightarrow> string \<Rightarrow> statusInput" where
  "scheduledInput nodeName machineName = emptyInput\<lparr>
     in_Phase := ''Scheduled'', in_NodeName := nodeName, in_MachineName := machineName,
     in_Scheduled := ConditionTrue, in_ScheduledReason := ''Bound'',
     in_ScheduledMsg := ''assigned to node '' @ nodeName,
     in_Ready := ConditionFalse, in_ReadyReason := ''Scheduled'',
     in_ReadyMsg := ''waiting for node runtime reconciliation'',
     in_Recon := ConditionFalse, in_ReconReason := ''RuntimePending'',
     in_ReconMsg := ''waiting for node runtime reconciliation''\<rparr>"

definition reconcileUnbound :: "env \<Rightarrow> SmolVM \<Rightarrow> string \<Rightarrow> (Result \<times> goerror option) prog" where
  "reconcileUnbound E vm machineName = do {
     s \<leftarrow> schedule E vm;
     case s of
       Inl err \<Rightarrow> State_Monad.return (noRequeue, Some err)
     | Inr (nodeName, msg) \<Rightarrow>
         if nodeName = [] then updateStatus E vm (pendingInput machineName msg)
         else updateStatusThenRequeue E vm (scheduledInput nodeName machineName)
   }"

section \<open>Reconcile\<close>

definition invalidInput :: "string \<Rightarrow> string \<Rightarrow> goerror \<Rightarrow> statusInput" where
  "invalidInput ownerNode machineName err = emptyInput\<lparr>
     in_Phase := ''Failed'', in_NodeName := ownerNode, in_MachineName := machineName,
     in_Ready := ConditionFalse, in_ReadyReason := ''InvalidSpec'', in_ReadyMsg := Error err,
     in_Recon := ConditionFalse, in_ReconReason := ''InvalidSpec'', in_ReconMsg := Error err\<rparr>"

definition machineNameOf :: "SmolVM \<Rightarrow> string" where
  "machineNameOf vm =
     (if status_MachineName (vm_Status vm) = [] then stableMachineName vm
      else status_MachineName (vm_Status vm))"

text \<open>Everything after the first read of the object.\<close>

definition reconcileVM :: "env \<Rightarrow> SmolVMReconciler \<Rightarrow> SmolVM \<Rightarrow> (Result \<times> goerror option) prog" where
  "reconcileVM E R vm =
     (let ownerNode = vm_NodeName vm; machineName = machineNameOf vm in
      if meta_DeletionTimestamp (vm_Meta vm) \<noteq> None
      then reconcileDelete E R vm machineName ownerNode
      else if \<not> env_ContainsFinalizer E (vm_Finalizers vm) SmolVMFinalizer
      then do { err \<leftarrow> UpdateVM E (addFinalizer E vm); State_Monad.return (noRequeue, err) }
      else case validateSpec vm of
        Some err \<Rightarrow> do {
          record_event R vm ''Warning'' ''InvalidSpec'' (Error err);
          updateStatus E vm (invalidInput ownerNode machineName err)
        }
      | None \<Rightarrow>
          if ownerNode = [] then reconcileUnbound E vm machineName
          else reconcileBound E R vm machineName ownerNode)"

definition Reconcile ::
  "env \<Rightarrow> SmolVMReconciler \<Rightarrow> NamespacedName \<Rightarrow> (Result \<times> goerror option) prog" where
  "Reconcile E R req = do {
     r \<leftarrow> GetVM E req;
     case r of
       Inl err \<Rightarrow> State_Monad.return (noRequeue, IgnoreNotFound err)
     | Inr vm \<Rightarrow> reconcileVM E R vm
   }"

section \<open>Endpoint verification\<close>

definition probe_event :: "event \<Rightarrow> bool" where
  "probe_event e \<longleftrightarrow>
     (case e of EvNow _ \<Rightarrow> True | EvGetSmolVMNode _ _ \<Rightarrow> True | EvHealth _ _ \<Rightarrow> True
      | EvGetIdentity _ _ \<Rightarrow> True | EvCapabilities _ _ \<Rightarrow> True | _ \<Rightarrow> False)"

text \<open>The three answers of an endpoint that make it the runtime of node \<open>n\<close> with the recorded \<open>node\<close>.\<close>

definition answers_match ::
  "string \<Rightarrow> SmolVMNode \<Rightarrow> Health \<Rightarrow> Identity \<Rightarrow> Capabilities \<Rightarrow> bool" where
  "answers_match n node health identity caps \<longleftrightarrow>
     health_OK health \<and> id_NodeName identity = n \<and>
     (ns_NodeUID (sn_Status node) = [] \<or> id_NodeUID identity \<in> {[], ns_NodeUID (sn_Status node)}) \<and>
     cap_ProtocolVersion caps \<in> {[], ns_ProtocolVersion (sn_Status node)}"

text \<open>
  \<open>endpoint_verified E n api es\<close>: the events \<open>es\<close> show that \<open>api\<close> is the runtime of node \<open>n\<close>: the endpoint of
  an eligible \<open>SmolVMNode\<close> that answered healthy, identified itself as \<open>n\<close> with a UID that does not
  contradict the recorded one, and speaks the recorded protocol version.
\<close>

definition endpoint_verified :: "env \<Rightarrow> string \<Rightarrow> SmolVMRuntime \<Rightarrow> event list \<Rightarrow> bool" where
  "endpoint_verified E n api es \<longleftrightarrow>
     (\<exists>node now health identity caps.
        EvGetSmolVMNode n (Inr node) \<in> set es \<and> EvNow now \<in> set es \<and> smolVMNodeEligible now node \<and>
        api = nodeClient E (ns_Endpoint (sn_Status node)) \<and>
        EvHealth api (Inr health) \<in> set es \<and> EvGetIdentity api (Inr identity) \<in> set es \<and>
        EvCapabilities api (Inr caps) \<in> set es \<and> answers_match n node health identity caps)"

text \<open>
  \<open>verified E R n api es\<close>: \<open>api\<close> is the runtime that a reconciler with configuration \<open>R\<close> may use for node \<open>n\<close>.
  In production no \<open>RuntimeFactory\<close> is set (\<open>src/cmd/main.go\<close> leaves the field empty) and this is
  \<open>endpoint_verified\<close>.  With a factory, which the tests of the repository inject, the code makes no check
  and uses what the factory returns, whatever the node.
\<close>

definition verified :: "env \<Rightarrow> SmolVMReconciler \<Rightarrow> string \<Rightarrow> SmolVMRuntime \<Rightarrow> event list \<Rightarrow> bool" where
  "verified E R n api es \<longleftrightarrow>
     (if rec_RuntimeFactory R then api = FactoryRuntime else endpoint_verified E n api es)"

lemma verified_production [simp]: "\<not> rec_RuntimeFactory R \<Longrightarrow> verified E R n api es \<longleftrightarrow> endpoint_verified E n api es"
  by (simp add: verified_def)

lemmas verified_defs = verified_def endpoint_verified_def

lemma verified_mono:
  assumes "verified E R n api es" and "set es \<subseteq> set es'"
  shows "verified E R n api es'"
  using assms(1) subsetD [OF assms(2)] unfolding verified_defs by (auto split: if_splits) metis

lemma probeRuntime_ensures:
  "ensures (probeRuntime E n node api) (\<lambda>r es. (\<forall>e \<in> set es. probe_event e) \<and>
     (\<forall>x y. EvGetSmolVMNode x y \<notin> set es) \<and> (\<forall>t. EvNow t \<notin> set es) \<and>
     (\<forall>a. r = Inr a \<longleftrightarrow> a = api \<and> (\<exists>health identity caps.
        EvHealth api (Inr health) \<in> set es \<and> EvGetIdentity api (Inr identity) \<in> set es \<and>
        EvCapabilities api (Inr caps) \<in> set es \<and> answers_match n node health identity caps)))"
  unfolding probeRuntime_def call_defs
  by (intro ensures_rules) (auto simp: probe_event_def answers_match_def)

lemma eligible_endpoint:
  "smolVMNodeEligible now node \<Longrightarrow>
   ep_PodIP (ns_Endpoint (sn_Status node)) \<noteq> [] \<and> ep_Port (ns_Endpoint (sn_Status node)) \<noteq> 0"
  by (auto simp: smolVMNodeEligible_def Let_def split: if_splits option.splits)

text \<open>\<open>runtimeForNode\<close> returns a runtime exactly when the run verified it.\<close>

definition lookup_result ::
  "env \<Rightarrow> SmolVMReconciler \<Rightarrow> string \<Rightarrow> goerror + SmolVMRuntime \<Rightarrow> event list \<Rightarrow> bool" where
  "lookup_result E R n r es \<longleftrightarrow>
     (\<forall>e \<in> set es. probe_event e) \<and> (\<forall>api. r = Inr api \<longleftrightarrow> verified E R n api es)"

lemma probe_lookup_result:
  assumes "\<not> rec_RuntimeFactory R" and "smolVMNodeEligible now node"
    and "\<forall>e \<in> set es. probe_event e"
    and "\<And>x y. EvGetSmolVMNode x y \<notin> set es" and "\<And>t. EvNow t \<notin> set es"
    and "\<And>a. r = Inr a \<longleftrightarrow> a = nodeClient E (ns_Endpoint (sn_Status node)) \<and> (\<exists>health identity caps.
        EvHealth a (Inr health) \<in> set es \<and> EvGetIdentity a (Inr identity) \<in> set es \<and>
        EvCapabilities a (Inr caps) \<in> set es \<and> answers_match n node health identity caps)"
  shows "lookup_result E R n r (EvGetSmolVMNode n (Inr node) # EvNow now # es)"
  using assms unfolding lookup_result_def verified_defs by (simp add: probe_event_def)

lemma runtimeForNode_ensures: "ensures (runtimeForNode E R n) (lookup_result E R n)"
  unfolding runtimeForNode_def call_defs
  apply (intro ensures_rules)
      apply (auto simp: lookup_result_def verified_defs)[1]
     apply (simp add: lookup_result_def verified_defs probe_event_def)
    apply (simp add: lookup_result_def verified_defs probe_event_def)
   apply (use eligible_endpoint in blast)
  apply (rule ensures_mono [OF probeRuntime_ensures])
  apply (simp, rule probe_lookup_result; simp cong: conj_cong)
  done

section \<open>What a run may do\<close>

text \<open>The preconditions under which \<open>Reconcile\<close> goes on to a node runtime.\<close>

definition admitted :: "env \<Rightarrow> SmolVM \<Rightarrow> bool" where
  "admitted E vm \<longleftrightarrow>
     meta_DeletionTimestamp (vm_Meta vm) = None \<and>
     env_ContainsFinalizer E (vm_Finalizers vm) SmolVMFinalizer \<and> spec_valid vm"

text \<open>A call on the machine of \<open>vm\<close> that goes to the verified runtime of the node \<open>vm\<close> is bound to.\<close>

definition on_owner :: "env \<Rightarrow> SmolVMReconciler \<Rightarrow> SmolVM \<Rightarrow> SmolVMRuntime \<Rightarrow> string \<Rightarrow> event list \<Rightarrow> bool" where
  "on_owner E R vm api name pre \<longleftrightarrow>
     vm_NodeName vm \<noteq> [] \<and> name = machineNameOf vm \<and> verified E R (vm_NodeName vm) api pre"

text \<open>The machine was read just before and its immutable fields and disk sizes agree with the spec.\<close>

definition observed_ok :: "SmolVM \<Rightarrow> SmolVMRuntime \<Rightarrow> MachineInfo \<Rightarrow> event list \<Rightarrow> bool" where
  "observed_ok vm api m pre \<longleftrightarrow>
     EvGetMachine api (machineNameOf vm) (Inr m) \<in> set pre \<and>
     validateImmutableRuntimeFields vm m = None \<and> validateStorageDoesNotShrink vm m = None"

text \<open>When the finalizer may go.\<close>

definition may_release :: "env \<Rightarrow> SmolVMReconciler \<Rightarrow> SmolVM \<Rightarrow> event list \<Rightarrow> bool" where
  "may_release E R vm pre \<longleftrightarrow>
     vm_NodeName vm = [] \<or>
     (\<exists>api res. EvDeleteMachine api (machineNameOf vm) res \<in> set pre \<and>
        verified E R (vm_NodeName vm) api pre \<and>
        (case res of None \<Rightarrow> True | Some e \<Rightarrow> IsNotFound e)) \<or>
     map_get (meta_Annotations (vm_Meta vm)) ForceDeleteLocalStateAnnotation = ''true'' \<and>
     (\<forall>api. \<not> verified E R (vm_NodeName vm) api pre)"

text \<open>A status that may be written: the binding is kept, or made to a node that the run has chosen.\<close>

definition may_write_status :: "env \<Rightarrow> SmolVM \<Rightarrow> SmolVM \<Rightarrow> event list \<Rightarrow> bool" where
  "may_write_status E vm v pre \<longleftrightarrow>
     (\<exists>latest. EvGetVM (vm_key vm) (Inr latest) \<in> set pre \<and> vm_Meta v = vm_Meta latest \<and>
        vm_Spec v = vm_Spec latest \<and>
        status_ObservedGeneration (vm_Status v) = meta_Generation (vm_Meta latest)) \<and>
     status_MachineName (vm_Status v) = machineNameOf vm \<and>
     (vm_NodeName v = vm_NodeName vm \<or>
      vm_NodeName vm = [] \<and> admitted E vm \<and> chosen vm (vm_NodeName v) pre)"

definition step_ok :: "env \<Rightarrow> SmolVMReconciler \<Rightarrow> SmolVM \<Rightarrow> event list \<Rightarrow> event \<Rightarrow> bool" where
  "step_ok E R vm pre e \<longleftrightarrow>
     (case e of
        EvCreateMachine api r _ \<Rightarrow>
          admitted E vm \<and> on_owner E R vm api (create_Name r) pre \<and> r = buildCreateRequest vm (machineNameOf vm) \<and>
          (\<exists>err. EvGetMachine api (machineNameOf vm) (Inl err) \<in> set pre \<and> IsNotFound err)
      | EvResizeMachine api n r _ \<Rightarrow>
          admitted E vm \<and> on_owner E R vm api n pre \<and> r = buildResizeRequest vm \<and>
          (\<exists>m. observed_ok vm api m pre \<and> needsStorageExpansion vm m \<and> mi_State m \<noteq> ''running'')
      | EvEnsureMachineRunning api n _ \<Rightarrow>
          admitted E vm \<and> on_owner E R vm api n pre \<and> spec_Running (vm_Spec vm) \<and>
          (\<exists>m. observed_ok vm api m pre \<and> \<not> needsStorageExpansion vm m \<and> mi_State m \<noteq> ''running'')
      | EvStopMachine api n _ \<Rightarrow>
          admitted E vm \<and> on_owner E R vm api n pre \<and> \<not> spec_Running (vm_Spec vm) \<and>
          (\<exists>m. observed_ok vm api m pre \<and> \<not> needsStorageExpansion vm m \<and> mi_State m = ''running'')
      | EvDeleteMachine api n _ \<Rightarrow>
          meta_DeletionTimestamp (vm_Meta vm) \<noteq> None \<and> on_owner E R vm api n pre
      | EvUpdateVM v _ \<Rightarrow>
          (if meta_DeletionTimestamp (vm_Meta vm) \<noteq> None
           then v = removeFinalizer E vm \<and> may_release E R vm pre
           else v = addFinalizer E vm \<and> \<not> env_ContainsFinalizer E (vm_Finalizers vm) SmolVMFinalizer)
      | EvUpdateVMStatus v _ \<Rightarrow> may_write_status E vm v pre
      | _ \<Rightarrow> True)"

lemma step_ok_probe: "probe_event e \<Longrightarrow> step_ok E R vm pre e"
  by (auto simp: step_ok_def probe_event_def split: event.splits)

lemma step_ok_simps [simp]:
  "step_ok E R vm pre (EvNow t)" "step_ok E R vm pre (EvGetVM k r)"
  "step_ok E R vm pre (EvRecord v ty reason msg)" "step_ok E R vm pre (EvGetMachine api n g)"
  "step_ok E R vm pre (EvListVM l)"
  by (simp_all add: step_ok_def)

lemma stableMachineName_nonempty [simp]: "stableMachineName vm \<noteq> []"
  by (simp add: stableMachineName_def Let_def)

lemma machineNameOf_nonempty [simp]: "machineNameOf vm \<noteq> []"
  by (simp add: machineNameOf_def)

text \<open>Status writes: what the written status has to satisfy, given the events before it.\<close>

lemma updateStatus_keeps:
  assumes rd: "\<And>p r. G p (EvGetVM (vm_key vm) r)" and clock: "\<And>p t. G p (EvNow t)"
    and wr: "\<And>rest latest t err. EvGetVM (vm_key vm) (Inr latest) \<in> set rest \<Longrightarrow>
      G (pre @ rest) (EvUpdateVMStatus (latest\<lparr>vm_Status := nextStatus t latest inp\<rparr>) err)"
  shows "keeps G pre (updateStatus E vm inp)"
  unfolding updateStatus_def call_defs
proof (intro keeps_rules, goal_cases)
  case (2 h latest)
  note latest = 2
  show ?case
  proof (rule keeps_bind_of [OF clock6_ensures], goal_cases)
    case (1 a es)
    show ?case by (rule guarded_all) (use 1 clock in metis)
  next
    case (2 t es')
    show ?case
      using wr [of latest "EvGetVM (vm_key vm) (env_GetVM E h (vm_key vm)) # es'" t] latest
      by (intro keeps_rules) simp_all
  qed
qed (rule rd)

lemma updateStatusThenRequeue_keeps:
  "keeps G pre (updateStatus E vm inp) \<Longrightarrow> keeps G pre (updateStatusThenRequeue E vm inp)"
  unfolding updateStatusThenRequeue_def
  by (erule keeps_bind_silent) (auto intro!: ensures_rules)

lemma record_event_keeps:
  assumes "\<And>p. G p (EvRecord vm ty reason msg)"
    and "\<And>rest. set rest \<subseteq> {EvRecord vm ty reason msg} \<Longrightarrow> keeps G (pre @ rest) m"
  shows "keeps G pre (record_event R vm ty reason msg \<bind> (\<lambda>_. m))"
  using assms(2) [of "[]"] assms unfolding record_event_def by (auto intro!: keeps_rules)

text \<open>The writes of the branches below keep the binding that was read.\<close>

lemma bound_status_keeps:
  assumes "in_NodeName inp = vm_NodeName vm" and "in_MachineName inp = machineNameOf vm"
  shows "keeps (step_ok E R vm) pre (updateStatus E vm inp)"
  by (rule updateStatus_keeps) (use assms in \<open>auto simp: step_ok_def may_write_status_def\<close>)

lemma runtimeUnavailable_keeps:
  "keeps (step_ok E R vm) pre (runtimeUnavailable E R' vm (vm_NodeName vm) (machineNameOf vm) err)"
  unfolding runtimeUnavailable_def
  by (intro record_event_keeps updateStatusThenRequeue_keeps bound_status_keeps)
    (simp_all add: unavailableInput_def)

lemma finishDelete_keeps:
  assumes "meta_DeletionTimestamp (vm_Meta vm) \<noteq> None" and "may_release E R vm pre"
  shows "keeps (step_ok E R vm) pre (finishDelete E vm)"
  unfolding finishDelete_def call_defs
  by (intro keeps_rules) (use assms in \<open>simp add: step_ok_def\<close>)

text \<open>Fact about a run of \<open>runtimeForNode\<close>, carried to the point of use.\<close>

lemma lookup_resultD:
  assumes "lookup_result E R n r es"
  shows "guarded (step_ok E R vm) pre es" and "r = Inr api \<Longrightarrow> verified E R n api (pre @ es @ rest)"
    and "r = Inl err \<Longrightarrow> \<not> verified E R n api es"
proof -
  show "guarded (step_ok E R vm) pre es"
    by (rule guarded_all) (use assms in \<open>auto simp: lookup_result_def intro: step_ok_probe\<close>)
  show "r = Inr api \<Longrightarrow> verified E R n api (pre @ es @ rest)"
    by (rule verified_mono [of _ _ _ _ es]) (use assms in \<open>auto simp: lookup_result_def\<close>)
  show "r = Inl err \<Longrightarrow> \<not> verified E R n api es"
    using assms by (auto simp: lookup_result_def)
qed

lemma verified_filter: "verified E R n api es \<longleftrightarrow> verified E R n api (filter probe_event es)"
  unfolding verified_defs by (simp add: probe_event_def)

lemma verified_append_quiet:
  assumes "\<forall>e \<in> set pre \<union> set rest. \<not> probe_event e"
  shows "verified E R n api (pre @ es @ rest) \<longleftrightarrow> verified E R n api es"
proof -
  have "filter probe_event (pre @ es @ rest) = filter probe_event es"
    using assms by (auto simp: filter_empty_conv)
  then show ?thesis using verified_filter by metis
qed

lemma may_release_deleted:
  assumes "verified E R (vm_NodeName vm) api pre"
    and "EvDeleteMachine api (machineNameOf vm) res \<in> set pre"
    and "\<And>e. res = Some e \<Longrightarrow> IsNotFound e"
  shows "may_release E R vm pre"
  using assms unfolding may_release_def by (cases res) fastforce+

lemma reconcileDelete_keeps:
  assumes "meta_DeletionTimestamp (vm_Meta vm) \<noteq> None" and "\<forall>e \<in> set pre. \<not> probe_event e"
  shows "keeps (step_ok E R vm) pre (reconcileDelete E R vm (machineNameOf vm) (vm_NodeName vm))"
  unfolding reconcileDelete_def
proof (intro keeps_if keeps_bind_of [OF runtimeForNode_ensures] keeps_case_sum, goal_cases)
  case 1
  then show ?case
    by (intro finishDelete_keeps) (use assms in \<open>auto simp: may_release_def\<close>)
next
  case (2 r es)
  then show ?case by (intro lookup_resultD)
next
  case (3 r es err)
  have unverified: "\<not> verified E R (vm_NodeName vm) api (pre @ es @ rest)"
    if rest: "set rest \<subseteq> {EvRecord vm ty reason msg}" for api rest ty reason msg
  proof -
    have "\<not> probe_event (EvRecord vm ty reason msg)" by (simp add: probe_event_def)
    with rest assms(2) have "\<forall>e \<in> set pre \<union> set rest. \<not> probe_event e" by auto
    with 3 show ?thesis by (simp add: verified_append_quiet lookup_resultD(3))
  qed
  show ?case
    by (intro record_event_keeps finishDelete_keeps)
      (use 3 assms unverified in \<open>auto simp: may_release_def\<close>)
next
  case (4 r es err)
  show ?case
    by (intro record_event_keeps updateStatusThenRequeue_keeps bound_status_keeps)
      (simp_all add: blockedInput_def)
next
  case (5 r es api)
  then have ver: "verified E R (vm_NodeName vm) api (pre @ es @ rest)" for rest
    by (intro lookup_resultD) simp_all
  show ?case
    unfolding call_defs
    by (intro record_event_keeps keeps_rules runtimeUnavailable_keeps finishDelete_keeps
        may_release_deleted [where api = api])
      (use 5 assms ver in \<open>auto simp: step_ok_def on_owner_def\<close>)
qed

lemma runtime_call_keeps:
  assumes "step_ok E R vm pre (ev None)" and "\<And>e. step_ok E R vm pre (ev (Some e))"
  shows "keeps (step_ok E R vm) pre (call f ev \<bind> (\<lambda>err. case err of
           Some e \<Rightarrow> runtimeUnavailable E R vm (vm_NodeName vm) (machineNameOf vm) e
         | None \<Rightarrow> State_Monad.return x))"
proof (intro keeps_rules runtimeUnavailable_keeps)
  fix h show "step_ok E R vm pre (ev (f h))" using assms by (cases "f h") auto
qed

lemma reconcileMachine_keeps:
  assumes adm: "admitted E vm" and node: "vm_NodeName vm \<noteq> []"
    and ver: "\<And>rest. verified E R (vm_NodeName vm) api (pre @ rest)"
    and read: "EvGetMachine api (machineNameOf vm) (Inr m) \<in> set pre"
  shows "keeps (step_ok E R vm) pre
    (reconcileMachine E R vm (machineNameOf vm) (vm_NodeName vm) api m)"
  unfolding reconcileMachine_def call_defs
  by (intro keeps_case_option keeps_if record_event_keeps bound_status_keeps runtime_call_keeps
      keeps_bind_silent)
    (use assms in \<open>auto simp: observedInput_def step_ok_def on_owner_def observed_ok_def
      intro!: ensures_rules\<close>)

lemma reconcileBound_keeps:
  assumes adm: "admitted E vm" and node: "vm_NodeName vm \<noteq> []"
  shows "keeps (step_ok E R vm) pre (reconcileBound E R vm (machineNameOf vm) (vm_NodeName vm))"
  unfolding reconcileBound_def
proof (intro keeps_bind_of [OF runtimeForNode_ensures] keeps_case_sum, goal_cases)
  case (1 r es)
  then show ?case by (intro lookup_resultD)
next
  case (2 r es err)
  show ?case by (rule runtimeUnavailable_keeps)
next
  case (3 r es api)
  then have ver: "verified E R (vm_NodeName vm) api (pre @ es @ rest)" for rest
    by (intro lookup_resultD) simp_all
  show ?case
    unfolding call_defs reconcileRuntime_def
    by (intro keeps_rules record_event_keeps reconcileMachine_keeps runtimeUnavailable_keeps
        updateStatusThenRequeue_keeps bound_status_keeps)
      (use assms ver in \<open>auto simp: step_ok_def on_owner_def buildCreateRequest_def createdInput_def\<close>)
qed

lemma step_ok_schedule: "schedule_event e \<Longrightarrow> step_ok E R vm pre e"
  by (auto simp: step_ok_def schedule_event_def split: event.splits)

lemma reconcileUnbound_keeps:
  assumes "admitted E vm" and "vm_NodeName vm = []"
  shows "keeps (step_ok E R vm) pre (reconcileUnbound E vm (machineNameOf vm))"
  unfolding reconcileUnbound_def
proof (rule keeps_bind_of [OF ensures_conj [OF schedule_ensures schedule_reads]], goal_cases)
  case (1 r es)
  show ?case by (rule guarded_all) (use 1 in \<open>auto intro: step_ok_schedule\<close>)
next
  case (2 r es)
  have ch: "chosen vm n (pre @ es @ rest)" if "r = Inr (n, msg)" "n \<noteq> []" for n msg rest
    by (rule chosen_mono [of _ _ es]) (use 2 that in \<open>auto simp: schedule_sound_def\<close>)
  show ?case
  proof (intro keeps_rules updateStatusThenRequeue_keeps, goal_cases)
    case (1 x y z)
    show ?case by (rule bound_status_keeps) (simp_all add: pendingInput_def assms)
  next
    case (2 x n msg)
    show ?case
      by (rule updateStatus_keeps)
        (use 2 ch assms in \<open>auto simp: step_ok_def may_write_status_def scheduledInput_def\<close>)
  qed
qed

lemma reconcileVM_keeps:
  assumes "\<forall>e \<in> set pre. \<not> probe_event e"
  shows "keeps (step_ok E R vm) pre (reconcileVM E R vm)"
  unfolding reconcileVM_def call_defs
  by (intro keeps_rules reconcileDelete_keeps reconcileUnbound_keeps reconcileBound_keeps
      record_event_keeps bound_status_keeps)
    (use assms in \<open>auto simp: admitted_def step_ok_def invalidInput_def validateSpec_None\<close>)

text \<open>
  The guard of a whole reconciliation: after the first read, which finds \<open>vm\<close>, every interaction is
  one that is allowed for \<open>vm\<close>.
\<close>

definition reconcile_ok :: "env \<Rightarrow> SmolVMReconciler \<Rightarrow> NamespacedName \<Rightarrow> event list \<Rightarrow> event \<Rightarrow> bool" where
  "reconcile_ok E R req pre e \<longleftrightarrow>
     pre = [] \<and> (\<exists>r. e = EvGetVM req r) \<or>
     (\<exists>vm rest. pre = EvGetVM req (Inr vm) # rest \<and> step_ok E R vm pre e)"

lemma Reconcile_keeps: "keeps (reconcile_ok E R req) [] (Reconcile E R req)"
  unfolding Reconcile_def call_defs
proof (intro keeps_rules, goal_cases)
  case (1 h)
  show ?case by (simp add: reconcile_ok_def)
next
  case (2 h vm)
  let ?pre = "[EvGetVM req (env_GetVM E h req)]"
  have "keeps (step_ok E R vm) ?pre (reconcileVM E R vm)"
    by (rule reconcileVM_keeps) (simp add: probe_event_def)
  then show ?case
    unfolding keeps_def append_Nil
    by (rule ensures_mono) (rule guarded_mono, assumption, use 2 in \<open>auto simp: reconcile_ok_def\<close>)
qed

text \<open>The form in which the properties use it: a run, and one event of it.\<close>

lemma Reconcile_step:
  assumes "run_state (Reconcile E R req) h = (r, h @ pre @ e # post)" and "\<And>k x. e \<noteq> EvGetVM k x"
  obtains vm rest where "pre = EvGetVM req (Inr vm) # rest" and "step_ok E R vm pre e"
  using keepsD [OF Reconcile_keeps assms(1)] assms(2) unfolding reconcile_ok_def by blast

section \<open>At most one change of a machine\<close>

definition is_mutation :: "event \<Rightarrow> bool" where
  "is_mutation e \<longleftrightarrow>
     (case e of EvCreateMachine _ _ _ \<Rightarrow> True | EvEnsureMachineRunning _ _ _ \<Rightarrow> True
      | EvStopMachine _ _ _ \<Rightarrow> True | EvDeleteMachine _ _ _ \<Rightarrow> True | EvResizeMachine _ _ _ _ \<Rightarrow> True
      | _ \<Rightarrow> False)"

definition mutations :: "event list \<Rightarrow> event list" where
  "mutations es = filter is_mutation es"

lemma mutations_simps [simp]:
  "mutations [] = []" "mutations (es @ es') = mutations es @ mutations es'"
  "mutations (e # es) = (if is_mutation e then e # mutations es else mutations es)"
  by (simp_all add: mutations_def)

lemma not_mutation [simp]:
  "\<not> is_mutation (EvNow t)" "\<not> is_mutation (EvGetVM k r)" "\<not> is_mutation (EvUpdateVMStatus v err)"
  "\<not> is_mutation (EvUpdateVM v err)" "\<not> is_mutation (EvRecord v ty reason msg)"
  "\<not> is_mutation (EvGetMachine api n g)"
  by (simp_all add: is_mutation_def)

lemma quiet_not_mutation:
  "probe_event e \<Longrightarrow> \<not> is_mutation e" "schedule_event e \<Longrightarrow> \<not> is_mutation e"
  by (cases e; simp add: probe_event_def schedule_event_def is_mutation_def)+

lemma status_not_mutation: "status_event vm inp e \<Longrightarrow> \<not> is_mutation e"
  by (auto simp: status_event_def)

text \<open>\<open>mutates k m\<close>: a run of \<open>m\<close> changes machines at most \<open>k\<close> times.\<close>

definition mutates :: "nat \<Rightarrow> 'a prog \<Rightarrow> bool" where
  "mutates k m \<longleftrightarrow> ensures m (\<lambda>_ es. length (mutations es) \<le> k)"

lemma mutates_quiet:
  assumes "ensures m Q" and "\<And>a es e. Q a es \<Longrightarrow> e \<in> set es \<Longrightarrow> \<not> is_mutation e"
  shows "mutates k m"
  unfolding mutates_def mutations_def
proof (rule ensures_mono [OF assms(1)])
  fix a es assume "Q a es"
  then have "filter is_mutation es = []" using assms(2) by (simp add: filter_empty_conv)
  then show "length (filter is_mutation es) \<le> k" by simp
qed

lemma updateStatus_mutates: "mutates k (updateStatus E vm inp)"
  by (rule mutates_quiet [OF updateStatus_ensures]) (auto simp: status_not_mutation)

lemma runtimeForNode_mutates: "mutates 0 (runtimeForNode E R n)"
  by (rule mutates_quiet [OF runtimeForNode_ensures]) (auto simp: quiet_not_mutation lookup_result_def)

lemma schedule_mutates: "mutates 0 (schedule E vm)"
  by (rule mutates_quiet [OF schedule_reads]) (auto simp: quiet_not_mutation)

lemma mutates_bind:
  assumes "mutates 0 m" and "\<And>a. mutates k (f a)"
  shows "mutates k (State_Monad.bind m f)"
  unfolding mutates_def
proof (rule ensures_bind_of [OF assms(1) [unfolded mutates_def]])
  fix a es assume "length (mutations es) \<le> 0"
  with assms(2) [of a] show "ensures (f a) (\<lambda>_ es'. length (mutations (es @ es')) \<le> k)"
    by (simp add: mutates_def)
qed

lemma mutates_mono: "mutates 0 m \<Longrightarrow> mutates k m"
  unfolding mutates_def by (erule ensures_mono) simp

lemma mutates_call:
  assumes "\<And>x. mutates 0 (f x)"
  shows "mutates 1 (State_Monad.bind (call g ev) f)"
  unfolding mutates_def
  by (rule ensures_bind_call, rule ensures_mono [OF assms [unfolded mutates_def]]) simp

lemma mutates_read:
  assumes "\<And>x. mutates k (f x)" and "\<And>x. \<not> is_mutation (ev x)"
  shows "mutates k (State_Monad.bind (call g ev) f)"
  unfolding mutates_def
  by (rule ensures_bind_call, rule ensures_mono [OF assms(1) [unfolded mutates_def]]) (simp add: assms(2))

lemma mutates_branches:
  "mutates k (State_Monad.return a)"
  "(b \<Longrightarrow> mutates k m) \<Longrightarrow> (\<not> b \<Longrightarrow> mutates k m') \<Longrightarrow> mutates k (if b then m else m')"
  "(x = None \<Longrightarrow> mutates k m) \<Longrightarrow> (\<And>y. x = Some y \<Longrightarrow> mutates k (f y)) \<Longrightarrow> mutates k (case x of None \<Rightarrow> m | Some y \<Rightarrow> f y)"
  by (cases x; auto simp: mutates_def intro: ensures_return)+

lemma record_event_mutates: "mutates k m \<Longrightarrow> mutates k (record_event R vm ty reason msg \<bind> (\<lambda>_. m))"
  unfolding record_event_def by (auto intro: mutates_read)

lemma updateStatusThenRequeue_mutates: "mutates k (updateStatusThenRequeue E vm inp)"
  unfolding updateStatusThenRequeue_def
  by (intro mutates_bind updateStatus_mutates) (auto split: prod.split option.split intro: mutates_branches)

lemma runtimeUnavailable_mutates: "mutates k (runtimeUnavailable E R vm n name err)"
  unfolding runtimeUnavailable_def by (intro record_event_mutates updateStatusThenRequeue_mutates)

lemmas mutates_intros = mutates_branches record_event_mutates updateStatusThenRequeue_mutates
  runtimeUnavailable_mutates updateStatus_mutates

lemma finishDelete_mutates: "mutates k (finishDelete E vm)"
  unfolding finishDelete_def call_defs by (intro mutates_read mutates_branches) simp

lemma reconcileMachine_mutates: "mutates 1 (reconcileMachine E R vm name n api m)"
  unfolding reconcileMachine_def call_defs
  by (intro mutates_intros mutates_call mutates_bind updateStatus_mutates)
    (auto split: prod.split option.split intro: mutates_branches)

lemma reconcileRuntime_mutates: "mutates 1 (reconcileRuntime E R vm name n api)"
  unfolding reconcileRuntime_def call_defs
  by (rule mutates_read)
    (auto simp del: One_nat_def split: sum.split
      intro!: mutates_intros mutates_call reconcileMachine_mutates)

lemma reconcileDelete_mutates: "mutates 1 (reconcileDelete E R vm name n)"
  unfolding reconcileDelete_def call_defs
  by (auto simp del: One_nat_def split: sum.split option.split
      intro!: mutates_intros mutates_call finishDelete_mutates mutates_bind [OF runtimeForNode_mutates])

lemma reconcileVM_mutates: "mutates 1 (reconcileVM E R vm)"
  unfolding reconcileVM_def reconcileBound_def reconcileUnbound_def call_defs Let_def
  by (auto simp del: One_nat_def split: sum.split option.split prod.split
      intro!: mutates_intros mutates_read reconcileRuntime_mutates reconcileDelete_mutates
        mutates_bind [OF runtimeForNode_mutates] mutates_bind [OF schedule_mutates])

lemma Reconcile_mutates: "mutates 1 (Reconcile E R req)"
  unfolding Reconcile_def call_defs
  by (auto simp del: One_nat_def split: sum.split
      intro!: mutates_read mutates_branches reconcileVM_mutates)

section \<open>A blocked deletion\<close>

lemma updateStatusThenRequeue_outcome:
  "ensures (updateStatusThenRequeue E vm inp)
     (\<lambda>(res, err) es. status_outcome E vm inp err es \<and> res = (if err = None then requeue else noRequeue))"
  unfolding updateStatusThenRequeue_def
  by (rule ensures_bind_of [OF updateStatus_outcome])
    (auto split: prod.splits option.splits intro!: ensures_rules)

text \<open>
  The run of a deletion whose runtime cannot be verified, for the error \<open>e\<close> of the lookup: probes, the event,
  and the status that says so.
\<close>

definition blocked_outcome ::
  "env \<Rightarrow> SmolVMReconciler \<Rightarrow> SmolVM \<Rightarrow> Result \<times> goerror option \<Rightarrow> event list \<Rightarrow> bool" where
  "blocked_outcome E R vm r es \<longleftrightarrow>
     (\<exists>e probes ss. es = probes @ (if rec_Recorder R then [EvRecord vm ''Warning'' ''DeletionBlocked'' (Error e)] else []) @ ss \<and>
        (\<forall>x \<in> set probes. probe_event x) \<and>
        status_outcome E vm (blockedInput (vm_NodeName vm) (machineNameOf vm) e) (snd r) ss \<and>
        fst r = (if snd r = None then requeue else noRequeue))"

lemma record_event_run:
  "ensures (record_event R vm ty reason msg) (\<lambda>_ es. es = (if rec_Recorder R then [EvRecord vm ty reason msg] else []))"
  unfolding record_event_def by (intro ensures_rules) simp_all

lemma ensures_runs_on: "mutates k m \<Longrightarrow> (\<And>a es. Q a es) \<Longrightarrow> ensures m Q"
  unfolding mutates_def by (erule ensures_mono) blast

lemma reconcileDelete_blocked:
  assumes "vm_NodeName vm \<noteq> []"
    and "map_get (meta_Annotations (vm_Meta vm)) ForceDeleteLocalStateAnnotation \<noteq> ''true''"
  shows "ensures (reconcileDelete E R vm (machineNameOf vm) (vm_NodeName vm))
    (\<lambda>r es. (\<exists>api. verified E R (vm_NodeName vm) api es) \<or> blocked_outcome E R vm r es)"
  unfolding reconcileDelete_def
proof (intro ensures_if ensures_bind_of [OF runtimeForNode_ensures] ensures_case_sum, goal_cases)
  case (3 r es err)
  have probes: "\<forall>x \<in> set es. probe_event x" using 3 by (simp add: lookup_result_def)
  show ?case
    by (rule ensures_bind_of [OF record_event_run], rule ensures_mono [OF updateStatusThenRequeue_outcome])
      (use probes in \<open>force simp: blocked_outcome_def\<close>)
next
  case (4 r es api)
  then have "verified E R (vm_NodeName vm) api (es @ es')" for es'
    using lookup_resultD(2) [of E R "vm_NodeName vm" r es api "[]"] by simp
  moreover have "mutates 1 (record_event R vm ''Normal'' ''Deleting'' (''deleting smolvm machine '' @ machineNameOf vm) \<bind>
     (\<lambda>_. DeleteMachine E api (machineNameOf vm) \<bind> (\<lambda>err. case err of
        Some e \<Rightarrow> if \<not> IsNotFound e then runtimeUnavailable E R vm (vm_NodeName vm) (machineNameOf vm) e
                  else finishDelete E vm
      | None \<Rightarrow> finishDelete E vm)))"
    unfolding call_defs by (intro mutates_intros mutates_call finishDelete_mutates)
  ultimately show ?case by (intro ensures_runs_on) blast+
qed (use assms in auto)

text \<open>What the status of a blocked deletion shows.\<close>

lemma blockedInput_shows:
  "status_Phase (nextStatus t latest (blockedInput n name e)) = ''Deleting''"
  "shows_condition (status_Conditions (nextStatus t latest (blockedInput n name e))) ConditionDeletionBlocked ConditionTrue
     ''RuntimeUnavailable'' (''owning node '' @ n @ '' is unavailable; local VM state may still exist'')
     (meta_Generation (vm_Meta latest))"
  "shows_condition (status_Conditions (nextStatus t latest (blockedInput n name e))) ConditionReconciled ConditionFalse
     ''DeletionBlocked'' (Error e) (meta_Generation (vm_Meta latest))"
proof -
  have "(t 5, ConditionDeletionBlocked, ConditionTrue, ''RuntimeUnavailable'',
      ''owning node '' @ n @ '' is unavailable; local VM state may still exist'') \<in> set (condition_updates t (blockedInput n name e))"
    "(t 4, ConditionReconciled, ConditionFalse, ''DeletionBlocked'', Error e) \<in> set (condition_updates t (blockedInput n name e))"
    by (simp_all add: condition_updates_def defaultScheduled_def blockedInput_def Let_def)
  note set = this [THEN nextConditions_shows]
  show "status_Phase (nextStatus t latest (blockedInput n name e)) = ''Deleting''" by (simp add: blockedInput_def)
  show "shows_condition (status_Conditions (nextStatus t latest (blockedInput n name e))) ConditionDeletionBlocked ConditionTrue
     ''RuntimeUnavailable'' (''owning node '' @ n @ '' is unavailable; local VM state may still exist'')
     (meta_Generation (vm_Meta latest))"
    and "shows_condition (status_Conditions (nextStatus t latest (blockedInput n name e))) ConditionReconciled ConditionFalse
     ''DeletionBlocked'' (Error e) (meta_Generation (vm_Meta latest))"
    using set by simp_all
qed

text \<open>The status of a blocked deletion at generation \<open>gen\<close>, for the reason \<open>why\<close>.\<close>

definition blocked_status :: "SmolVM \<Rightarrow> string \<Rightarrow> int64 \<Rightarrow> SmolVMStatus \<Rightarrow> bool" where
  "blocked_status vm why gen st \<longleftrightarrow>
     status_Phase st = ''Deleting'' \<and> status_NodeName st = vm_NodeName vm \<and>
     shows_condition (status_Conditions st) ConditionDeletionBlocked ConditionTrue ''RuntimeUnavailable''
       (''owning node '' @ vm_NodeName vm @ '' is unavailable; local VM state may still exist'') gen \<and>
     shows_condition (status_Conditions st) ConditionReconciled ConditionFalse ''DeletionBlocked'' why gen"

text \<open>Such a status is written, or the object carries it already, unless the object cannot be read.\<close>

definition reports_blocked :: "env \<Rightarrow> SmolVM \<Rightarrow> string \<Rightarrow> goerror option \<Rightarrow> event list \<Rightarrow> bool" where
  "reports_blocked E vm why err es \<longleftrightarrow>
     (\<exists>e. EvGetVM (vm_key vm) (Inl e) \<in> set es \<and> err = IgnoreNotFound e) \<or>
     (\<exists>latest st. EvGetVM (vm_key vm) (Inr latest) \<in> set es \<and> blocked_status vm why (meta_Generation (vm_Meta latest)) st \<and>
        (if env_DeepEqual E (vm_Status latest) st then err = None
         else EvUpdateVMStatus (latest\<lparr>vm_Status := st\<rparr>) err \<in> set es))"

lemma blocked_status_next: "blocked_status vm (Error e) (meta_Generation (vm_Meta latest))
    (nextStatus t latest (blockedInput (vm_NodeName vm) name e))"
  unfolding blocked_status_def by (intro conjI blockedInput_shows) (simp add: blockedInput_def)

lemma status_outcome_reports:
  assumes "status_outcome E vm (blockedInput (vm_NodeName vm) name e) err ss"
  shows "reports_blocked E vm (Error e) err ss"
  using assms unfolding status_outcome_def Let_def
proof (elim disjE exE conjE, goal_cases)
  case (2 latest t ts)
  then show ?case
    unfolding reports_blocked_def
    by (intro disjI2 exI [of _ latest] exI [of _ "nextStatus t latest (blockedInput (vm_NodeName vm) name e)"]
        conjI blocked_status_next) (simp_all split: if_splits)
qed (auto simp: reports_blocked_def)

lemma reports_blocked_mono: "reports_blocked E vm why err ss \<Longrightarrow> set ss \<subseteq> set es \<Longrightarrow> reports_blocked E vm why err es"
  unfolding reports_blocked_def by (elim disjE exE conjE) (metis subsetD)+

text \<open>Nothing else happens: no write of the object, no call that changes a machine.\<close>

lemma status_outcome_quiet:
  "status_outcome E vm inp err ss \<Longrightarrow> e \<in> set ss \<Longrightarrow> status_event vm inp e"
  by (auto simp: status_outcome_def status_event_def Let_def split: if_splits)

lemma blocked_outcome_quiet:
  assumes "blocked_outcome E R vm r es" and "e \<in> set es"
  shows "e \<noteq> EvUpdateVM v x" and "\<not> is_mutation e"
    and "e = EvUpdateVMStatus v x \<Longrightarrow> status_Phase (vm_Status v) = ''Deleting'' \<and>
       hasCondition (status_Conditions (vm_Status v)) ConditionDeletionBlocked ConditionTrue"
proof -
  obtain err probes ss where "e \<in> set probes \<or> (\<exists>msg. e = EvRecord vm ''Warning'' ''DeletionBlocked'' msg) \<or> e \<in> set ss"
    and "\<forall>x \<in> set probes. probe_event x"
    and "status_outcome E vm (blockedInput (vm_NodeName vm) (machineNameOf vm) err) (snd r) ss"
    using assms unfolding blocked_outcome_def by (elim exE conjE) (simp split: if_splits, blast+)
  then have kinds: "probe_event e \<or> (\<exists>msg. e = EvRecord vm ''Warning'' ''DeletionBlocked'' msg) \<or>
      status_event vm (blockedInput (vm_NodeName vm) (machineNameOf vm) err) e"
    using status_outcome_quiet by blast
  show "e \<noteq> EvUpdateVM v x" using kinds by (auto simp: status_event_def probe_event_def)
  show "\<not> is_mutation e" using kinds by (auto simp: quiet_not_mutation status_not_mutation)
  have has: "hasCondition (status_Conditions st) ty c" if "shows_condition (status_Conditions st) ty c reason msg gen"
    for st ty c reason msg gen
    using that findCondition_has unfolding shows_condition_def by (fastforce split: option.splits)
  show "e = EvUpdateVMStatus v x \<Longrightarrow> status_Phase (vm_Status v) = ''Deleting'' \<and>
       hasCondition (status_Conditions (vm_Status v)) ConditionDeletionBlocked ConditionTrue"
    using kinds blockedInput_shows(1) has [OF blockedInput_shows(2)]
    by (auto simp: status_event_def probe_event_def simp del: nextStatus_fields)
qed

text \<open>A run of \<open>Reconcile\<close> that finds \<open>vm\<close> goes on as \<open>reconcileVM\<close>.\<close>

lemma Reconcile_run:
  assumes "run_state (Reconcile E R req) h = (r, h @ es)" and "hd es = EvGetVM req (Inr vm)"
  obtains es' where "es = EvGetVM req (Inr vm) # es'"
    and "run_state (reconcileVM E R vm) (h @ [EvGetVM req (Inr vm)]) = (r, (h @ [EvGetVM req (Inr vm)]) @ es')"
proof (cases "env_GetVM E h req")
  case (Inl err)
  then have "es = [EvGetVM req (Inl err)]"
    using assms(1) by (simp add: Reconcile_def call_defs)
  with assms(2) show ?thesis by simp
next
  case (Inr vm')
  let ?h = "h @ [EvGetVM req (Inr vm')]"
  obtain r' es' where run: "run_state (reconcileVM E R vm') ?h = (r', ?h @ es')"
    using ensures_runs [OF reconcileVM_mutates [unfolded mutates_def]] by metis
  then have "(r', ?h @ es') = (r, h @ es)"
    using Inr assms(1) by (simp add: Reconcile_def call_defs)
  with run assms(2) that show ?thesis by auto
qed

end
