(* ===== verification/Reference_Cluster.thy ===== *)
theory Reference_Cluster
  imports Reconciler
begin

text \<open>
  Clusters whose API server stores what it is given and whose node runtimes do what they are told.  The
  state after a history of calls is the history replayed on the initial state (\<open>replay\<close>).  What the
  controller may expect of the answers is stated by locales: \<open>api_reader\<close> and \<open>api_store\<close>, the laws of
  reading from and of writing to the Kubernetes API, \<open>api_server\<close>, which has both, and \<open>cluster_service\<close>, which adds the laws of the node
  runtimes.  \<open>cluster_env\<close> answers every call
  from the state and satisfies both; it shows that the hypotheses of the properties can hold.
\<close>

section \<open>The state\<close>

record cluster =
  cl_vms :: "SmolVM list"
  cl_smolvmnodes :: "SmolVMNode list"
  cl_nodes :: "Node list"
  cl_machines :: "SmolVMRuntime \<Rightarrow> string \<Rightarrow> MachineInfo option"
  cl_now :: time

definition find_vm :: "NamespacedName \<Rightarrow> SmolVM list \<Rightarrow> SmolVM option" where
  "find_vm k vms = find (\<lambda>vm. vm_key vm = k) vms"

definition change_vm :: "NamespacedName \<Rightarrow> (SmolVM \<Rightarrow> SmolVM) \<Rightarrow> cluster \<Rightarrow> cluster" where
  "change_vm k f s = s\<lparr>cl_vms := map (\<lambda>vm. if vm_key vm = k then f vm else vm) (cl_vms s)\<rparr>"

text \<open>
  A write of the object (not of its status): the status is kept, and a deleted object without
  finalizers is removed.
\<close>

definition store_vm :: "SmolVM \<Rightarrow> cluster \<Rightarrow> cluster" where
  "store_vm v s =
     (if meta_DeletionTimestamp (vm_Meta v) \<noteq> None \<and> vm_Finalizers v = []
      then s\<lparr>cl_vms := filter (\<lambda>vm. vm_key vm \<noteq> vm_key v) (cl_vms s)\<rparr>
      else change_vm (vm_key v) (\<lambda>old. v\<lparr>vm_Status := vm_Status old\<rparr>) s)"

definition change_machine ::
  "SmolVMRuntime \<Rightarrow> string \<Rightarrow> (MachineInfo option \<Rightarrow> MachineInfo option) \<Rightarrow> cluster \<Rightarrow> cluster" where
  "change_machine api n f s = s\<lparr>cl_machines :=
     (cl_machines s)(api := (cl_machines s api)(n := f (cl_machines s api n)))\<rparr>"

section \<open>The effect of a call\<close>

definition created_machine :: "CreateMachineRequest \<Rightarrow> MachineInfo" where
  "created_machine r = \<lparr>mi_Name = create_Name r, mi_State = ''created'', mi_CPUs = create_CPUs r,
     mi_MemoryMiB = create_MemoryMiB r, mi_PID = None, mi_Ports = create_Ports r,
     mi_Network = create_Network r, mi_StorageGB = create_StorageGB r, mi_OverlayGB = create_OverlayGB r\<rparr>"

definition resized_machine :: "ResizeRequest \<Rightarrow> MachineInfo \<Rightarrow> MachineInfo" where
  "resized_machine r m = m\<lparr>
     mi_StorageGB := (case resize_StorageGB r of None \<Rightarrow> mi_StorageGB m | Some x \<Rightarrow> Some x),
     mi_OverlayGB := (case resize_OverlayGB r of None \<Rightarrow> mi_OverlayGB m | Some x \<Rightarrow> Some x)\<rparr>"

text \<open>What identifies a runtime: its address, not the credentials that a client of it carries.\<close>

fun runtime_key :: "SmolVMRuntime \<Rightarrow> SmolVMRuntime" where
  "runtime_key (HTTPRuntime c) = HTTPRuntime (c\<lparr>client_token := [], client_InsecureSkipVerify := False\<rparr>)"
| "runtime_key FactoryRuntime = FactoryRuntime"

fun apply_event :: "cluster \<Rightarrow> event \<Rightarrow> cluster" where
  "apply_event s (EvUpdateVM v None) = store_vm v s"
| "apply_event s (EvUpdateVMStatus v None) =
     change_vm (vm_key v) (\<lambda>old. old\<lparr>vm_Status := vm_Status v\<rparr>) s"
| "apply_event s (EvCreateMachine api r (Inr m)) = change_machine (runtime_key api) (mi_Name m) (\<lambda>_. Some m) s"
| "apply_event s (EvEnsureMachineRunning api n None) =
     change_machine (runtime_key api) n (map_option (\<lambda>m. m\<lparr>mi_State := ''running''\<rparr>)) s"
| "apply_event s (EvStopMachine api n None) =
     change_machine (runtime_key api) n (map_option (\<lambda>m. m\<lparr>mi_State := ''stopped''\<rparr>)) s"
| "apply_event s (EvResizeMachine api n r None) = change_machine (runtime_key api) n (map_option (resized_machine r)) s"
| "apply_event s (EvDeleteMachine api n None) = change_machine (runtime_key api) n (\<lambda>_. None) s"
| "apply_event s _ = s"

definition replay :: "cluster \<Rightarrow> event list \<Rightarrow> cluster" where
  "replay s h = foldl apply_event s h"

lemma replay_simps [simp]:
  "replay s [] = s"
  "replay s (e # h) = replay (apply_event s e) h"
  "replay s (h @ h') = replay (replay s h) h'"
  by (simp_all add: replay_def)

section \<open>The answers\<close>

definition answer :: "string \<Rightarrow> 'a option \<Rightarrow> goerror + 'a" where
  "answer what x = (case x of None \<Rightarrow> Inl (KubeError True (what @ '' not found'')) | Some y \<Rightarrow> Inr y)"

definition machine_answer :: "MachineInfo option \<Rightarrow> goerror + MachineInfo" where
  "machine_answer x = (case x of None \<Rightarrow> Inl (APIError 404 ''machine not found'') | Some m \<Rightarrow> Inr m)"

text \<open>The node behind an endpoint: the first one whose reported endpoint it is.\<close>

definition endpoint_of :: "SmolVMNode \<Rightarrow> SmolVMRuntime" where
  "endpoint_of node = HTTPRuntime (NewClientWithAuth
     (''https://'' @ ep_PodIP (ns_Endpoint (sn_Status node)) @ '':'' @
      int_dec (sint (ep_Port (ns_Endpoint (sn_Status node))))) [] [] False)"

definition behind :: "cluster \<Rightarrow> SmolVMRuntime \<Rightarrow> SmolVMNode option" where
  "behind s api = find (\<lambda>node. endpoint_of node = api) (cl_smolvmnodes s)"

lemma runtime_key_endpoint [simp]:
  "runtime_key (endpoint_of node) = endpoint_of node"
  "runtime_key (nodeClient E (ns_Endpoint (sn_Status node))) = endpoint_of node"
  by (simp_all add: endpoint_of_def nodeClient_def NewClientWithAuth_def Let_def)

section \<open>What the controller may expect\<close>

text \<open>
  Reads of single objects and of the nodes are answered from the current state; the helpers of the
  controller library do what they document.
\<close>

locale api_objects =
  fixes E :: env and s :: cluster
  assumes finalizers [simp]: "env_ContainsFinalizer E fs f \<longleftrightarrow> f \<in> set fs"
      "env_AddFinalizer E fs f = (if f \<in> set fs then fs else fs @ [f])"
      "env_RemoveFinalizer E fs f = filter (\<lambda>g. g \<noteq> f) fs"
    and deep_equal [simp]: "env_DeepEqual E a b \<longleftrightarrow> a = b"
    and clock [simp]: "env_Now E h = cl_now (replay s h)"
    and reads [simp]: "env_GetVM E h k = answer ''smolvm'' (find_vm k (cl_vms (replay s h)))"
      "env_GetSmolVMNode E h n =
         answer ''smolvmnode'' (find (\<lambda>node. sn_Name node = n) (cl_smolvmnodes (replay s h)))"
      "env_GetNode E h n =
         answer ''node'' (find (\<lambda>node. meta_Name (node_Meta node) = n) (cl_nodes (replay s h)))"
      "env_ListSmolVMNode E h = Inr (cl_smolvmnodes (replay s h))"

text \<open>The list of the VMs is current, too; and writes are accepted.\<close>

locale api_reader = api_objects E s for E :: env and s :: cluster +
  assumes listing [simp]: "env_ListVM E h = Inr (cl_vms (replay s h))"

locale api_store = api_objects E s for E :: env and s :: cluster +
  assumes writes [simp]: "env_UpdateVM E h vm = None" "env_UpdateVMStatus E h vm = None"

locale api_server = api_reader E s + api_store E s for E :: env and s :: cluster

text \<open>
  The runtime behind the endpoint of a node is healthy, is the one the node describes, and keeps the
  machines of the state.  Machine names, machines and create requests are those that can be carried to it
  (\<open>name_ok\<close>, \<open>machine_ok\<close>, \<open>request_ok\<close>).
\<close>

locale cluster_service = api_server E s for E :: env and s :: cluster +
  fixes name_ok :: "string \<Rightarrow> bool" and machine_ok :: "MachineInfo \<Rightarrow> bool"
    and request_ok :: "CreateMachineRequest \<Rightarrow> bool"
  assumes health_answer: "behind (replay s h) (endpoint_of node) = Some node \<Longrightarrow>
      \<exists>hl. env_Health E h (nodeClient E (ns_Endpoint (sn_Status node))) = Inr hl \<and> health_OK hl"
    and identity_answer: "behind (replay s h) (endpoint_of node) = Some node \<Longrightarrow>
      env_GetIdentity E h (nodeClient E (ns_Endpoint (sn_Status node))) =
        Inr \<lparr>id_NodeName = sn_Name node, id_NodeUID = ns_NodeUID (sn_Status node)\<rparr>"
    and capabilities_answer: "behind (replay s h) (endpoint_of node) = Some node \<Longrightarrow>
      \<exists>cap. env_Capabilities E h (nodeClient E (ns_Endpoint (sn_Status node))) = Inr cap \<and>
        cap_ProtocolVersion cap = ns_ProtocolVersion (sn_Status node)"
    and get_answer: "behind (replay s h) (endpoint_of node) = Some node \<Longrightarrow> name_ok n \<Longrightarrow>
      cl_machines (replay s h) (endpoint_of node) n = Some m \<Longrightarrow> machine_ok m \<Longrightarrow>
      env_GetMachine E h (nodeClient E (ns_Endpoint (sn_Status node))) n = Inr m"
    and get_missing: "behind (replay s h) (endpoint_of node) = Some node \<Longrightarrow> name_ok n \<Longrightarrow>
      cl_machines (replay s h) (endpoint_of node) n = None \<Longrightarrow>
      \<exists>e. env_GetMachine E h (nodeClient E (ns_Endpoint (sn_Status node))) n = Inl e \<and> IsNotFound e"
    and create_answer: "behind (replay s h) (endpoint_of node) = Some node \<Longrightarrow> request_ok r \<Longrightarrow>
      env_CreateMachine E h (nodeClient E (ns_Endpoint (sn_Status node))) r = Inr (created_machine r)"
    and change_answer: "behind (replay s h) (endpoint_of node) = Some node \<Longrightarrow> name_ok n \<Longrightarrow>
      cl_machines (replay s h) (endpoint_of node) n = Some m \<Longrightarrow>
      env_EnsureMachineRunning E h (nodeClient E (ns_Endpoint (sn_Status node))) n = None \<and>
      env_StopMachine E h (nodeClient E (ns_Endpoint (sn_Status node))) n = None \<and>
      env_ResizeMachine E h (nodeClient E (ns_Endpoint (sn_Status node))) n rr = None \<and>
      env_DeleteMachine E h (nodeClient E (ns_Endpoint (sn_Status node))) n = None"
    and delete_missing: "behind (replay s h) (endpoint_of node) = Some node \<Longrightarrow> name_ok n \<Longrightarrow>
      cl_machines (replay s h) (endpoint_of node) n = None \<Longrightarrow>
      \<exists>e. env_DeleteMachine E h (nodeClient E (ns_Endpoint (sn_Status node))) n = Some e \<and> IsNotFound e"
    and created_carried: "request_ok r \<Longrightarrow> machine_ok (created_machine r)"
    and resized_carried: "machine_ok m \<Longrightarrow> machine_ok (resized_machine rr m)"
    and switched_carried: "machine_ok m \<Longrightarrow> machine_ok (m\<lparr>mi_State := ''running''\<rparr>)"
      "machine_ok m \<Longrightarrow> machine_ok (m\<lparr>mi_State := ''stopped''\<rparr>)"

section \<open>The reference environment\<close>

definition unit_answer :: "MachineInfo option \<Rightarrow> goerror option" where
  "unit_answer x = (case x of None \<Rightarrow> Some (APIError 404 ''machine not found'') | Some m \<Rightarrow> None)"

definition cluster_env :: "cluster \<Rightarrow> env" where
  "cluster_env s = \<lparr>
     env_ContainsFinalizer = (\<lambda>fs f. f \<in> set fs),
     env_AddFinalizer = (\<lambda>fs f. if f \<in> set fs then fs else fs @ [f]),
     env_RemoveFinalizer = (\<lambda>fs f. filter (\<lambda>g. g \<noteq> f) fs),
     env_DeepEqual = (\<lambda>a b. a = b),
     env_Getenv = (\<lambda>_. []),
     env_Now = (\<lambda>h. cl_now (replay s h)),
     env_GetVM = (\<lambda>h k. answer ''smolvm'' (find_vm k (cl_vms (replay s h)))),
     env_GetSmolVMNode = (\<lambda>h n. answer ''smolvmnode''
       (find (\<lambda>node. sn_Name node = n) (cl_smolvmnodes (replay s h)))),
     env_GetNode = (\<lambda>h n. answer ''node''
       (find (\<lambda>node. meta_Name (node_Meta node) = n) (cl_nodes (replay s h)))),
     env_ListVM = (\<lambda>h. Inr (cl_vms (replay s h))),
     env_ListSmolVMNode = (\<lambda>h. Inr (cl_smolvmnodes (replay s h))),
     env_UpdateVM = (\<lambda>h vm. None),
     env_UpdateVMStatus = (\<lambda>h vm. None),
     env_Health = (\<lambda>h api. Inr \<lparr>health_OK = True, health_KVMAvailable = True,
       health_SocketReady = True, health_StateReady = True, health_Message = []\<rparr>),
     env_GetIdentity = (\<lambda>h api. case behind (replay s h) api of
         None \<Rightarrow> Inl (ErrorString ''connection refused'')
       | Some node \<Rightarrow> Inr \<lparr>id_NodeName = sn_Name node, id_NodeUID = ns_NodeUID (sn_Status node)\<rparr>),
     env_Capabilities = (\<lambda>h api. case behind (replay s h) api of
         None \<Rightarrow> Inl (ErrorString ''connection refused'')
       | Some node \<Rightarrow> Inr \<lparr>cap_RuntimeVersion = [],
           cap_ProtocolVersion = ns_ProtocolVersion (sn_Status node),
           cap_CPUs = 0, cap_MemoryMiB = 0, cap_StorageGiB = 0, cap_KVMAvailable = True\<rparr>),
     env_GetMachine = (\<lambda>h api n. machine_answer (cl_machines (replay s h) (runtime_key api) n)),
     env_CreateMachine = (\<lambda>h api r. Inr (created_machine r)),
     env_EnsureMachineRunning = (\<lambda>h api n. unit_answer (cl_machines (replay s h) (runtime_key api) n)),
     env_StopMachine = (\<lambda>h api n. unit_answer (cl_machines (replay s h) (runtime_key api) n)),
     env_DeleteMachine = (\<lambda>h api n. unit_answer (cl_machines (replay s h) (runtime_key api) n)),
     env_ResizeMachine = (\<lambda>h api n r. unit_answer (cl_machines (replay s h) (runtime_key api) n))\<rparr>"

lemma cluster_env_ok: "env_ok (cluster_env s)"
  by (auto simp: env_ok_def cluster_env_def)

lemma endpoint_of_nodeClient:
  "nodeClient (cluster_env s) (ns_Endpoint (sn_Status node)) = endpoint_of node"
  by (simp add: endpoint_of_def nodeClient_def cluster_env_def)

lemma cluster_env_simps [simp]:
  "env_ContainsFinalizer (cluster_env s) fs f \<longleftrightarrow> f \<in> set fs"
  "env_AddFinalizer (cluster_env s) fs f = (if f \<in> set fs then fs else fs @ [f])"
  "env_RemoveFinalizer (cluster_env s) fs f = filter (\<lambda>g. g \<noteq> f) fs"
  "env_DeepEqual (cluster_env s) a b \<longleftrightarrow> a = b"
  "env_Now (cluster_env s) h = cl_now (replay s h)"
  "env_GetVM (cluster_env s) h k = answer ''smolvm'' (find_vm k (cl_vms (replay s h)))"
  "env_GetSmolVMNode (cluster_env s) h n =
     answer ''smolvmnode'' (find (\<lambda>node. sn_Name node = n) (cl_smolvmnodes (replay s h)))"
  "env_GetNode (cluster_env s) h n =
     answer ''node'' (find (\<lambda>node. meta_Name (node_Meta node) = n) (cl_nodes (replay s h)))"
  "env_ListVM (cluster_env s) h = Inr (cl_vms (replay s h))"
  "env_ListSmolVMNode (cluster_env s) h = Inr (cl_smolvmnodes (replay s h))"
  "env_UpdateVM (cluster_env s) h vm = None"
  "env_UpdateVMStatus (cluster_env s) h vm = None"
  "env_Health (cluster_env s) h api = Inr \<lparr>health_OK = True, health_KVMAvailable = True,
     health_SocketReady = True, health_StateReady = True, health_Message = []\<rparr>"
  "behind (replay s h) api = Some node \<Longrightarrow> env_GetIdentity (cluster_env s) h api =
     Inr \<lparr>id_NodeName = sn_Name node, id_NodeUID = ns_NodeUID (sn_Status node)\<rparr>"
  "behind (replay s h) api = Some node \<Longrightarrow> env_Capabilities (cluster_env s) h api =
     Inr \<lparr>cap_RuntimeVersion = [], cap_ProtocolVersion = ns_ProtocolVersion (sn_Status node),
       cap_CPUs = 0, cap_MemoryMiB = 0, cap_StorageGiB = 0, cap_KVMAvailable = True\<rparr>"
  "env_GetMachine (cluster_env s) h api n = machine_answer (cl_machines (replay s h) (runtime_key api) n)"
  "env_CreateMachine (cluster_env s) h api r = Inr (created_machine r)"
  "env_EnsureMachineRunning (cluster_env s) h api n = unit_answer (cl_machines (replay s h) (runtime_key api) n)"
  "env_StopMachine (cluster_env s) h api n = unit_answer (cl_machines (replay s h) (runtime_key api) n)"
  "env_DeleteMachine (cluster_env s) h api n = unit_answer (cl_machines (replay s h) (runtime_key api) n)"
  "env_ResizeMachine (cluster_env s) h api n rr = unit_answer (cl_machines (replay s h) (runtime_key api) n)"
  by (simp_all add: cluster_env_def)

lemma answer_simps [simp]:
  "answer what (Some x) = Inr x" "answer what None = Inl (KubeError True (what @ '' not found''))"
  "machine_answer (Some m) = Inr m" "machine_answer None = Inl (APIError 404 ''machine not found'')"
  "unit_answer (Some m) = None" "unit_answer None = Some (APIError 404 ''machine not found'')"
  by (simp_all add: answer_def machine_answer_def unit_answer_def)

interpretation ref: cluster_service "cluster_env s" s "\<lambda>_. True" "\<lambda>_. True" "\<lambda>_. True" for s
  by unfold_locales (simp_all add: endpoint_of_nodeClient)

section \<open>How the state changes\<close>

lemma find_vm_key: "find_vm k vms = Some vm \<Longrightarrow> vm_key vm = k"
  by (auto simp: find_vm_def find_Some_iff)

lemma find_vm_change:
  assumes "\<And>vm. vm_key vm = k \<Longrightarrow> vm_key (f vm) = k"
  shows "find_vm k' (cl_vms (change_vm k f c)) =
    (if k' = k then map_option f (find_vm k (cl_vms c)) else find_vm k' (cl_vms c))"
proof -
  have "find_vm k' (map (\<lambda>vm. if vm_key vm = k then f vm else vm) vms) =
    (if k' = k then map_option f (find_vm k vms) else find_vm k' vms)" for vms
    by (induction vms) (use assms in \<open>auto simp: find_vm_def\<close>)
  then show ?thesis by (simp add: change_vm_def)
qed

lemma change_vm_frame [simp]:
  "cl_smolvmnodes (change_vm k f c) = cl_smolvmnodes c" "cl_nodes (change_vm k f c) = cl_nodes c"
  "cl_machines (change_vm k f c) = cl_machines c" "cl_now (change_vm k f c) = cl_now c"
  by (simp_all add: change_vm_def)

lemma change_machine_frame [simp]:
  "cl_smolvmnodes (change_machine api n g c) = cl_smolvmnodes c"
  "cl_nodes (change_machine api n g c) = cl_nodes c" "cl_vms (change_machine api n g c) = cl_vms c"
  "cl_now (change_machine api n g c) = cl_now c"
  "cl_machines (change_machine api n g c) api n = g (cl_machines c api n)"
  by (simp_all add: change_machine_def)

text \<open>Calls that leave the state as it is.\<close>

lemma replay_quiet:
  assumes "\<forall>e \<in> set es. probe_event e \<or> schedule_event e"
  shows "replay c es = c"
  using assms
proof (induction es)
  case (Cons e es)
  then have "apply_event c e = c"
    by (cases e) (auto simp: probe_event_def schedule_event_def)
  with Cons show ?case by simp
qed simp

section \<open>An example\<close>

definition example_vm :: SmolVM where
  "example_vm = emptyVM\<lparr>
     vm_Meta := emptyMeta\<lparr>meta_Name := ''vm'', meta_Namespace := ''default'', meta_UID := ''u1'',
       meta_Generation := 1, meta_Finalizers := [SmolVMFinalizer]\<rparr>,
     vm_Spec := emptySpec\<lparr>spec_Running := True, spec_Image := ''alpine'',
       spec_Resources := \<lparr>res_CPUs = 2, res_MemoryMiB = 512\<rparr>,
       spec_Storage := \<lparr>sto_StorageGiB = 20, sto_OverlayGiB = 0\<rparr>,
       spec_Network := \<lparr>net_Enabled = True, net_AllowedCIDRs = [],
         net_Ports = [\<lparr>HostPort = 8080, GuestPort = 80\<rparr>]\<rparr>\<rparr>\<rparr>"

definition example_bound_vm :: SmolVM where
  "example_bound_vm = example_vm\<lparr>vm_Status := emptyStatus\<lparr>status_NodeName := ''n1'', status_MachineName := ''m''\<rparr>\<rparr>"

definition example_deleted_vm :: SmolVM where
  "example_deleted_vm = example_bound_vm\<lparr>vm_Meta := (vm_Meta example_bound_vm)\<lparr>meta_DeletionTimestamp := Some 5\<rparr>\<rparr>"

definition example_condition :: "string \<Rightarrow> Condition" where
  "example_condition ty = \<lparr>cond_Type = ty, cond_Status = ConditionTrue, cond_ObservedGeneration = 0,
     cond_LastTransitionTime = 0, cond_Reason = ''Ready'', cond_Message = []\<rparr>"

definition example_smolvmnode :: SmolVMNode where
  "example_smolvmnode = \<lparr>sn_Meta = emptyMeta\<lparr>meta_Name := ''n1''\<rparr>,
     sn_Status = emptyNodeStatus\<lparr>ns_NodeUID := ''nu1'', ns_ProtocolVersion := ''v1alpha1'',
       ns_HeartbeatTime := Some 90,
       ns_Endpoint := \<lparr>ep_PodName = ''p'', ep_PodNamespace = ''s'', ep_PodIP = ''10.0.0.1'', ep_Port = 9443\<rparr>,
       ns_Allocatable := \<lparr>alloc_CPUs = 8, alloc_MemoryMiB = 4096, alloc_StorageGiB = 100\<rparr>,
       ns_Conditions := [example_condition SmolVMNodeConditionReady,
         example_condition SmolVMNodeConditionKVMAvailable,
         example_condition SmolVMNodeConditionRuntimeReady,
         example_condition SmolVMNodeConditionSchedulable]\<rparr>\<rparr>"

definition example_node :: Node where
  "example_node = emptyNode\<lparr>node_Meta := emptyMeta\<lparr>meta_Name := ''n1''\<rparr>,
     node_Conditions := [\<lparr>nc_Type = ''Ready'', nc_Status = ConditionTrue\<rparr>]\<rparr>"

definition example_key :: NamespacedName where
  "example_key = \<lparr>nn_Namespace = ''default'', nn_Name = ''vm''\<rparr>"

text \<open>A cluster with one node and one VM; \<open>m\<close> is its machine, if it has one.\<close>

definition example_cluster :: "SmolVM \<Rightarrow> MachineInfo option \<Rightarrow> cluster" where
  "example_cluster vm m = \<lparr>cl_vms = [vm], cl_smolvmnodes = [example_smolvmnode], cl_nodes = [example_node],
     cl_machines = (\<lambda>api n. if api = endpoint_of example_smolvmnode \<and> n = ''m'' then m else None),
     cl_now = 100\<rparr>"

definition example_reconciler :: SmolVMReconciler where
  "example_reconciler = \<lparr>rec_RuntimeFactory = False, rec_Recorder = True\<rparr>"

lemmas example_defs = example_vm_def example_bound_vm_def example_deleted_vm_def example_condition_def
  example_smolvmnode_def example_node_def example_key_def example_cluster_def example_reconciler_def
  zero_values condition_status node_condition_names vm_key_def

end
