(* ===== verification/Convergence.thy ===== *)
theory Convergence
  imports Reference_Cluster
begin

text \<open>
  What one call of \<open>Reconcile\<close> does in a cluster that keeps the contracts \<open>api_server\<close> and
  \<open>cluster_service\<close>: each step of the way from a new VM to its machine, as a lemma of those contracts.
\<close>

section \<open>Runs in the cluster\<close>

text \<open>\<open>settles s h m P\<close>: from the history \<open>h\<close>, the result of \<open>m\<close> and the state it leaves satisfy \<open>P\<close>.\<close>

definition settles :: "cluster \<Rightarrow> event list \<Rightarrow> 'a prog \<Rightarrow> ('a \<Rightarrow> cluster \<Rightarrow> bool) \<Rightarrow> bool" where
  "settles s h m P \<longleftrightarrow> (case run_state m h of (a, h') \<Rightarrow> P a (replay s h'))"

lemma settles_return [simp]: "settles s h (State_Monad.return a) P \<longleftrightarrow> P a (replay s h)"
  by (simp add: settles_def)

lemma settles_bind:
  assumes "settles s h m Q" and "\<And>a h'. Q a (replay s h') \<Longrightarrow> settles s h' (f a) P"
  shows "settles s h (State_Monad.bind m f) P"
proof (cases "run_state m h")
  case (Pair a h')
  with assms show ?thesis by (simp add: settles_def)
qed

lemma settles_mono: "settles s h m Q \<Longrightarrow> (\<And>a c. Q a c \<Longrightarrow> P a c) \<Longrightarrow> settles s h m P"
  by (auto simp: settles_def)

lemma settles_call [simp]:
  "settles s h (State_Monad.bind (call f ev) k) P \<longleftrightarrow> settles s (h @ [ev (f h)]) (k (f h)) P"
  by (simp add: settles_def)

lemma settles_record:
  "(\<And>h'. replay s h' = replay s h \<Longrightarrow> settles s h' m P) \<Longrightarrow>
   settles s h (record_event R vm ty reason msg \<bind> (\<lambda>_. m)) P"
  unfolding record_event_def by (simp split: if_splits)

section \<open>Frames\<close>

text \<open>Only the VM with key \<open>k\<close> differs, and it is now \<open>vm\<close>; nodes, clock and machines are as before.\<close>

definition only_vm :: "NamespacedName \<Rightarrow> SmolVM \<Rightarrow> cluster \<Rightarrow> cluster \<Rightarrow> bool" where
  "only_vm k vm c c' \<longleftrightarrow>
     find_vm k (cl_vms c') = Some vm \<and> (\<forall>k'. k' \<noteq> k \<longrightarrow> find_vm k' (cl_vms c') = find_vm k' (cl_vms c)) \<and>
     cl_smolvmnodes c' = cl_smolvmnodes c \<and> cl_nodes c' = cl_nodes c \<and> cl_now c' = cl_now c \<and>
     cl_machines c' = cl_machines c"

lemma vm_key_status [simp]: "vm_key (vm\<lparr>vm_Status := st\<rparr>) = vm_key vm"
  by (simp add: vm_key_def)

definition frozen :: "time \<Rightarrow> nat \<Rightarrow> time" where
  "frozen now i = [now, now, now, now, now, now] ! i"

section \<open>The states on the way\<close>

text \<open>Node \<open>n\<close> has an eligible \<open>SmolVMNode\<close> and its endpoint is its own.\<close>

definition owner_ready :: "cluster \<Rightarrow> string \<Rightarrow> SmolVMNode \<Rightarrow> bool" where
  "owner_ready c n node \<longleftrightarrow>
     find (\<lambda>node. sn_Name node = n) (cl_smolvmnodes c) = Some node \<and>
     smolVMNodeEligible (cl_now c) node \<and> behind c (endpoint_of node) = Some node"

text \<open>A node that the scheduler accepts in the state \<open>c\<close>.\<close>

definition accepts :: "cluster \<Rightarrow> SmolVM \<Rightarrow> SmolVMNode \<Rightarrow> bool" where
  "accepts c vm node \<longleftrightarrow>
     (\<exists>k8sNode. find (\<lambda>n. meta_Name (node_Meta n) = sn_Name node) (cl_nodes c) = Some k8sNode \<and>
        acceptable (cl_now c) node k8sNode vm (bound_of vm (cl_vms c)))"

text \<open>The machine agrees with the spec and needs no resize.\<close>

definition conforms :: "SmolVM \<Rightarrow> MachineInfo \<Rightarrow> bool" where
  "conforms vm m \<longleftrightarrow> validateImmutableRuntimeFields vm m = None \<and>
     validateStorageDoesNotShrink vm m = None \<and> \<not> needsStorageExpansion vm m"

abbreviation reconciledInput :: "string \<Rightarrow> string \<Rightarrow> MachineInfo \<Rightarrow> statusInput" where
  "reconciledInput n name m \<equiv> (observedInput n name m)
     \<lparr>in_Recon := ConditionTrue, in_ReconReason := ''Reconciled'',
      in_ReconMsg := ''desired state matches smolvm runtime state''\<rparr>"

abbreviation new_machine :: "SmolVM \<Rightarrow> MachineInfo" where
  "new_machine vm \<equiv> created_machine (buildCreateRequest vm (machineNameOf vm))"

lemma new_machine_conforms:
  "conforms vm (new_machine vm)" "conforms vm ((new_machine vm)\<lparr>mi_State := st\<rparr>)"
proof -
  have "samePorts (vm_Ports vm) (create_Ports (buildCreateRequest vm (machineNameOf vm)))"
    by (rule samePorts_created)
  then show "conforms vm (new_machine vm)" "conforms vm ((new_machine vm)\<lparr>mi_State := st\<rparr>)"
    by (auto simp: conforms_def validateImmutableRuntimeFields_def validateStorageDoesNotShrink_None
        needsStorageExpansion_def created_machine_def buildCreateRequest_def shrinks_def grows_def
        positive_def)
qed

text \<open>
  \<open>stage req vm0 node mo c\<close>: the object is \<open>vm0\<close> bound to \<open>node\<close> (only the status differs), the node's
  runtime is reachable and the machine there is \<open>mo\<close>.
\<close>

definition stage ::
  "NamespacedName \<Rightarrow> SmolVM \<Rightarrow> SmolVMNode \<Rightarrow> MachineInfo option \<Rightarrow> cluster \<Rightarrow> bool" where
  "stage req vm0 node mo c \<longleftrightarrow>
     (\<exists>vm. find_vm req (cl_vms c) = Some vm \<and> vm_Meta vm = vm_Meta vm0 \<and> vm_Spec vm = vm_Spec vm0 \<and>
        vm_NodeName vm = sn_Name node \<and> status_MachineName (vm_Status vm) = machineNameOf vm0) \<and>
     owner_ready c (sn_Name node) node \<and>
     cl_machines c (endpoint_of node) (machineNameOf vm0) = mo"

lemma only_vm_stage:
  assumes "stage req vm0 node mo c" and "only_vm req (vm\<lparr>vm_Status := st\<rparr>) c c'"
    and "vm_Meta vm = vm_Meta vm0" and "vm_Spec vm = vm_Spec vm0"
    and "status_NodeName st = sn_Name node" and "status_MachineName st = machineNameOf vm0"
  shows "stage req vm0 node mo c'"
  using assms by (auto simp: stage_def only_vm_def owner_ready_def behind_def)

lemma change_machine_stage:
  assumes "stage req vm0 node mo c"
  shows "stage req vm0 node (f mo) (change_machine (endpoint_of node) (machineNameOf vm0) f c)"
  using assms by (auto simp: stage_def owner_ready_def behind_def)

lemma buildCreateRequest_spec:
  "vm_Spec vm = vm_Spec vm0 \<Longrightarrow> buildCreateRequest vm n = buildCreateRequest vm0 n"
  by (simp add: buildCreateRequest_def)

lemma conforms_spec: "vm_Spec vm = vm_Spec vm0 \<Longrightarrow> conforms vm m \<longleftrightarrow> conforms vm0 m"
  by (simp only: conforms_def validateImmutableRuntimeFields_def validateStorageDoesNotShrink_def
      needsStorageExpansion_def)

text \<open>The finalizer changes nothing the scheduler looks at.\<close>

lemma addFinalizer_fields [simp]:
  "vm_Spec (addFinalizer E vm) = vm_Spec vm" "vm_Status (addFinalizer E vm) = vm_Status vm"
  "vm_UID (addFinalizer E vm) = vm_UID vm" "vm_key (addFinalizer E vm) = vm_key vm"
  "meta_DeletionTimestamp (vm_Meta (addFinalizer E vm)) = meta_DeletionTimestamp (vm_Meta vm)"
  "vm_Finalizers (addFinalizer E vm) = env_AddFinalizer E (vm_Finalizers vm) SmolVMFinalizer"
  "machineNameOf (addFinalizer E vm) = machineNameOf vm"
  by (simp_all add: addFinalizer_def vm_key_def machineNameOf_def stableMachineName_def)

lemma acceptable_spec:
  "vm_Spec v = vm_Spec vm \<Longrightarrow> acceptable now node k8sNode v bound \<longleftrightarrow> acceptable now node k8sNode vm bound"
  by (simp only: acceptable_def resourceFitReason_def no_port_conflict_def)

lemma bound_of_change:
  assumes "distinct (map vm_key vms)" and "find_vm k vms = Some vm" and "vm_UID v = vm_UID vm"
    and "\<And>old. vm_UID (f old) = vm_UID vm"
  shows "bound_of v (map (\<lambda>vm. if vm_key vm = k then f vm else vm) vms) = bound_of vm vms"
proof -
  have same: "vm_UID x = vm_UID vm" if "x \<in> set vms" "vm_key x = k" for x
    using that assms(1,2) by (auto simp: find_vm_def find_Some_iff distinct_conv_nth in_set_conv_nth)
  show ?thesis
    using same by (induction vms) (use assms(3,4) in \<open>auto simp: bound_of_def\<close>)
qed

lemma accepts_addFinalizer:
  assumes "distinct (map vm_key (cl_vms c))" and "find_vm k (cl_vms c) = Some vm"
  shows "accepts (change_vm k (\<lambda>old. (addFinalizer E vm)\<lparr>vm_Status := vm_Status old\<rparr>) c) (addFinalizer E vm) = accepts c vm"
proof -
  have "bound_of (addFinalizer E vm) (cl_vms (change_vm k (\<lambda>old. (addFinalizer E vm)\<lparr>vm_Status := vm_Status old\<rparr>) c)) =
      bound_of vm (cl_vms c)"
    using bound_of_change [OF assms, of "addFinalizer E vm" "\<lambda>old. (addFinalizer E vm)\<lparr>vm_Status := vm_Status old\<rparr>"]
    by (simp add: change_vm_def)
  moreover have "acceptable now node k8s (addFinalizer E vm) b \<longleftrightarrow> acceptable now node k8s vm b" for now node k8s b
    by (rule acceptable_spec) (simp add: addFinalizer_def)
  ultimately show ?thesis by (simp add: accepts_def fun_eq_iff)
qed

section \<open>The API server\<close>

context api_objects
begin

text \<open>The common start: the VM with key \<open>req\<close> is read and is ready for scheduling or for its runtime.\<close>

lemma Reconcile_settles:
  assumes "find_vm req (cl_vms (replay s h)) = Some vm"
    and "\<And>h'. replay s h' = replay s h \<Longrightarrow> settles s h' (reconcileVM E R vm) P"
  shows "settles s h (Reconcile E R req) P"
  using assms by (simp add: Reconcile_def call_defs)

end

context api_reader
begin

lemma quiet_from_cluster: "quiet_from E h"
  unfolding quiet_from_def by (auto simp: replay_quiet fun_eq_iff)

lemma node_ok_accepts:
  "node_ok E h vm (bound_of vm (cl_vms (replay s h))) = accepts (replay s h) vm"
  by (auto simp: node_ok_def accepts_def answer_def fun_eq_iff split: option.splits)

lemma schedule_settles:
  assumes "spec_NodeName (vm_Spec vm) = []"
    and "find (accepts (replay s h) vm) (cl_smolvmnodes (replay s h)) = Some node"
  shows "settles s h (schedule E vm) (\<lambda>r c'. c' = replay s h \<and> (\<exists>msg. r = Inr (sn_Name node, msg)))"
proof -
  obtain r es where run: "run_state (schedule E vm) h = (r, h @ es)"
    and es: "\<forall>e \<in> set es. schedule_event e"
    using ensures_runs [OF schedule_reads] by metis
  have "\<exists>msg. fst (run_state (schedule E vm) h) = Inr (sn_Name node, msg)"
    using schedule_quiet_unpinned [OF quiet_from_cluster assms(1), of h "cl_vms (replay s h)"
      "cl_smolvmnodes (replay s h)"] assms(2)
    by (simp add: node_ok_accepts name_of_def)
  then show ?thesis using run es by (simp add: settles_def replay_quiet)
qed

end

context api_store
begin

lemma updateStatus_settles:
  assumes "find_vm k (cl_vms (replay s h)) = Some latest" and "k = vm_key vm"
  shows "settles s h (updateStatus E vm inp) (\<lambda>r c'. r = (noRequeue, None) \<and>
    only_vm k (latest\<lparr>vm_Status := nextStatus (frozen (cl_now (replay s h))) latest inp\<rparr>) (replay s h) c')"
proof -
  let ?st = "nextStatus (frozen (cl_now (replay s h))) latest inp"
  have "find_vm k' (cl_vms (change_vm k (\<lambda>old. old\<lparr>vm_Status := ?st\<rparr>) (replay s h))) =
    (if k' = k then Some (latest\<lparr>vm_Status := ?st\<rparr>) else find_vm k' (cl_vms (replay s h)))" for k'
    by (subst find_vm_change) (use assms in auto)
  moreover have "vm_Status latest = ?st \<Longrightarrow> latest\<lparr>vm_Status := ?st\<rparr> = latest" by simp
  ultimately show ?thesis
    using assms find_vm_key [OF assms(1)]
    by (auto simp: updateStatus_def clock6_def call_defs Let_def frozen_def [abs_def] only_vm_def)
qed

lemma updateStatusThenRequeue_settles:
  assumes "find_vm k (cl_vms (replay s h)) = Some latest" and "k = vm_key vm"
  shows "settles s h (updateStatusThenRequeue E vm inp) (\<lambda>r c'. r = (requeue, None) \<and>
    only_vm k (latest\<lparr>vm_Status := nextStatus (frozen (cl_now (replay s h))) latest inp\<rparr>) (replay s h) c')"
  unfolding updateStatusThenRequeue_def
  by (rule settles_bind [OF updateStatus_settles [OF assms]]) auto

lemma Reconcile_finalizer:
  assumes "find_vm req (cl_vms (replay s h)) = Some vm"
    and "meta_DeletionTimestamp (vm_Meta vm) = None" and "SmolVMFinalizer \<notin> set (vm_Finalizers vm)"
  shows "settles s h (Reconcile E R req) (\<lambda>r c'. r = (noRequeue, None) \<and>
    c' = change_vm req (\<lambda>old. (addFinalizer E vm)\<lparr>vm_Status := vm_Status old\<rparr>) (replay s h))"
  by (rule Reconcile_settles [OF assms(1)])
    (use assms(2,3) find_vm_key [OF assms(1)] in
      \<open>simp add: reconcileVM_def call_defs Let_def addFinalizer_def store_vm_def vm_key_def\<close>)

lemma Reconcile_bound_to:
  assumes "find_vm req (cl_vms (replay s h)) = Some vm" and "admitted E vm" and "vm_NodeName vm = []" and "n \<noteq> []"
    and "\<And>h'. replay s h' = replay s h \<Longrightarrow>
      settles s h' (schedule E vm) (\<lambda>r c'. c' = replay s h' \<and> (\<exists>msg. r = Inr (n, msg)))"
  shows "settles s h (Reconcile E R req) (\<lambda>r c'. r = (requeue, None) \<and>
    only_vm req (vm\<lparr>vm_Status := nextStatus (frozen (cl_now (replay s h))) vm (scheduledInput n (machineNameOf vm))\<rparr>)
      (replay s h) c')"
  (is "settles s h _ ?P")
proof (rule Reconcile_settles [OF assms(1)])
  fix h' assume h': "replay s h' = replay s h"
  have "settles s h' (reconcileUnbound E vm (machineNameOf vm)) ?P"
    unfolding reconcileUnbound_def
  proof (rule settles_bind [OF assms(5) [OF h']])
    fix r :: "goerror + string \<times> string" and h'' assume "replay s h'' = replay s h' \<and> (\<exists>msg. r = Inr (n, msg))"
    then obtain msg where r: "r = Inr (n, msg)" and h'': "replay s h'' = replay s h" using h' by auto
    have "settles s h'' (updateStatusThenRequeue E vm (scheduledInput n (machineNameOf vm))) ?P"
      using updateStatusThenRequeue_settles [of req h'' vm, OF _ find_vm_key [OF assms(1), symmetric]] assms(1)
      unfolding h'' by blast
    then show "settles s h'' (case r of Inl err \<Rightarrow> State_Monad.return (noRequeue, Some err)
        | Inr (nodeName, msg) \<Rightarrow> if nodeName = [] then updateStatus E vm (pendingInput (machineNameOf vm) msg)
            else updateStatusThenRequeue E vm (scheduledInput nodeName (machineNameOf vm))) ?P"
      using r assms(4) by simp
  qed
  then show "settles s h' (reconcileVM E R vm) ?P"
    using assms(2,3) by (auto simp: reconcileVM_def admitted_def validateSpec_None [symmetric] Let_def)
qed

end

context api_server
begin

lemma Reconcile_bind:
  assumes "find_vm req (cl_vms (replay s h)) = Some vm"
    and "admitted E vm" and "vm_NodeName vm = []" and "spec_NodeName (vm_Spec vm) = []"
    and "find (accepts (replay s h) vm) (cl_smolvmnodes (replay s h)) = Some node" and "sn_Name node \<noteq> []"
  shows "settles s h (Reconcile E R req) (\<lambda>r c'. r = (requeue, None) \<and>
    only_vm req (vm\<lparr>vm_Status := nextStatus (frozen (cl_now (replay s h))) vm
      (scheduledInput (sn_Name node) (machineNameOf vm))\<rparr>) (replay s h) c')"
  by (rule Reconcile_bound_to [OF assms(1-3,6)], rule schedule_settles [OF assms(4)]) (simp add: assms(5))

end

section \<open>The runtime of the owner\<close>

context cluster_service
begin

text \<open>The client of the runtime of a node.\<close>

abbreviation api :: "SmolVMNode \<Rightarrow> SmolVMRuntime" where
  "api node \<equiv> nodeClient E (ns_Endpoint (sn_Status node))"

text \<open>The calls of the runtime API, as rules.\<close>

lemma probe_calls:
  assumes "behind (replay s h) (endpoint_of node) = Some node"
  shows "(\<And>hl h'. health_OK hl \<Longrightarrow> replay s h' = replay s h \<Longrightarrow> settles s h' (k (Inr hl)) P) \<Longrightarrow>
      settles s h (Health E (api node) \<bind> k) P"
    and "(\<And>h'. replay s h' = replay s h \<Longrightarrow> settles s h'
        (k' (Inr \<lparr>id_NodeName = sn_Name node, id_NodeUID = ns_NodeUID (sn_Status node)\<rparr>)) P) \<Longrightarrow>
      settles s h (GetIdentity E (api node) \<bind> k') P"
    and "(\<And>cap h'. cap_ProtocolVersion cap = ns_ProtocolVersion (sn_Status node) \<Longrightarrow> replay s h' = replay s h \<Longrightarrow>
        settles s h' (k'' (Inr cap)) P) \<Longrightarrow>
      settles s h (Capabilities E (api node) \<bind> k'') P"
  using health_answer [OF assms] capabilities_answer [OF assms]
  by (auto simp: call_defs identity_answer [OF assms])

lemma GetMachine_settles:
  assumes "behind (replay s h) (endpoint_of node) = Some node" and "name_ok n"
    and "\<And>m. cl_machines (replay s h) (endpoint_of node) n = Some m \<Longrightarrow> machine_ok m"
    and "\<And>r h'. replay s h' = replay s h \<Longrightarrow>
      (case cl_machines (replay s h) (endpoint_of node) n of Some m \<Rightarrow> r = Inr m | None \<Rightarrow> \<exists>e. r = Inl e \<and> IsNotFound e) \<Longrightarrow>
      settles s h' (k r) P"
  shows "settles s h (GetMachine E (api node) n \<bind> k) P"
  using get_answer [OF assms(1,2)] get_missing [OF assms(1,2)] assms(3,4)
  by (cases "cl_machines (replay s h) (endpoint_of node) n") (auto simp: call_defs)

lemma CreateMachine_settles:
  assumes "behind (replay s h) (endpoint_of node) = Some node" and "request_ok r"
    and "\<And>h'. replay s h' = change_machine (endpoint_of node) (create_Name r) (\<lambda>_. Some (created_machine r)) (replay s h) \<Longrightarrow>
      settles s h' (k (Inr (created_machine r))) P"
  shows "settles s h (CreateMachine E (api node) r \<bind> k) P"
  using assms(3) by (simp add: call_defs create_answer [OF assms(1,2)]) (simp add: created_machine_def)

lemma change_calls:
  assumes "behind (replay s h) (endpoint_of node) = Some node" and "name_ok n"
    and "cl_machines (replay s h) (endpoint_of node) n = Some m"
    and "\<And>h' f. replay s h' = change_machine (endpoint_of node) n (map_option f) (replay s h) \<Longrightarrow> f = g \<Longrightarrow>
      settles s h' (k None) P"
  shows "g = resized_machine rr \<Longrightarrow> settles s h (ResizeMachine E (api node) n rr \<bind> k) P"
    and "g = (\<lambda>m. m\<lparr>mi_State := ''running''\<rparr>) \<Longrightarrow> settles s h (EnsureMachineRunning E (api node) n \<bind> k) P"
    and "g = (\<lambda>m. m\<lparr>mi_State := ''stopped''\<rparr>) \<Longrightarrow> settles s h (StopMachine E (api node) n \<bind> k) P"
  using change_answer [OF assms(1-3), of rr] assms(4) by (auto simp: call_defs)

lemma DeleteMachine_settles:
  assumes "behind (replay s h) (endpoint_of node) = Some node" and "name_ok n"
    and "\<And>h' r. cl_machines (replay s h') (endpoint_of node) n = None \<Longrightarrow> cl_vms (replay s h') = cl_vms (replay s h) \<Longrightarrow>
      r = None \<or> (\<exists>e. r = Some e \<and> IsNotFound e) \<Longrightarrow> settles s h' (k r) P"
  shows "settles s h (DeleteMachine E (api node) n \<bind> k) P"
  using change_answer [OF assms(1,2)] delete_missing [OF assms(1,2)] assms(3)
  by (cases "cl_machines (replay s h) (endpoint_of node) n") (auto simp: call_defs)

lemma runtimeForNode_settles:
  assumes "owner_ready (replay s h) n node" and "\<not> rec_RuntimeFactory R"
  shows "settles s h (runtimeForNode E R n) (\<lambda>r c'. r = Inr (api node) \<and> c' = replay s h)"
proof -
  have "sn_Name node = n" "behind (replay s h) (endpoint_of node) = Some node"
    using assms(1) by (auto simp: owner_ready_def find_Some_iff)
  then show ?thesis
    using assms eligible_endpoint [of "cl_now (replay s h)" node]
    by (simp add: owner_ready_def runtimeForNode_def probeRuntime_def Now_def GetSmolVMNode_def Let_def)
      (rule probe_calls, simp, clarsimp)+
qed

lemma Reconcile_runtime:
  assumes "find_vm req (cl_vms (replay s h)) = Some vm"
    and "admitted E vm" and "vm_NodeName vm = n" and "n \<noteq> []"
    and "owner_ready (replay s h) n node" and "\<not> rec_RuntimeFactory R"
    and "\<And>h'. replay s h' = replay s h \<Longrightarrow>
      settles s h' (reconcileRuntime E R vm (machineNameOf vm) n (api node)) P"
  shows "settles s h (Reconcile E R req) P"
proof (rule Reconcile_settles [OF assms(1)])
  fix h' assume h': "replay s h' = replay s h"
  have "settles s h' (reconcileBound E R vm (machineNameOf vm) n) P"
    unfolding reconcileBound_def
    by (rule settles_bind [OF runtimeForNode_settles]) (use assms h' in auto)
  then show "settles s h' (reconcileVM E R vm) P"
    using assms(2-4) by (auto simp: reconcileVM_def admitted_def validateSpec_None [symmetric] Let_def)
qed

lemma Reconcile_create:
  assumes "find_vm req (cl_vms (replay s h)) = Some vm"
    and "admitted E vm" and "vm_NodeName vm = n" and "n \<noteq> []"
    and "owner_ready (replay s h) n node" and "\<not> rec_RuntimeFactory R"
    and "cl_machines (replay s h) (endpoint_of node) (machineNameOf vm) = None"
    and "name_ok (machineNameOf vm)" and "request_ok (buildCreateRequest vm (machineNameOf vm))"
  shows "settles s h (Reconcile E R req) (\<lambda>r c'. r = (requeue, None) \<and>
    only_vm req (vm\<lparr>vm_Status := nextStatus (frozen (cl_now (replay s h))) vm
      (createdInput n (machineNameOf vm) (new_machine vm))\<rparr>)
      (change_machine (endpoint_of node) (machineNameOf vm) (\<lambda>_. Some (new_machine vm)) (replay s h)) c')"
    (is "settles s h _ ?P")
proof (rule Reconcile_runtime [OF assms(1-6)])
  fix h' assume h': "replay s h' = replay s h"
  have node: "behind (replay s h) (endpoint_of node) = Some node" using assms(5) by (simp add: owner_ready_def)
  have status: "settles s h'' (updateStatusThenRequeue E vm (createdInput n (machineNameOf vm) (new_machine vm))) ?P"
    if h'': "replay s h'' = change_machine (endpoint_of node) (machineNameOf vm) (\<lambda>_. Some (new_machine vm)) (replay s h)"
    for h''
  proof -
    have "find_vm req (cl_vms (replay s h'')) = Some vm" using assms(1) by (simp only: h'' change_machine_frame)
    from updateStatusThenRequeue_settles [OF this find_vm_key [OF assms(1), symmetric]] show ?thesis
      by (simp only: h'' change_machine_frame)
  qed
  have "settles s h'' (CreateMachine E (api node) (buildCreateRequest vm (machineNameOf vm)) \<bind>
      (\<lambda>x. case x of Inl err \<Rightarrow> runtimeUnavailable E R vm n (machineNameOf vm) err
         | Inr machine \<Rightarrow> updateStatusThenRequeue E vm (createdInput n (machineNameOf vm) machine))) ?P"
    if "replay s h'' = replay s h" for h''
    by (rule CreateMachine_settles [OF _ assms(9)]) (use node that status in \<open>simp_all add: buildCreateRequest_def\<close>)
  then show "settles s h' (reconcileRuntime E R vm (machineNameOf vm) n (api node)) ?P"
    unfolding reconcileRuntime_def
    by (intro GetMachine_settles) (use node h' assms(7,8) in \<open>auto intro!: settles_record\<close>)
qed

end

end
