(* ===== verification/Settling.thy ===== *)
theory Settling
  imports Convergence
begin

text \<open>
  Repeated reconciliation in a cluster that keeps the contract \<open>cluster_service\<close>: a new VM is bound and gets a
  machine; the machine of a bound VM is resized, started or stopped until it is what the spec asks for, and
  the status says so, except where an expansion of a running machine is wanted, which stops all progress; a
  deleted VM is released.
\<close>

section \<open>A VM under control\<close>

lemma observedInput_fields [simp]:
  "in_Phase (observedInput n name m) = phaseFromMachine m" "in_NodeName (observedInput n name m) = n"
  "in_MachineName (observedInput n name m) = name"
  by (simp_all add: observedInput_def)

text \<open>A live VM with the finalizer whose spec is valid once it is bound to \<open>node\<close>.\<close>

definition governed :: "SmolVM \<Rightarrow> SmolVMNode \<Rightarrow> bool" where
  "governed vm0 node \<longleftrightarrow>
     meta_DeletionTimestamp (vm_Meta vm0) = None \<and> SmolVMFinalizer \<in> set (vm_Finalizers vm0) \<and>
     (\<forall>st. status_NodeName st = sn_Name node \<longrightarrow> spec_valid (vm0\<lparr>vm_Status := st\<rparr>)) \<and> sn_Name node \<noteq> []"

text \<open>What the checks that come before any change allow.\<close>

definition compatible :: "SmolVM \<Rightarrow> MachineInfo \<Rightarrow> bool" where
  "compatible vm m \<longleftrightarrow> validateImmutableRuntimeFields vm m = None \<and> validateStorageDoesNotShrink vm m = None"

lemma same_spec_checks:
  assumes "vm_Spec vm = vm_Spec vm0"
  shows "validateImmutableRuntimeFields vm m = validateImmutableRuntimeFields vm0 m"
    "validateStorageDoesNotShrink vm m = validateStorageDoesNotShrink vm0 m"
    "needsStorageExpansion vm m = needsStorageExpansion vm0 m" "buildResizeRequest vm = buildResizeRequest vm0"
  using assms by (simp_all only: validateImmutableRuntimeFields_def validateStorageDoesNotShrink_def
      needsStorageExpansion_def buildResizeRequest_def)

lemma conforms_compatible: "conforms vm m \<longleftrightarrow> compatible vm m \<and> \<not> needsStorageExpansion vm m"
  by (simp add: conforms_def compatible_def)

lemma resized_conforms:
  assumes "compatible vm m"
  shows "conforms vm (resized_machine (buildResizeRequest vm) m)"
  using assms
  by (auto simp: conforms_def compatible_def resized_machine_def buildResizeRequest_def validateImmutableRuntimeFields_def
      validateStorageDoesNotShrink_None needsStorageExpansion_def shrinks_def grows_def positive_def split: option.splits if_splits)

lemma state_conforms [simp]: "conforms vm (m\<lparr>mi_State := st\<rparr>) \<longleftrightarrow> conforms vm m"
  by (simp add: conforms_def validateImmutableRuntimeFields_def validateStorageDoesNotShrink_def needsStorageExpansion_def)

text \<open>What the user sees at the end.\<close>

definition shows_settled :: "NamespacedName \<Rightarrow> string \<Rightarrow> MachineInfo \<Rightarrow> cluster \<Rightarrow> bool" where
  "shows_settled req n m c \<longleftrightarrow>
     (\<exists>vm. find_vm req (cl_vms c) = Some vm \<and> vm_NodeName vm = n \<and>
        status_Phase (vm_Status vm) = phaseFromMachine m \<and>
        status_ObservedGeneration (vm_Status vm) = meta_Generation (vm_Meta vm) \<and>
        hasCondition (status_Conditions (vm_Status vm)) ConditionReady (readyFromMachine m) \<and>
        hasCondition (status_Conditions (vm_Status vm)) ConditionReconciled ConditionTrue)"

lemma observed_conditions:
  "hasCondition (nextConditions t gen (reconciledInput n name m) cs) ConditionReady (readyFromMachine m)"
  "hasCondition (nextConditions t gen (reconciledInput n name m) cs) ConditionReconciled ConditionTrue"
  by (rule nextConditions_has [of "t 1" _ _ "''Observed''" "''smolvm machine is '' @ mi_State m"],
      simp add: condition_updates_def defaultScheduled_def observedInput_def Let_def)
    (rule nextConditions_has [of "t 4" _ _ "''Reconciled''" "''desired state matches smolvm runtime state''"],
      simp add: condition_updates_def defaultScheduled_def observedInput_def Let_def)

text \<open>The machine the spec asks for, made from the machine there is.\<close>

definition wanted :: "SmolVM \<Rightarrow> MachineInfo \<Rightarrow> MachineInfo" where
  "wanted vm m =
     (let m' = (if needsStorageExpansion vm m then resized_machine (buildResizeRequest vm) m else m) in
      if spec_Running (vm_Spec vm) = (mi_State m = ''running'') then m'
      else m'\<lparr>mi_State := if spec_Running (vm_Spec vm) then ''running'' else ''stopped''\<rparr>)"

lemma resized_state [simp]: "mi_State (resized_machine r m) = mi_State m"
  by (simp add: resized_machine_def)

lemma wanted_conforms:
  assumes "compatible vm m"
  shows "conforms vm (wanted vm m)" and "spec_Running (vm_Spec vm) = (mi_State (wanted vm m) = ''running'')"
proof -
  have "conforms vm (if needsStorageExpansion vm m then resized_machine (buildResizeRequest vm) m else m)"
    using assms resized_conforms [OF assms] by (simp add: conforms_compatible)
  then show "conforms vm (wanted vm m)" by (simp add: wanted_def Let_def)
  show "spec_Running (vm_Spec vm) = (mi_State (wanted vm m) = ''running'')" by (simp add: wanted_def Let_def)
qed

lemma state_checks [simp]:
  "compatible vm (m\<lparr>mi_State := st\<rparr>) \<longleftrightarrow> compatible vm m"
  "needsStorageExpansion vm (m\<lparr>mi_State := st\<rparr>) \<longleftrightarrow> needsStorageExpansion vm m"
  by (simp_all add: compatible_def validateImmutableRuntimeFields_def validateStorageDoesNotShrink_def needsStorageExpansion_def)

text \<open>A running machine whose storage is to be expanded is neither resized nor stopped; the status tells why.\<close>

definition asks_to_stop :: "NamespacedName \<Rightarrow> cluster \<Rightarrow> bool" where
  "asks_to_stop req c \<longleftrightarrow>
     (\<exists>vm cond. find_vm req (cl_vms c) = Some vm \<and>
        findCondition ConditionReconciled (status_Conditions (vm_Status vm)) = Some cond \<and>
        cond_Status cond = ConditionFalse \<and> cond_Reason cond = ''ResizeRequiresStoppedMachine'' \<and>
        cond_Message cond = ''set spec.running=false before expanding storage'')"

abbreviation resizePendingInput :: "string \<Rightarrow> string \<Rightarrow> MachineInfo \<Rightarrow> statusInput" where
  "resizePendingInput n name m \<equiv> (observedInput n name m)
     \<lparr>in_ReadyReason := ''ResizePending'', in_ReadyMsg := ''storage expansion requires the machine to be stopped'',
      in_ReconReason := ''ResizeRequiresStoppedMachine'',
      in_ReconMsg := ''set spec.running=false before expanding storage''\<rparr>"

lemma pending_condition:
  "\<exists>cond. findCondition ConditionReconciled (nextConditions t gen (resizePendingInput n name m) cs) = Some cond \<and>
     cond_Status cond = ConditionFalse \<and> cond_Reason cond = ''ResizeRequiresStoppedMachine'' \<and>
     cond_Message cond = ''set spec.running=false before expanding storage''"
proof -
  have "(t 4, ConditionReconciled, ConditionFalse, ''ResizeRequiresStoppedMachine'',
      ''set spec.running=false before expanding storage'') \<in> set (condition_updates t (resizePendingInput n name m))"
    by (simp add: condition_updates_def defaultScheduled_def observedInput_def emptyInput_def Let_def)
  from nextConditions_found [OF this, of gen cs] show ?thesis by auto
qed

text \<open>What the user of a running VM sees.\<close>

definition shows_running :: "NamespacedName \<Rightarrow> string \<Rightarrow> cluster \<Rightarrow> bool" where
  "shows_running req n c \<longleftrightarrow>
     (\<exists>vm. find_vm req (cl_vms c) = Some vm \<and> vm_NodeName vm = n \<and>
        status_Phase (vm_Status vm) = ''Running'' \<and>
        status_ObservedGeneration (vm_Status vm) = meta_Generation (vm_Meta vm) \<and>
        hasCondition (status_Conditions (vm_Status vm)) ConditionReady ConditionTrue \<and>
        hasCondition (status_Conditions (vm_Status vm)) ConditionReconciled ConditionTrue)"

lemma settled_running: "mi_State m = ''running'' \<Longrightarrow> shows_settled req n m c \<Longrightarrow> shows_running req n c"
  by (auto simp: shows_settled_def shows_running_def phaseFromMachine_def readyFromMachine_def)

section \<open>Repeated reconciliation\<close>

fun reconcileTimes :: "env \<Rightarrow> SmolVMReconciler \<Rightarrow> NamespacedName \<Rightarrow> nat \<Rightarrow> unit prog" where
  "reconcileTimes E R req 0 = State_Monad.return ()"
| "reconcileTimes E R req (Suc n) = do { _ \<leftarrow> Reconcile E R req; reconcileTimes E R req n }"

lemma find_vm_removed: "find_vm k (filter (\<lambda>vm. vm_key vm \<noteq> k) vms) = None"
  by (auto simp: find_vm_def find_None_iff)

lemma removeFinalizer_fields [simp]:
  "vm_key (removeFinalizer E vm) = vm_key vm"
  "meta_DeletionTimestamp (vm_Meta (removeFinalizer E vm)) = meta_DeletionTimestamp (vm_Meta vm)"
  "vm_Finalizers (removeFinalizer E vm) = env_RemoveFinalizer E (vm_Finalizers vm) SmolVMFinalizer"
  by (simp_all add: removeFinalizer_def vm_key_def)

section \<open>One reconciliation of a bound VM\<close>

context cluster_service
begin

lemma stage_vm:
  assumes "stage req vm0 node mo c" and "governed vm0 node"
  obtains vm where "find_vm req (cl_vms c) = Some vm" and "vm_key vm = req"
    and "vm_Meta vm = vm_Meta vm0" and "vm_Spec vm = vm_Spec vm0"
    and "vm_NodeName vm = sn_Name node" and "machineNameOf vm = machineNameOf vm0" and "admitted E vm"
proof -
  obtain vm where vm: "find_vm req (cl_vms c) = Some vm" "vm_Meta vm = vm_Meta vm0"
    "vm_Spec vm = vm_Spec vm0" "vm_NodeName vm = sn_Name node"
    "status_MachineName (vm_Status vm) = machineNameOf vm0"
    using assms(1) by (auto simp: stage_def)
  have "vm0\<lparr>vm_Status := vm_Status vm\<rparr> = vm" using vm by (auto intro: SmolVM.equality)
  then have "spec_valid vm" using assms(2) vm(4) unfolding governed_def by metis
  with vm assms(2) find_vm_key [OF vm(1)] show thesis
    by (intro that [of vm]) (simp_all add: governed_def admitted_def machineNameOf_def)
qed

lemma stage_node:
  assumes "stage req vm0 node mo c"
  shows "owner_ready c (sn_Name node) node" and "behind c (endpoint_of node) = Some node"
    and "cl_machines c (endpoint_of node) (machineNameOf vm0) = mo"
  using assms by (auto simp: stage_def owner_ready_def)

lemma stage_machine:
  assumes stage: "stage req vm0 node (Some m) (replay s h)" and gov: "governed vm0 node"
    and "\<not> rec_RuntimeFactory R" and name: "name_ok (machineNameOf vm0)" and "machine_ok m"
    and step: "\<And>vm h'. replay s h' = replay s h \<Longrightarrow> find_vm req (cl_vms (replay s h)) = Some vm \<Longrightarrow> vm_key vm = req \<Longrightarrow>
      vm_Meta vm = vm_Meta vm0 \<Longrightarrow> vm_Spec vm = vm_Spec vm0 \<Longrightarrow>
      settles s h' (reconcileMachine E R vm (machineNameOf vm0) (sn_Name node) (api node) m) P"
  shows "settles s h (Reconcile E R req) P"
proof -
  obtain vm where vm: "find_vm req (cl_vms (replay s h)) = Some vm" "vm_key vm = req" "vm_Meta vm = vm_Meta vm0"
    "vm_Spec vm = vm_Spec vm0" "vm_NodeName vm = sn_Name node" "machineNameOf vm = machineNameOf vm0" "admitted E vm"
    by (rule stage_vm [OF stage gov])
  have "sn_Name node \<noteq> []" using gov by (simp add: governed_def)
  then show ?thesis
  proof (rule Reconcile_runtime [OF vm(1,7,5) _ stage_node(1) [OF stage] assms(3)], goal_cases)
    case (1 h')
    show ?case
      unfolding vm(6) reconcileRuntime_def
      by (rule GetMachine_settles) (use 1 stage_node [OF stage] name assms(5) step [OF _ vm(1-4)] in auto)
  qed
qed

lemma stage_resize:
  assumes stage: "stage req vm0 node (Some m) (replay s h)" and gov: "governed vm0 node"
    and "\<not> rec_RuntimeFactory R" and name: "name_ok (machineNameOf vm0)" and "machine_ok m"
    and check: "compatible vm0 m" "needsStorageExpansion vm0 m" "mi_State m \<noteq> ''running''"
  shows "settles s h (Reconcile E R req) (\<lambda>_. stage req vm0 node (Some (resized_machine (buildResizeRequest vm0) m)))"
    (is "settles s h _ ?P")
proof (rule stage_machine [OF assms(1-5)])
  fix vm :: SmolVM and h' assume h': "replay s h' = replay s h" and spec: "vm_Spec vm = vm_Spec vm0"
  have "settles s h'' (ResizeMachine E (api node) (machineNameOf vm0) (buildResizeRequest vm0) \<bind> (\<lambda>err. case err of
      Some e \<Rightarrow> runtimeUnavailable E R vm (sn_Name node) (machineNameOf vm0) e
    | None \<Rightarrow> State_Monad.return (requeue, None))) ?P" if "replay s h'' = replay s h" for h''
    by (rule change_calls(1) [OF _ name _ _ refl])
      (use that stage_node [OF stage] change_machine_stage [OF stage, of "map_option f" for f] in auto)
  then show "settles s h' (reconcileMachine E R vm (machineNameOf vm0) (sn_Name node) (api node) m) ?P"
    unfolding reconcileMachine_def same_spec_checks [OF spec]
    using check h' by (simp add: compatible_def settles_record)
qed

lemma stage_switch:
  assumes stage: "stage req vm0 node (Some m) (replay s h)" and gov: "governed vm0 node"
    and "\<not> rec_RuntimeFactory R" and name: "name_ok (machineNameOf vm0)" and "machine_ok m"
    and check: "conforms vm0 m" "spec_Running (vm_Spec vm0) \<noteq> (mi_State m = ''running'')"
  shows "settles s h (Reconcile E R req)
    (\<lambda>_. stage req vm0 node (Some (m\<lparr>mi_State := if spec_Running (vm_Spec vm0) then ''running'' else ''stopped''\<rparr>)))"
    (is "settles s h _ ?P")
proof (rule stage_machine [OF assms(1-5)])
  fix vm :: SmolVM and h' assume h': "replay s h' = replay s h" and spec: "vm_Spec vm = vm_Spec vm0"
  let ?k = "\<lambda>err. case err of Some e \<Rightarrow> runtimeUnavailable E R vm (sn_Name node) (machineNameOf vm0) e
    | None \<Rightarrow> State_Monad.return (requeue, None)"
  note facts = stage_node [OF stage] change_machine_stage [OF stage, of "map_option f" for f]
  have start: "settles s h'' (EnsureMachineRunning E (api node) (machineNameOf vm0) \<bind> ?k) ?P"
    if "replay s h'' = replay s h" "spec_Running (vm_Spec vm0)" for h''
    by (rule change_calls(2) [OF _ name _ _ refl]) (use that facts in auto)
  have stop: "settles s h'' (StopMachine E (api node) (machineNameOf vm0) \<bind> ?k) ?P"
    if "replay s h'' = replay s h" "\<not> spec_Running (vm_Spec vm0)" for h''
    by (rule change_calls(3) [OF _ name _ _ refl]) (use that facts in auto)
  show "settles s h' (reconcileMachine E R vm (machineNameOf vm0) (sn_Name node) (api node) m) ?P"
    unfolding reconcileMachine_def same_spec_checks [OF spec] spec
    using check h' start stop
    by (cases "spec_Running (vm_Spec vm0)") (simp_all add: conforms_def settles_record)
qed

text \<open>A reconciliation that writes the status and changes nothing else.\<close>

lemma stage_status:
  assumes "stage req vm0 node mo (replay s h)" and "replay s h' = replay s h"
    and "find_vm req (cl_vms (replay s h)) = Some vm" and "vm_key vm = req"
    and "vm_Meta vm = vm_Meta vm0" and "vm_Spec vm = vm_Spec vm0"
    and "in_NodeName inp = sn_Name node" and "in_MachineName inp = machineNameOf vm0"
  shows "settles s h' (updateStatus E vm inp) (\<lambda>r c'. r = (noRequeue, None) \<and> stage req vm0 node mo c' \<and>
    find_vm req (cl_vms c') = Some (vm\<lparr>vm_Status := nextStatus (frozen (cl_now (replay s h))) vm inp\<rparr>))"
proof (rule settles_mono [OF updateStatus_settles [of req h' vm vm]], goal_cases)
  case (3 r c')
  then have only: "only_vm req (vm\<lparr>vm_Status := nextStatus (frozen (cl_now (replay s h))) vm inp\<rparr>) (replay s h) c'"
    using assms(2) by simp
  have "stage req vm0 node mo c'" by (rule only_vm_stage [OF assms(1) only assms(5,6)]) (use assms in simp_all)
  then show ?case using 3 only by (simp add: only_vm_def)
qed (use assms in simp_all)

lemma stage_settled:
  assumes stage: "stage req vm0 node (Some m) (replay s h)" and gov: "governed vm0 node"
    and "\<not> rec_RuntimeFactory R" and name: "name_ok (machineNameOf vm0)" and "machine_ok m"
    and check: "conforms vm0 m" "spec_Running (vm_Spec vm0) = (mi_State m = ''running'')"
  shows "settles s h (Reconcile E R req)
    (\<lambda>_ c'. stage req vm0 node (Some m) c' \<and> shows_settled req (sn_Name node) m c')" (is "settles s h _ ?P")
proof (rule stage_machine [OF assms(1-5)])
  fix vm h'
  assume h': "replay s h' = replay s h" and vm: "find_vm req (cl_vms (replay s h)) = Some vm" "vm_key vm = req"
    "vm_Meta vm = vm_Meta vm0" and spec: "vm_Spec vm = vm_Spec vm0"
  let ?inp = "reconciledInput (sn_Name node) (machineNameOf vm0) m"
  have "settles s h' (updateStatus E vm ?inp \<bind>
      (\<lambda>(result, err). case err of Some e \<Rightarrow> State_Monad.return (result, Some e)
                                | None \<Rightarrow> State_Monad.return (requeue, None))) ?P"
    by (rule settles_bind [OF stage_status [OF stage h' vm spec]])
      (auto simp: shows_settled_def observed_conditions)
  then show "settles s h' (reconcileMachine E R vm (machineNameOf vm0) (sn_Name node) (api node) m) ?P"
    unfolding reconcileMachine_def same_spec_checks [OF spec] spec using check by (auto simp: conforms_def)
qed

lemma stage_stuck:
  assumes stage: "stage req vm0 node (Some m) (replay s h)" and gov: "governed vm0 node"
    and "\<not> rec_RuntimeFactory R" and name: "name_ok (machineNameOf vm0)" and "machine_ok m"
    and check: "compatible vm0 m" "needsStorageExpansion vm0 m" "mi_State m = ''running''"
  shows "settles s h (Reconcile E R req) (\<lambda>_ c'. stage req vm0 node (Some m) c' \<and> asks_to_stop req c')"
    (is "settles s h _ ?P")
proof (rule stage_machine [OF assms(1-5)])
  fix vm h'
  assume h': "replay s h' = replay s h" and vm: "find_vm req (cl_vms (replay s h)) = Some vm" "vm_key vm = req"
    "vm_Meta vm = vm_Meta vm0" and spec: "vm_Spec vm = vm_Spec vm0"
  have "settles s h' (updateStatus E vm (resizePendingInput (sn_Name node) (machineNameOf vm0) m)) ?P"
    by (rule settles_mono [OF stage_status [OF stage h' vm spec]])
      (auto simp: asks_to_stop_def pending_condition)
  then show "settles s h' (reconcileMachine E R vm (machineNameOf vm0) (sn_Name node) (api node) m) ?P"
    unfolding reconcileMachine_def same_spec_checks [OF spec] using check by (simp add: compatible_def)
qed

section \<open>Convergence\<close>

lemma reconcileTimes_settles:
  assumes "settles s h (Reconcile E R req) (\<lambda>_. I)"
    and "\<And>h'. I (replay s h') \<Longrightarrow> settles s h' (reconcileTimes E R req n) (\<lambda>_. J)"
  shows "settles s h (reconcileTimes E R req (Suc n)) (\<lambda>_. J)"
  by (simp, rule settles_bind [OF assms(1)]) (use assms(2) in simp)

lemma reconcileTimes_invariant:
  assumes "n = 0 \<Longrightarrow> J (replay s h)" and "I (replay s h)"
    and "\<And>h'. I (replay s h') \<Longrightarrow> settles s h' (Reconcile E R req) (\<lambda>_ c'. I c' \<and> J c')"
  shows "settles s h (reconcileTimes E R req n) (\<lambda>_ c'. I c' \<and> J c')"
  using assms(1,2)
proof (induction n arbitrary: h)
  case (Suc n)
  show ?case by (rule reconcileTimes_settles [OF assms(3)]) (use Suc in auto)
qed simp

lemma switch_converges:
  assumes stage: "stage req vm0 node (Some m) (replay s h)" and gov: "governed vm0 node"
    and R: "\<not> rec_RuntimeFactory R" and name: "name_ok (machineNameOf vm0)" and "machine_ok m" and conf: "conforms vm0 m"
  shows "settles s h (reconcileTimes E R req (Suc (Suc n)))
    (\<lambda>_ c'. stage req vm0 node (Some (wanted vm0 m)) c' \<and> shows_settled req (sn_Name node) (wanted vm0 m) c')"
proof -
  have observe: "settles s h' (reconcileTimes E R req (Suc k))
      (\<lambda>_ c'. stage req vm0 node (Some m') c' \<and> shows_settled req (sn_Name node) m' c')"
    if "stage req vm0 node (Some m') (replay s h')" "machine_ok m'" "conforms vm0 m'"
      "spec_Running (vm_Spec vm0) = (mi_State m' = ''running'')" for k m' h'
    by (rule reconcileTimes_invariant) (use that stage_settled [OF _ gov R name that(2-4)] in auto)
  show ?thesis
  proof (cases "spec_Running (vm_Spec vm0) = (mi_State m = ''running'')")
    case True
    then have "wanted vm0 m = m" using conf by (simp add: wanted_def conforms_compatible)
    with observe [OF stage assms(5) conf True, of "Suc n"] show ?thesis by (simp only:)
  next
    case False
    let ?m = "m\<lparr>mi_State := if spec_Running (vm_Spec vm0) then ''running'' else ''stopped''\<rparr>"
    have w: "wanted vm0 m = ?m" using conf False by (simp add: wanted_def conforms_compatible)
    show ?thesis
      unfolding w
      by (rule reconcileTimes_settles [OF stage_switch [OF assms False]], rule observe)
        (use conf switched_carried [OF assms(5)] in \<open>simp_all split: if_splits\<close>)
  qed
qed

lemma bound_vm_converges:
  assumes stage: "stage req vm0 node (Some m) (replay s h)" and gov: "governed vm0 node"
    and R: "\<not> rec_RuntimeFactory R" and name: "name_ok (machineNameOf vm0)" and m: "machine_ok m"
    and comp: "compatible vm0 m" and idle: "needsStorageExpansion vm0 m \<Longrightarrow> mi_State m \<noteq> ''running''"
  shows "settles s h (reconcileTimes E R req (3 + n))
    (\<lambda>_ c'. stage req vm0 node (Some (wanted vm0 m)) c' \<and> shows_settled req (sn_Name node) (wanted vm0 m) c')"
proof -
  have "settles s h (reconcileTimes E R req (Suc (Suc (Suc n))))
    (\<lambda>_ c'. stage req vm0 node (Some (wanted vm0 m)) c' \<and> shows_settled req (sn_Name node) (wanted vm0 m) c')"
  proof (cases "needsStorageExpansion vm0 m")
    case False
    then have "conforms vm0 m" using comp by (simp add: conforms_compatible)
    from switch_converges [OF assms(1-5) this, of "Suc n"] show ?thesis .
  next
    case True
    let ?m = "resized_machine (buildResizeRequest vm0) m"
    have "wanted vm0 ?m = wanted vm0 m"
      using True resized_conforms [OF comp] by (simp add: wanted_def conforms_compatible resized_machine_def Let_def)
    with reconcileTimes_settles [OF stage_resize [OF assms(1-6) True idle [OF True]]
        switch_converges [OF _ gov R name resized_carried [OF m] resized_conforms [OF comp], where n = n]]
    show ?thesis by simp
  qed
  then show ?thesis by (simp only: eval_nat_numeral BitM.simps add_Suc add_0)
qed

lemma stuck_forever:
  assumes stage: "stage req vm0 node (Some m) (replay s h)" and gov: "governed vm0 node"
    and "\<not> rec_RuntimeFactory R" and name: "name_ok (machineNameOf vm0)" and "machine_ok m"
    and check: "compatible vm0 m" "needsStorageExpansion vm0 m" "mi_State m = ''running''"
  shows "settles s h (reconcileTimes E R req (Suc n)) (\<lambda>_ c'. stage req vm0 node (Some m) c' \<and> asks_to_stop req c')"
  by (rule reconcileTimes_invariant) (use stage stage_stuck [OF _ assms(2-)] in auto)

section \<open>A new VM\<close>

lemma stage_create:
  assumes stage: "stage req vm0 node None (replay s h)" and gov: "governed vm0 node" and R: "\<not> rec_RuntimeFactory R"
    and name: "name_ok (machineNameOf vm0)" and req: "request_ok (buildCreateRequest vm0 (machineNameOf vm0))"
  shows "settles s h (Reconcile E R req) (\<lambda>_. stage req vm0 node (Some (new_machine vm0)))"
proof -
  obtain vm where vm: "find_vm req (cl_vms (replay s h)) = Some vm" "vm_key vm = req" "vm_Meta vm = vm_Meta vm0"
    "vm_Spec vm = vm_Spec vm0" "vm_NodeName vm = sn_Name node" "machineNameOf vm = machineNameOf vm0" "admitted E vm"
    by (rule stage_vm [OF stage gov])
  have create: "buildCreateRequest vm n = buildCreateRequest vm0 n" for n by (rule buildCreateRequest_spec [OF vm(4)])
  have "sn_Name node \<noteq> []" using gov by (simp add: governed_def)
  note step = Reconcile_create [OF vm(1,7,5) this stage_node(1) [OF stage] R]
  show ?thesis
  proof (rule settles_mono [OF step], goal_cases)
    case (4 r c')
    then show ?case
      using only_vm_stage [OF change_machine_stage [OF stage, of "\<lambda>_. Some (new_machine vm0)"] _ vm(3,4)]
      unfolding vm(6) create by (auto simp: createdInput_def)
  qed (use stage_node [OF stage] name req in \<open>simp_all add: vm(6) create\<close>)
qed

lemma stage_bind:
  assumes "find_vm req (cl_vms (replay s h)) = Some vm0" and "governed vm0 node" and "spec_valid vm0"
    and "vm_NodeName vm0 = []" and "spec_NodeName (vm_Spec vm0) = []"
    and "find (accepts (replay s h) vm0) (cl_smolvmnodes (replay s h)) = Some node"
    and "owner_ready (replay s h) (sn_Name node) node"
    and "cl_machines (replay s h) (endpoint_of node) (machineNameOf vm0) = mo"
  shows "settles s h (Reconcile E R req) (\<lambda>_. stage req vm0 node mo)"
proof -
  have adm: "admitted E vm0" and name: "sn_Name node \<noteq> []"
    using assms(2,3) by (auto simp: admitted_def governed_def)
  show ?thesis
    by (rule settles_mono [OF Reconcile_bind [OF assms(1) adm assms(4-6) name]])
      (use assms(7,8) in \<open>auto simp: stage_def only_vm_def owner_ready_def behind_def scheduledInput_def\<close>)
qed

lemma new_vm_converges:
  assumes found: "find_vm req (cl_vms s) = Some vm" and keys: "distinct (map vm_key (cl_vms s))"
    and new: "meta_DeletionTimestamp (vm_Meta vm) = None" "SmolVMFinalizer \<notin> set (vm_Finalizers vm)"
      "vm_NodeName vm = []" "spec_NodeName (vm_Spec vm) = []" "spec_valid vm"
    and node: "find (accepts s vm) (cl_smolvmnodes s) = Some node" "sn_Name node \<noteq> []"
      "owner_ready s (sn_Name node) node" "cl_machines s (endpoint_of node) (machineNameOf vm) = None"
    and R: "\<not> rec_RuntimeFactory R"
    and wire: "name_ok (machineNameOf vm)" "request_ok (buildCreateRequest vm (machineNameOf vm))"
  shows "settles s [] (reconcileTimes E R req (5 + n)) (\<lambda>_ c'.
    shows_settled req (sn_Name node) (wanted vm (new_machine vm)) c' \<and>
    cl_machines c' (endpoint_of node) (machineNameOf vm) = Some (wanted vm (new_machine vm)))"
proof -
  let ?vm = "addFinalizer E vm"
  let ?m = "wanted ?vm (new_machine ?vm)"
  let ?J = "\<lambda>_ c'. stage req ?vm node (Some ?m) c' \<and> shows_settled req (sn_Name node) ?m c'"
  let ?times = "reconcileTimes E R req"
  have gov: "governed ?vm node" and valid: "spec_valid ?vm"
    using new node(2) by (auto simp: governed_def spec_valid_def)
  have request: "buildCreateRequest ?vm name = buildCreateRequest vm name" for name
    by (rule buildCreateRequest_spec) simp
  have names: "name_ok (machineNameOf ?vm)" "request_ok (buildCreateRequest ?vm (machineNameOf ?vm))"
    using wire by (simp_all add: request)
  have create: "settles s h (?times (Suc (Suc (Suc n)))) ?J" if "stage req ?vm node None (replay s h)" for h
    by (rule reconcileTimes_settles [OF stage_create [OF that gov R names]
          switch_converges [OF _ gov R names(1) created_carried [OF names(2)] new_machine_conforms(1)]])
  have bind: "settles s h (?times (Suc (Suc (Suc (Suc n))))) ?J"
    if "replay s h = change_vm req (\<lambda>old. ?vm\<lparr>vm_Status := vm_Status old\<rparr>) s" for h
  proof (rule reconcileTimes_settles [OF stage_bind [OF _ gov valid] create])
    show "find_vm req (cl_vms (replay s h)) = Some ?vm"
      unfolding that by (subst find_vm_change) (use found find_vm_key [OF found] in auto)
  qed (use that new node accepts_addFinalizer [OF keys found] in \<open>simp_all add: owner_ready_def behind_def\<close>)
  have "settles s [] (?times (Suc (Suc (Suc (Suc (Suc n)))))) ?J"
    by (rule reconcileTimes_settles [OF settles_mono [OF Reconcile_finalizer [OF _ new(1,2)]] bind])
      (use found in auto)
  then have "settles s [] (?times (5 + n)) ?J"
    by (simp only: eval_nat_numeral BitM.simps add_Suc add_0)
  moreover have "?m = wanted vm (new_machine vm)"
    using same_spec_checks [of ?vm vm] by (simp add: wanted_def request)
  ultimately show ?thesis
    by (auto simp: stage_def elim!: settles_mono)
qed

section \<open>Deletion\<close>

lemma finishDelete_settles:
  assumes "vm_key vm = req" and "meta_DeletionTimestamp (vm_Meta vm) \<noteq> None"
    and "set (vm_Finalizers vm) \<subseteq> {SmolVMFinalizer}"
  shows "settles s h (finishDelete E vm) (\<lambda>r c'. r = (noRequeue, None) \<and>
    find_vm req (cl_vms c') = None \<and> cl_machines c' = cl_machines (replay s h))"
proof -
  have "filter (\<lambda>g. g \<noteq> SmolVMFinalizer) (vm_Finalizers vm) = []"
    using assms(3) by (auto simp: filter_empty_conv)
  with assms(1,2) show ?thesis
    by (simp add: finishDelete_def call_defs store_vm_def find_vm_removed)
qed

lemma deleted_vm_released:
  assumes found: "find_vm req (cl_vms (replay s h)) = Some vm"
    and deleted: "meta_DeletionTimestamp (vm_Meta vm) \<noteq> None"
    and fins: "set (vm_Finalizers vm) \<subseteq> {SmolVMFinalizer}"
    and owner: "vm_NodeName vm = n" "n \<noteq> []" "owner_ready (replay s h) n node"
    and R: "\<not> rec_RuntimeFactory R" and name: "name_ok (machineNameOf vm)"
  shows "settles s h (Reconcile E R req) (\<lambda>r c'. r = (noRequeue, None) \<and>
    find_vm req (cl_vms c') = None \<and> cl_machines c' (endpoint_of node) (machineNameOf vm) = None)"
  (is "settles s h _ ?P")
proof (rule Reconcile_settles [OF found])
  fix h' assume h': "replay s h' = replay s h"
  have finish: "settles s h'' (finishDelete E vm) ?P"
    if "cl_machines (replay s h'') (endpoint_of node) (machineNameOf vm) = None" for h''
    by (rule settles_mono [OF finishDelete_settles [OF find_vm_key [OF found] deleted fins]])
      (use that in auto)
  have delete: "settles s h'' (DeleteMachine E (api node) (machineNameOf vm) \<bind> (\<lambda>err. case err of
        Some e \<Rightarrow> if \<not> IsNotFound e then runtimeUnavailable E R vm n (machineNameOf vm) e else finishDelete E vm
      | None \<Rightarrow> finishDelete E vm)) ?P" if "replay s h'' = replay s h" for h''
    by (rule DeleteMachine_settles [OF _ name]) (use that owner(3) finish in \<open>auto simp: owner_ready_def\<close>)
  have "settles s h' (reconcileDelete E R vm (machineNameOf vm) n) ?P"
    unfolding reconcileDelete_def using owner(2)
    by (simp, intro settles_bind [OF runtimeForNode_settles [OF _ R]])
      (use owner h' delete in \<open>auto intro!: settles_record\<close>)
  then show "settles s h' (reconcileVM E R vm) ?P"
    using deleted owner(1) by (auto simp: reconcileVM_def Let_def)
qed

end

end
