(* ===== verification/Example_Runs.thy ===== *)
theory Example_Runs
  imports Settling
begin

text \<open>
  Concrete runs of \<open>Reconcile\<close> in the example cluster of \<open>Reference_Cluster\<close>, evaluated step by step: a
  deletion, a create, a start, a stop and a resize.  The witnesses of the properties use them.
\<close>

section \<open>Facts of the example\<close>

lemma example_machineName [simp]:
  "machineNameOf example_bound_vm = ''m''" "machineNameOf example_deleted_vm = ''m''"
  by (simp_all add: machineNameOf_def example_defs)

lemma example_owner_ready:
  "owner_ready (example_cluster vm m) ''n1'' example_smolvmnode"
  by (simp add: owner_ready_def behind_def example_defs smolVMNodeEligible_def)

lemma example_spec_valid: "spec_valid example_vm" "spec_valid example_bound_vm"
  by (simp_all add: spec_valid_def example_defs)

lemma example_accepts: "find (accepts (example_cluster example_vm m) example_vm) [example_smolvmnode] = Some example_smolvmnode"
  by (simp add: accepts_def acceptable_def example_defs smolVMNodeEligible_def matchesNodeSelector_def
      kubernetesNodeReady_def resourceFitReason_def no_port_conflict_def bound_of_def)

definition example_machine :: MachineInfo where
  "example_machine = \<lparr>mi_Name = ''m'', mi_State = ''running'', mi_CPUs = 2, mi_MemoryMiB = 512, mi_PID = None,
     mi_Ports = [\<lparr>port_Host = 8080, port_Guest = 80\<rparr>], mi_Network = True,
     mi_StorageGB = Some 20, mi_OverlayGB = None\<rparr>"

abbreviation example_api :: SmolVMRuntime where
  "example_api \<equiv> endpoint_of example_smolvmnode"

lemma example_found:
  "find_vm example_key (cl_vms (example_cluster example_vm m)) = Some example_vm"
  "find_vm example_key (cl_vms (example_cluster example_bound_vm m)) = Some example_bound_vm"
  "find_vm example_key (cl_vms (example_cluster example_deleted_vm m)) = Some example_deleted_vm"
  by (simp_all add: find_vm_def example_defs)

text \<open>The events of \<open>runtimeForNode\<close> in the example cluster.\<close>

definition example_probe :: "event list" where
  "example_probe =
    [EvGetSmolVMNode ''n1'' (Inr example_smolvmnode), EvNow 100,
     EvHealth example_api (Inr \<lparr>health_OK = True, health_KVMAvailable = True, health_SocketReady = True,
       health_StateReady = True, health_Message = []\<rparr>),
     EvGetIdentity example_api (Inr \<lparr>id_NodeName = ''n1'', id_NodeUID = ''nu1''\<rparr>),
     EvCapabilities example_api (Inr \<lparr>cap_RuntimeVersion = [], cap_ProtocolVersion = ''v1alpha1'',
       cap_CPUs = 0, cap_MemoryMiB = 0, cap_StorageGiB = 0, cap_KVMAvailable = True\<rparr>)]"

lemma example_runtimeForNode:
  assumes "replay s h = example_cluster vm m"
  shows "run_state (runtimeForNode (cluster_env s) example_reconciler ''n1'') h =
    (Inr example_api, h @ example_probe)"
proof -
  have "find (\<lambda>node. sn_Name node = ''n1'') (cl_smolvmnodes (replay s h)) = Some example_smolvmnode"
    "cl_now (replay s h) = 100" "behind (replay s h) example_api = Some example_smolvmnode"
    "smolVMNodeEligible 100 example_smolvmnode"
    using assms example_owner_ready [of vm m] by (simp_all add: owner_ready_def) (simp add: example_cluster_def)+
  moreover have "sn_Name example_smolvmnode = ''n1''" "ns_NodeUID (sn_Status example_smolvmnode) = ''nu1''"
    "ns_ProtocolVersion (sn_Status example_smolvmnode) = ''v1alpha1''"
    "ep_PodIP (ns_Endpoint (sn_Status example_smolvmnode)) \<noteq> []"
    "ep_Port (ns_Endpoint (sn_Status example_smolvmnode)) \<noteq> 0" "\<not> rec_RuntimeFactory example_reconciler"
    by (simp_all add: example_smolvmnode_def example_reconciler_def)
  ultimately show ?thesis
    by (simp add: runtimeForNode_def probeRuntime_def call_defs endpoint_of_nodeClient example_probe_def)
qed

section \<open>Runs of the reconciler in the example cluster\<close>

lemma example_quiet: "replay (example_cluster vm m) example_probe = example_cluster vm m"
  by (rule replay_quiet) (simp add: example_probe_def probe_event_def)

lemma example_machines: "cl_machines (example_cluster vm m) example_api ''m'' = m"
  by (simp add: example_cluster_def)

lemma example_recorder: "rec_Recorder example_reconciler"
  by (simp add: example_reconciler_def)

lemma example_vm_facts:
  "vm_NodeName example_vm = []" "vm_NodeName example_bound_vm = ''n1''" "vm_NodeName example_deleted_vm = ''n1''"
  "meta_DeletionTimestamp (vm_Meta example_vm) = None" "meta_DeletionTimestamp (vm_Meta example_bound_vm) = None"
  "meta_DeletionTimestamp (vm_Meta example_deleted_vm) = Some 5"
  "SmolVMFinalizer \<in> set (vm_Finalizers example_vm)" "SmolVMFinalizer \<in> set (vm_Finalizers example_bound_vm)"
  "validateSpec example_vm = None" "validateSpec example_bound_vm = None"
  "vm_key example_bound_vm = example_key"
  "spec_Running (vm_Spec example_bound_vm)"
  by (simp_all add: validateSpec_None example_spec_valid) (simp_all add: example_defs)

lemma example_delete_run:
  "run_state (Reconcile (cluster_env (example_cluster example_deleted_vm (Some m))) example_reconciler example_key) [] =
   ((noRequeue, None),
    (EvGetVM example_key (Inr example_deleted_vm) # example_probe @
     [EvRecord example_deleted_vm ''Normal'' ''Deleting'' ''deleting smolvm machine m'',
      EvDeleteMachine example_api ''m'' None]) @
    [EvUpdateVM (removeFinalizer (cluster_env (example_cluster example_deleted_vm (Some m))) example_deleted_vm) None])"
proof -
  let ?c = "example_cluster example_deleted_vm (Some m)"
  have run: "run_state (runtimeForNode (cluster_env ?c) example_reconciler ''n1'')
      [EvGetVM example_key (Inr example_deleted_vm)] =
    (Inr example_api, [EvGetVM example_key (Inr example_deleted_vm)] @ example_probe)"
    by (rule example_runtimeForNode [where vm = example_deleted_vm and m = "Some m"]) simp
  show ?thesis
    by (simp add: Reconcile_def reconcileVM_def reconcileDelete_def finishDelete_def record_event_def call_defs
        Let_def example_found example_vm_facts example_recorder run example_quiet example_machines)
qed

abbreviation bound_env :: "MachineInfo option \<Rightarrow> env" where
  "bound_env m \<equiv> cluster_env (example_cluster example_bound_vm m)"

definition bound_prefix :: "event list" where
  "bound_prefix = EvGetVM example_key (Inr example_bound_vm) # example_probe"

lemma example_bound_run:
  "run_state (Reconcile (bound_env m) example_reconciler example_key) [] =
   run_state (reconcileRuntime (bound_env m) example_reconciler example_bound_vm ''m'' ''n1'' example_api) bound_prefix"
proof -
  have run: "run_state (runtimeForNode (bound_env m) example_reconciler ''n1'')
      [EvGetVM example_key (Inr example_bound_vm)] = (Inr example_api, bound_prefix)"
    using example_runtimeForNode [where vm = example_bound_vm and m = m and
        s = "example_cluster example_bound_vm m" and h = "[EvGetVM example_key (Inr example_bound_vm)]"]
    by (simp add: bound_prefix_def)
  show ?thesis
    by (simp add: Reconcile_def reconcileVM_def reconcileBound_def call_defs Let_def example_found
        example_vm_facts run)
qed

lemma bound_quiet: "replay (example_cluster example_bound_vm m) bound_prefix = example_cluster example_bound_vm m"
  by (simp add: bound_prefix_def example_quiet)

text \<open>The machine is missing: it is created, then the status is written.\<close>

lemma example_create_run:
  "\<exists>post v. run_state (Reconcile (bound_env None) example_reconciler example_key) [] =
   ((requeue, None),
    (bound_prefix @ [EvGetMachine example_api ''m'' (Inl (APIError 404 ''machine not found'')),
      EvRecord example_bound_vm ''Normal'' ''Creating'' ''creating smolvm machine m'']) @
    EvCreateMachine example_api (buildCreateRequest example_bound_vm ''m'') (Inr (new_machine example_bound_vm)) #
    post @ [EvUpdateVMStatus v None])"
proof -
  let ?inp = "createdInput ''n1'' ''m'' (new_machine example_bound_vm)"
  have "status_Phase (nextStatus t example_bound_vm ?inp) \<noteq> status_Phase (vm_Status example_bound_vm)" for t
    by (simp add: createdInput_def phaseFromMachine_def created_machine_def example_bound_vm_def emptyStatus_def)
  then have "vm_Status example_bound_vm \<noteq> nextStatus t example_bound_vm ?inp" for t by metis
  then show ?thesis
    by (simp add: example_bound_run reconcileRuntime_def updateStatusThenRequeue_def updateStatus_def clock6_def
        record_event_def call_defs Let_def example_vm_facts example_found example_recorder bound_quiet example_machines)
qed

lemma example_status_run:
  obtains es v where
    "run_state (Reconcile (bound_env None) example_reconciler example_key) [] = ((requeue, None), [] @ es)"
    and "hd es = EvGetVM example_key (Inr example_bound_vm)" and "EvUpdateVMStatus v None \<in> set es"
  using example_create_run by (fastforce simp: bound_prefix_def)

text \<open>The machine exists and is stopped: it is started.\<close>

lemma example_start_run:
  "run_state (Reconcile (bound_env (Some (example_machine\<lparr>mi_State := ''stopped''\<rparr>))) example_reconciler example_key) [] =
   ((requeue, None),
    (bound_prefix @ [EvGetMachine example_api ''m'' (Inr (example_machine\<lparr>mi_State := ''stopped''\<rparr>)),
      EvRecord example_bound_vm ''Normal'' ''Starting'' ''starting smolvm machine m'']) @
    [EvEnsureMachineRunning example_api ''m'' None])"
proof -
  have "conforms example_bound_vm (example_machine\<lparr>mi_State := ''stopped''\<rparr>)"
    by (simp add: conforms_def validateImmutableRuntimeFields_def samePorts_mset validateStorageDoesNotShrink_None
        needsStorageExpansion_def shrinks_def grows_def example_machine_def example_defs)
  then show ?thesis
    unfolding conforms_def
    by (simp add: example_bound_run reconcileRuntime_def reconcileMachine_def record_event_def call_defs
        example_vm_facts example_recorder bound_quiet example_machines)
qed

text \<open>The same VM with \<open>spec.running\<close> unset: its machine is stopped, or resized while it is stopped.\<close>

definition example_idle_vm :: SmolVM where
  "example_idle_vm = example_bound_vm\<lparr>vm_Spec := (vm_Spec example_bound_vm)\<lparr>spec_Running := False\<rparr>\<rparr>"

abbreviation idle_env :: "MachineInfo option \<Rightarrow> env" where
  "idle_env m \<equiv> cluster_env (example_cluster example_idle_vm m)"

definition idle_prefix :: "event list" where
  "idle_prefix = EvGetVM example_key (Inr example_idle_vm) # example_probe"

lemma idle_vm_facts:
  "vm_NodeName example_idle_vm = ''n1''" "meta_DeletionTimestamp (vm_Meta example_idle_vm) = None"
  "SmolVMFinalizer \<in> set (vm_Finalizers example_idle_vm)" "validateSpec example_idle_vm = None"
  "\<not> spec_Running (vm_Spec example_idle_vm)" "machineNameOf example_idle_vm = ''m''"
  "find_vm example_key (cl_vms (example_cluster example_idle_vm m)) = Some example_idle_vm"
  by (simp_all add: validateSpec_None spec_valid_def find_vm_def machineNameOf_def example_idle_vm_def example_defs)

lemma example_idle_run:
  "run_state (Reconcile (idle_env m) example_reconciler example_key) [] =
   run_state (reconcileRuntime (idle_env m) example_reconciler example_idle_vm ''m'' ''n1'' example_api) idle_prefix"
proof -
  have run: "run_state (runtimeForNode (idle_env m) example_reconciler ''n1'')
      [EvGetVM example_key (Inr example_idle_vm)] = (Inr example_api, idle_prefix)"
    using example_runtimeForNode [where vm = example_idle_vm and m = m and
        s = "example_cluster example_idle_vm m" and h = "[EvGetVM example_key (Inr example_idle_vm)]"]
    by (simp add: idle_prefix_def)
  show ?thesis
    by (simp add: Reconcile_def reconcileVM_def reconcileBound_def call_defs Let_def idle_vm_facts run)
qed

lemma idle_quiet: "replay (example_cluster example_idle_vm m) idle_prefix = example_cluster example_idle_vm m"
  by (simp add: idle_prefix_def example_quiet)

lemmas example_machine_checks = validateImmutableRuntimeFields_def samePorts_mset
  validateStorageDoesNotShrink_None needsStorageExpansion_def shrinks_def grows_def example_machine_def
  example_idle_vm_def example_defs

lemma example_stop_run:
  "run_state (Reconcile (idle_env (Some example_machine)) example_reconciler example_key) [] =
   ((requeue, None),
    (idle_prefix @ [EvGetMachine example_api ''m'' (Inr example_machine),
      EvRecord example_idle_vm ''Normal'' ''Stopping'' ''stopping smolvm machine m'']) @
    [EvStopMachine example_api ''m'' None])"
proof -
  have "validateImmutableRuntimeFields example_idle_vm example_machine = None"
    "validateStorageDoesNotShrink example_idle_vm example_machine = None"
    "\<not> needsStorageExpansion example_idle_vm example_machine" "mi_State example_machine = ''running''"
    by (simp_all add: example_machine_checks)
  then show ?thesis
    by (simp add: example_idle_run reconcileRuntime_def reconcileMachine_def record_event_def call_defs
        idle_vm_facts example_recorder idle_quiet example_machines)
qed

definition small_machine :: MachineInfo where
  "small_machine = example_machine\<lparr>mi_State := ''stopped'', mi_StorageGB := Some 10\<rparr>"

lemma example_resize_run:
  "run_state (Reconcile (idle_env (Some small_machine)) example_reconciler example_key) [] =
   ((requeue, None),
    (idle_prefix @ [EvGetMachine example_api ''m'' (Inr small_machine),
      EvRecord example_idle_vm ''Normal'' ''Resizing'' ''resizing smolvm machine m'']) @
    [EvResizeMachine example_api ''m'' (buildResizeRequest example_idle_vm) None])"
proof -
  have "validateImmutableRuntimeFields example_idle_vm small_machine = None"
    "validateStorageDoesNotShrink example_idle_vm small_machine = None"
    "needsStorageExpansion example_idle_vm small_machine" "mi_State small_machine = ''stopped''"
    by (simp_all add: small_machine_def example_machine_checks)
  then show ?thesis
    by (simp add: example_idle_run reconcileRuntime_def reconcileMachine_def record_event_def call_defs
        idle_vm_facts example_recorder idle_quiet example_machines)
qed

section \<open>Binding\<close>

definition schedule_prefix :: "event list" where
  "schedule_prefix = [EvGetVM example_key (Inr example_vm), EvListVM (Inr [example_vm]),
     EvListSmolVMNode (Inr [example_smolvmnode]), EvNow 100, EvGetNode ''n1'' (Inr example_node)]"

lemma example_schedule:
  "run_state (schedule (cluster_env (example_cluster example_vm None)) example_vm)
     [EvGetVM example_key (Inr example_vm)] = (Inr (''n1'', []), schedule_prefix)"
proof -
  have "resourceFitReason example_smolvmnode example_vm (bound_of example_vm [example_vm]) = []"
    "hostPortConflictReason ''n1'' example_vm (bound_of example_vm [example_vm]) = []"
    "smolVMNodeEligible 100 example_smolvmnode" "matchesNodeSelector example_smolvmnode (spec_NodeSelector (vm_Spec example_vm))"
    "\<not> node_Unschedulable example_node" "kubernetesNodeReady example_node" "sn_Name example_smolvmnode = ''n1''"
    "spec_NodeName (vm_Spec example_vm) = []" "meta_Name (node_Meta example_node) = ''n1''"
    by (simp_all add: example_defs smolVMNodeEligible_def matchesNodeSelector_def kubernetesNodeReady_def
        resourceFitReason_def hostPortConflictReason_def bound_of_def)
  then show ?thesis
    by (simp add: schedule_def boundVMs_run nodeRejectReason_def call_defs example_cluster_def schedule_prefix_def)
qed

lemma example_bind_run:
  obtains mid v where
    "run_state (Reconcile (cluster_env (example_cluster example_vm None)) example_reconciler example_key) [] =
       ((requeue, None), [] @ (schedule_prefix @ mid) @ EvUpdateVMStatus v None # [])"
    and "vm_NodeName v = ''n1''"
proof -
  let ?c = "example_cluster example_vm None"
  let ?inp = "scheduledInput ''n1'' (machineNameOf example_vm)"
  have quiet: "replay ?c schedule_prefix = ?c" by (simp add: schedule_prefix_def)
  have key: "vm_key example_vm = example_key" by (simp add: example_defs)
  have "status_Phase (nextStatus t example_vm ?inp) \<noteq> status_Phase (vm_Status example_vm)" for t
    by (simp add: scheduledInput_def example_defs)
  then have "vm_Status example_vm \<noteq> nextStatus t example_vm ?inp" for t by metis
  then have "\<exists>mid t. run_state (Reconcile (cluster_env ?c) example_reconciler example_key) [] =
       ((requeue, None), [] @ (schedule_prefix @ mid) @
         EvUpdateVMStatus (example_vm\<lparr>vm_Status := nextStatus t example_vm ?inp\<rparr>) None # [])"
    by (simp add: Reconcile_def reconcileVM_def reconcileUnbound_def updateStatusThenRequeue_def updateStatus_def
        clock6_def call_defs Let_def example_vm_facts example_found example_schedule quiet key) blast
  then show thesis using that by (fastforce simp: scheduledInput_def)
qed

section \<open>A deletion whose node is gone\<close>

definition lost_cluster :: cluster where
  "lost_cluster = (example_cluster example_deleted_vm None)\<lparr>cl_smolvmnodes := []\<rparr>"

lemma example_blocked_run:
  obtains es where
    "run_state (Reconcile (cluster_env lost_cluster) example_reconciler example_key) [] = ((requeue, None), [] @ es)"
    and "hd es = EvGetVM example_key (Inr example_deleted_vm)"
    and "\<forall>api. \<not> verified (cluster_env lost_cluster) example_reconciler ''n1'' api es"
proof -
  let ?err = "WrapError ''get SmolVMNode n1'' (KubeError True ''smolvmnode not found'')"
  let ?inp = "blockedInput ''n1'' ''m'' ?err"
  have found: "find_vm example_key (cl_vms lost_cluster) = Some example_deleted_vm"
    "cl_smolvmnodes lost_cluster = []" "cl_now lost_cluster = 100"
    using example_found(3) [of None] by (simp_all add: lost_cluster_def) (simp add: example_cluster_def)
  have vm: "vm_key example_deleted_vm = example_key"
    "map_get (meta_Annotations (vm_Meta example_deleted_vm)) ForceDeleteLocalStateAnnotation \<noteq> ''true''"
    "\<not> rec_RuntimeFactory example_reconciler"
    by (simp_all add: example_defs map_get_def)
  have "status_Phase (nextStatus t example_deleted_vm ?inp) \<noteq> status_Phase (vm_Status example_deleted_vm)" for t
    by (simp add: blockedInput_def example_deleted_vm_def example_bound_vm_def emptyStatus_def)
  then have "vm_Status example_deleted_vm \<noteq> nextStatus t example_deleted_vm ?inp" for t by metis
  then have "\<exists>v msg. run_state (Reconcile (cluster_env lost_cluster) example_reconciler example_key) [] =
    ((requeue, None), [] @ [EvGetVM example_key (Inr example_deleted_vm),
       EvGetSmolVMNode ''n1'' (Inl (KubeError True ''smolvmnode not found'')),
       EvRecord example_deleted_vm ''Warning'' ''DeletionBlocked'' msg,
       EvGetVM example_key (Inr example_deleted_vm), EvNow 100, EvNow 100, EvNow 100, EvNow 100, EvNow 100,
       EvNow 100, EvUpdateVMStatus v None])"
    by (simp add: Reconcile_def reconcileVM_def reconcileDelete_def runtimeForNode_def record_event_def
        updateStatusThenRequeue_def updateStatus_def clock6_def call_defs Let_def example_vm_facts
        example_recorder found vm)
  then obtain v msg where run: "run_state (Reconcile (cluster_env lost_cluster) example_reconciler example_key) [] =
    ((requeue, None), [] @ [EvGetVM example_key (Inr example_deleted_vm),
       EvGetSmolVMNode ''n1'' (Inl (KubeError True ''smolvmnode not found'')),
       EvRecord example_deleted_vm ''Warning'' ''DeletionBlocked'' msg,
       EvGetVM example_key (Inr example_deleted_vm), EvNow 100, EvNow 100, EvNow 100, EvNow 100, EvNow 100,
       EvNow 100, EvUpdateVMStatus v None])"
    by blast
  show thesis by (rule that [OF run]) (use vm(3) in \<open>simp_all add: verified_defs\<close>)
qed

end
