(* ===== verification/Controller_Spec.thy ===== *)
theory Controller_Spec
  imports Example_Runs
begin

text \<open>
  The properties of \<open>Reconcile\<close>.  The safety properties hold in every environment: the API server and the
  runtimes may fail at any call, return stale objects and change between two calls.

  The \<^emph>\<open>verified runtime\<close> of a node is the predicate \<open>verified\<close>: without a \<open>RuntimeFactory\<close>, which is how the
  manager runs, an endpoint whose eligibility, health, identity and protocol the run has checked; with a factory,
  which only the tests set, the runtime of the factory, which the code does not check.
\<close>

section \<open>Safety\<close>

lemma Reconcile_event:
  assumes "run_state (Reconcile E R req) h = (r, h @ es)" and "hd es = EvGetVM req (Inr vm)"
    and "e \<in> set es" and "\<And>k x. e \<noteq> EvGetVM k x"
  obtains pre post where "es = pre @ e # post" and "step_ok E R vm pre e"
proof -
  obtain pre post where es: "es = pre @ e # post" using assms(3) by (meson split_list)
  obtain vm' rest where pre: "pre = EvGetVM req (Inr vm') # rest" and step: "step_ok E R vm' pre e"
    by (rule Reconcile_step [of E R req h r pre e post]) (use assms es in auto)
  have "vm' = vm" using assms(2) es pre by simp
  with step es that show thesis by blast
qed

text \<open>
  C1: once a VM is bound to a node it is never moved: every status that a reconciliation writes names
  the node and the machine of the object it has read.
\<close>

theorem binding_is_kept:
  assumes "run_state (Reconcile E R req) h = (r, h @ es)"
    and "hd es = EvGetVM req (Inr vm)" and "vm_NodeName vm \<noteq> []"
    and "EvUpdateVMStatus v err \<in> set es"
  shows "vm_NodeName v = vm_NodeName vm \<and> status_MachineName (vm_Status v) = machineNameOf vm"
  by (rule Reconcile_event [OF assms(1,2,4)])
    (use assms(3) in \<open>auto simp: step_ok_def may_write_status_def\<close>)

theorem binding_is_kept_witness:
  "\<exists>es v. run_state (Reconcile (bound_env None) example_reconciler example_key) [] = ((requeue, None), es) \<and>
     EvUpdateVMStatus v None \<in> set es \<and> vm_NodeName v = ''n1'' \<and> status_MachineName (vm_Status v) = ''m''"
proof -
  obtain es v where run:
    "run_state (Reconcile (bound_env None) example_reconciler example_key) [] = ((requeue, None), [] @ es)"
    "hd es = EvGetVM example_key (Inr example_bound_vm)" "EvUpdateVMStatus v None \<in> set es"
    by (rule example_status_run)
  have "vm_NodeName v = vm_NodeName example_bound_vm \<and> status_MachineName (vm_Status v) = machineNameOf example_bound_vm"
    by (rule binding_is_kept [OF run(1,2) _ run(3)]) (simp add: example_vm_facts)
  with run show ?thesis by (auto simp: example_vm_facts)
qed

text \<open>
  C2: the finalizer of a bound VM is removed only after its machine was deleted, or was found absent,
  on the verified runtime of the owning node, or when the force annotation is set while that runtime
  cannot be verified.
\<close>

theorem finalizer_guards_the_machine:
  assumes "run_state (Reconcile E R req) h = (r, h @ pre @ EvUpdateVM v err # post)"
    and "hd pre = EvGetVM req (Inr vm)"
    and "meta_DeletionTimestamp (vm_Meta vm) \<noteq> None" and "vm_NodeName vm \<noteq> []"
  shows "v = removeFinalizer E vm \<and>
    ((\<exists>api res. EvDeleteMachine api (machineNameOf vm) res \<in> set pre \<and>
        verified E R (vm_NodeName vm) api pre \<and> (res = None \<or> (\<exists>e. res = Some e \<and> IsNotFound e))) \<or>
     map_get (meta_Annotations (vm_Meta vm)) ForceDeleteLocalStateAnnotation = ''true'' \<and>
     (\<forall>api. \<not> verified E R (vm_NodeName vm) api pre))"
proof -
  obtain vm' rest where pre: "pre = EvGetVM req (Inr vm') # rest" and step: "step_ok E R vm' pre (EvUpdateVM v err)"
    by (rule Reconcile_step [OF assms(1)]) auto
  with assms(2) have "step_ok E R vm pre (EvUpdateVM v err)" by simp
  with assms(3,4) have "v = removeFinalizer E vm" and "may_release E R vm pre"
    by (simp_all add: step_ok_def)
  then show ?thesis using assms(4) unfolding may_release_def by (fastforce split: option.splits)
qed

theorem finalizer_guards_the_machine_witness:
  "\<exists>pre api res v. run_state (Reconcile (cluster_env (example_cluster example_deleted_vm (Some example_machine)))
       example_reconciler example_key) [] = ((noRequeue, None), pre @ [EvUpdateVM v None]) \<and>
     EvDeleteMachine api ''m'' res \<in> set pre"
proof -
  let ?E = "cluster_env (example_cluster example_deleted_vm (Some example_machine))"
  let ?pre = "EvGetVM example_key (Inr example_deleted_vm) # example_probe @
     [EvRecord example_deleted_vm ''Normal'' ''Deleting'' ''deleting smolvm machine m'',
      EvDeleteMachine example_api ''m'' None]"
  have "map_get (meta_Annotations (vm_Meta example_deleted_vm)) ForceDeleteLocalStateAnnotation \<noteq> ''true''"
    by (simp add: example_defs map_get_def)
  with finalizer_guards_the_machine [of ?E example_reconciler example_key "[]" "(noRequeue, None)" ?pre
      "removeFinalizer ?E example_deleted_vm" None "[]" example_deleted_vm]
    example_delete_run [of example_machine]
  show ?thesis by (auto simp: example_vm_facts)
qed

text \<open>The object a run has read, at the place of one of its events.\<close>

lemma Reconcile_step_at:
  assumes "run_state (Reconcile E R req) h = (r, h @ pre @ e # post)" and "hd pre = EvGetVM req (Inr vm)"
    and "\<And>k x. e \<noteq> EvGetVM k x"
  shows "step_ok E R vm pre e"
  by (rule Reconcile_step [OF assms(1,3)]) (use assms(2) in auto)

text \<open>
  C3: a machine is created only for a VM that is not being deleted, carries the finalizer and has a
  valid spec, on the verified runtime of the node the VM is bound to, after that runtime answered that
  the machine does not exist, and the request is the one built from the spec.
\<close>

theorem create_is_guarded:
  assumes "run_state (Reconcile E R req) h = (r, h @ pre @ EvCreateMachine api request res # post)"
    and "hd pre = EvGetVM req (Inr vm)"
  shows "meta_DeletionTimestamp (vm_Meta vm) = None \<and>
    env_ContainsFinalizer E (vm_Finalizers vm) SmolVMFinalizer \<and> spec_valid vm \<and>
    vm_NodeName vm \<noteq> [] \<and> verified E R (vm_NodeName vm) api pre \<and>
    request = buildCreateRequest vm (machineNameOf vm) \<and>
    (\<exists>err. EvGetMachine api (machineNameOf vm) (Inl err) \<in> set pre \<and> IsNotFound err)"
  using Reconcile_step_at [OF assms] by (auto simp: step_ok_def admitted_def on_owner_def)

theorem create_is_guarded_witness:
  "\<exists>pre post res. run_state (Reconcile (bound_env None) example_reconciler example_key) [] =
     ((requeue, None), pre @ EvCreateMachine example_api (buildCreateRequest example_bound_vm ''m'') res # post) \<and>
     verified (bound_env None) example_reconciler ''n1'' example_api pre"
proof -
  let ?pre = "bound_prefix @ [EvGetMachine example_api ''m'' (Inl (APIError 404 ''machine not found'')),
      EvRecord example_bound_vm ''Normal'' ''Creating'' ''creating smolvm machine m'']"
  obtain post v where run: "run_state (Reconcile (bound_env None) example_reconciler example_key) [] =
   ((requeue, None), [] @ ?pre @ EvCreateMachine example_api (buildCreateRequest example_bound_vm ''m'')
     (Inr (new_machine example_bound_vm)) # post @ [EvUpdateVMStatus v None])"
    using example_create_run by (metis append_Nil)
  have "hd ?pre = EvGetVM example_key (Inr example_bound_vm)" by (simp add: bound_prefix_def)
  from create_is_guarded [OF run this] have "verified (bound_env None) example_reconciler ''n1'' example_api ?pre"
    by (simp add: example_vm_facts)
  with run show ?thesis unfolding append_Nil by blast
qed

text \<open>
  C12: a machine is resized only while it is not running, on the verified runtime of its node, when a
  disk has to grow and no reported disk is larger than the spec asks for, so a resize never shrinks.
\<close>

theorem resize_never_shrinks:
  assumes "run_state (Reconcile E R req) h = (r, h @ pre @ EvResizeMachine api name request res # post)"
    and "hd pre = EvGetVM req (Inr vm)"
  shows "name = machineNameOf vm \<and> verified E R (vm_NodeName vm) api pre \<and> request = buildResizeRequest vm \<and>
    (\<exists>m. EvGetMachine api name (Inr m) \<in> set pre \<and> mi_State m \<noteq> ''running'' \<and>
       (grows (vm_StorageGiB vm) (mi_StorageGB m) \<or> grows (vm_OverlayGiB vm) (mi_OverlayGB m)) \<and>
       (\<forall>have want. mi_StorageGB m = Some have \<and> resize_StorageGB request = Some want \<longrightarrow> sint have \<le> sint want) \<and>
       (\<forall>have want. mi_OverlayGB m = Some have \<and> resize_OverlayGB request = Some want \<longrightarrow> sint have \<le> sint want))"
  using Reconcile_step_at [OF assms]
  by (auto simp: step_ok_def on_owner_def observed_ok_def needsStorageExpansion_def buildResizeRequest_def
      positive_def validateStorageDoesNotShrink_None shrinks_def split: if_splits option.splits)

theorem resize_never_shrinks_witness:
  "\<exists>pre. run_state (Reconcile (idle_env (Some small_machine)) example_reconciler example_key) [] =
     ((requeue, None), pre @ [EvResizeMachine example_api ''m'' (buildResizeRequest example_idle_vm) None]) \<and>
     verified (idle_env (Some small_machine)) example_reconciler ''n1'' example_api pre"
proof -
  let ?pre = "idle_prefix @ [EvGetMachine example_api ''m'' (Inr small_machine),
      EvRecord example_idle_vm ''Normal'' ''Resizing'' ''resizing smolvm machine m'']"
  have run: "run_state (Reconcile (idle_env (Some small_machine)) example_reconciler example_key) [] =
     ((requeue, None), [] @ ?pre @ EvResizeMachine example_api ''m'' (buildResizeRequest example_idle_vm) None # [])"
    by (simp only: append_Nil example_resize_run)
  have "hd ?pre = EvGetVM example_key (Inr example_idle_vm)" by (simp add: idle_prefix_def)
  from resize_never_shrinks [OF run this] run show ?thesis by (auto simp: idle_vm_facts)
qed



text \<open>
  A machine is stopped only when the spec does not want it running and it was just observed running.
\<close>

lemma stop_follows_spec:
  assumes "run_state (Reconcile E R req) h = (r, h @ pre @ EvStopMachine api name res # post)"
    and "hd pre = EvGetVM req (Inr vm)"
  shows "meta_DeletionTimestamp (vm_Meta vm) = None \<and> \<not> spec_Running (vm_Spec vm) \<and>
    name = machineNameOf vm \<and> verified E R (vm_NodeName vm) api pre \<and>
    (\<exists>m. EvGetMachine api name (Inr m) \<in> set pre \<and> mi_State m = ''running'')"
  using Reconcile_step_at [OF assms] by (auto simp: step_ok_def admitted_def on_owner_def observed_ok_def)

text \<open>
  C14: a machine is deleted only for a VM that is being deleted, under the VM's own machine name and on
  the verified runtime of the node it is bound to.
\<close>

theorem delete_is_guarded:
  assumes "run_state (Reconcile E R req) h = (r, h @ pre @ EvDeleteMachine api name res # post)"
    and "hd pre = EvGetVM req (Inr vm)"
  shows "meta_DeletionTimestamp (vm_Meta vm) \<noteq> None \<and> name = machineNameOf vm \<and>
    vm_NodeName vm \<noteq> [] \<and> verified E R (vm_NodeName vm) api pre"
  using Reconcile_step_at [OF assms] by (auto simp: step_ok_def on_owner_def)

theorem delete_is_guarded_witness:
  "\<exists>pre post. run_state (Reconcile (cluster_env (example_cluster example_deleted_vm (Some example_machine)))
       example_reconciler example_key) [] = ((noRequeue, None), pre @ EvDeleteMachine example_api ''m'' None # post) \<and>
     verified (cluster_env (example_cluster example_deleted_vm (Some example_machine))) example_reconciler ''n1'' example_api pre"
proof -
  let ?E = "cluster_env (example_cluster example_deleted_vm (Some example_machine))"
  let ?pre = "EvGetVM example_key (Inr example_deleted_vm) # example_probe @
     [EvRecord example_deleted_vm ''Normal'' ''Deleting'' ''deleting smolvm machine m'']"
  have run: "run_state (Reconcile ?E example_reconciler example_key) [] = ((noRequeue, None),
      [] @ ?pre @ EvDeleteMachine example_api ''m'' None # [EvUpdateVM (removeFinalizer ?E example_deleted_vm) None])"
    using example_delete_run [of example_machine] by simp
  have "hd ?pre = EvGetVM example_key (Inr example_deleted_vm)" by simp
  from delete_is_guarded [OF run this] have "verified ?E example_reconciler ''n1'' example_api ?pre"
    by (simp add: example_vm_facts)
  with run show ?thesis unfolding append_Nil by blast
qed

text \<open>
  C21: one reconciliation changes machines at most once: it makes at most one call that creates, starts,
  stops, resizes or deletes a machine.
\<close>

theorem one_change_per_run:
  assumes "run_state (Reconcile E R req) h = (r, h @ es)"
  shows "length (filter is_mutation es) \<le> 1"
  using ensuresD [OF Reconcile_mutates [unfolded mutates_def mutations_def] assms] .

theorem one_change_per_run_witness:
  "\<exists>es. run_state (Reconcile (idle_env (Some example_machine)) example_reconciler example_key) [] =
     ((requeue, None), es) \<and> length (filter is_mutation es) \<le> 1"
  using one_change_per_run [of "idle_env (Some example_machine)" example_reconciler example_key "[]"]
    example_stop_run by simp


text \<open>
  C9: a VM without a node is bound only to a node that this reconciliation has itself read and found
  acceptable: its \<open>SmolVMNode\<close>, read by name when the VM is pinned and otherwise one of the nodes listed, is
  ready, fresh and matches the selector, its Kubernetes node, read in the run, is ready and schedulable, and
  resources and host ports are free among the VMs listed as bound to it.
\<close>

theorem binds_only_chosen_nodes:
  assumes "run_state (Reconcile E R req) h = (r, h @ pre @ EvUpdateVMStatus v err # post)"
    and "hd pre = EvGetVM req (Inr vm)" and "vm_NodeName vm = []" and "vm_NodeName v \<noteq> []"
  shows "spec_valid vm \<and> meta_DeletionTimestamp (vm_Meta vm) = None \<and>
    (\<exists>items node now k8sNode. EvListVM (Inr items) \<in> set pre \<and> EvNow now \<in> set pre \<and>
       EvGetNode (vm_NodeName v) (Inr k8sNode) \<in> set pre \<and> sn_Name node = vm_NodeName v \<and>
       (if spec_NodeName (vm_Spec vm) \<noteq> []
        then EvGetSmolVMNode (spec_NodeName (vm_Spec vm)) (Inr node) \<in> set pre
        else \<exists>nodes. EvListSmolVMNode (Inr nodes) \<in> set pre \<and> node \<in> set nodes) \<and>
       smolVMNodeEligible now node \<and> matchesNodeSelector node (spec_NodeSelector (vm_Spec vm)) \<and>
       \<not> node_Unschedulable k8sNode \<and> kubernetesNodeReady k8sNode \<and>
       resourceFitReason node vm (bound_of vm items) = [] \<and>
       no_port_conflict (vm_NodeName v) vm (bound_of vm items))"
proof -
  have "may_write_status E vm v pre" using Reconcile_step_at [OF assms(1,2)] by (simp add: step_ok_def)
  then have adm: "admitted E vm" and "chosen vm (vm_NodeName v) pre"
    using assms(3,4) by (auto simp: may_write_status_def)
  from this(2) show ?thesis
    using adm unfolding chosen_def acceptable_def admitted_def by metis
qed

theorem binds_only_chosen_nodes_witness:
  "\<exists>pre v. run_state (Reconcile (cluster_env (example_cluster example_vm None)) example_reconciler example_key) [] =
     ((requeue, None), pre @ [EvUpdateVMStatus v None]) \<and> vm_NodeName v = ''n1'' \<and>
     (\<exists>nodes node k8sNode. EvListSmolVMNode (Inr nodes) \<in> set pre \<and> node \<in> set nodes \<and> sn_Name node = ''n1'' \<and>
        EvGetNode ''n1'' (Inr k8sNode) \<in> set pre \<and> kubernetesNodeReady k8sNode)"
proof -
  obtain mid v where run:
    "run_state (Reconcile (cluster_env (example_cluster example_vm None)) example_reconciler example_key) [] =
       ((requeue, None), [] @ (schedule_prefix @ mid) @ EvUpdateVMStatus v None # [])"
    and v: "vm_NodeName v = ''n1''" by (rule example_bind_run)
  have "hd (schedule_prefix @ mid) = EvGetVM example_key (Inr example_vm)" by (simp add: schedule_prefix_def)
  moreover have "spec_NodeName (vm_Spec example_vm) = []" by (simp add: example_defs)
  ultimately obtain nodes node k8sNode where "EvGetNode ''n1'' (Inr k8sNode) \<in> set (schedule_prefix @ mid)"
    "kubernetesNodeReady k8sNode" "EvListSmolVMNode (Inr nodes) \<in> set (schedule_prefix @ mid)" "node \<in> set nodes" "sn_Name node = ''n1''"
    using binds_only_chosen_nodes [OF run] v by (auto simp: example_vm_facts)
  with run v show ?thesis unfolding append_Nil by blast
qed

text \<open>
  A VM pinned by \<open>spec.nodeName\<close> is bound only to that node, if the API server answers a read by name
  with the object of that name.
\<close>

lemma pinned_vm_binds_to_its_node:
  assumes "run_state (Reconcile E R req) h = (r, h @ pre @ EvUpdateVMStatus v err # post)"
    and "hd pre = EvGetVM req (Inr vm)" and "vm_NodeName vm = []" and "vm_NodeName v \<noteq> []"
    and "spec_NodeName (vm_Spec vm) \<noteq> []"
    and "\<And>n node. EvGetSmolVMNode n (Inr node) \<in> set pre \<Longrightarrow> sn_Name node = n"
  shows "vm_NodeName v = spec_NodeName (vm_Spec vm)"
  using Reconcile_step_at [OF assms(1,2)] assms(3-6)
  unfolding step_ok_def may_write_status_def chosen_def by auto

text \<open>
  C8: while the runtime of the owning node cannot be verified and the force annotation is not set, the
  deletion of a bound VM is blocked, and it says so.  The object is not written, so the finalizer stays; no
  machine is touched; the request comes back unless an error is returned.  The event \<open>DeletionBlocked\<close> is
  recorded, if there is a recorder, and the object is read again: when that succeeds, the status with the
  phase Deleting, the condition \<open>DeletionBlocked\<close> naming the node and the condition \<open>Reconciled\<close> false with the
  reason is written, unless the object carries exactly that status already; when it fails, the error
  is returned, unless the object is gone.  No other status is written.
\<close>

theorem deletion_is_blocked:
  assumes "run_state (Reconcile E R req) h = ((res, err), h @ es)"
    and "hd es = EvGetVM req (Inr vm)" and "meta_DeletionTimestamp (vm_Meta vm) \<noteq> None"
    and "vm_NodeName vm \<noteq> []"
    and "map_get (meta_Annotations (vm_Meta vm)) ForceDeleteLocalStateAnnotation \<noteq> ''true''"
    and "\<forall>api. \<not> verified E R (vm_NodeName vm) api es"
  shows "(\<forall>v e. EvUpdateVM v e \<notin> set es) \<and> filter is_mutation es = [] \<and> (err = None \<longrightarrow> res = requeue) \<and>
    (\<forall>v e. EvUpdateVMStatus v e \<in> set es \<longrightarrow> status_Phase (vm_Status v) = ''Deleting'' \<and>
       hasCondition (status_Conditions (vm_Status v)) ConditionDeletionBlocked ConditionTrue) \<and>
    (\<exists>why. (rec_Recorder R \<longrightarrow> EvRecord vm ''Warning'' ''DeletionBlocked'' why \<in> set es) \<and>
       reports_blocked E vm why err (tl es))"
proof -
  let ?get = "EvGetVM req (Inr vm)"
  obtain es' where es: "es = ?get # es'" and
    run: "run_state (reconcileVM E R vm) (h @ [?get]) = ((res, err), (h @ [?get]) @ es')"
    by (rule Reconcile_run [OF assms(1,2)])
  have vm: "reconcileVM E R vm = reconcileDelete E R vm (machineNameOf vm) (vm_NodeName vm)"
    using assms(3) by (simp add: reconcileVM_def Let_def)
  have "\<not> verified E R (vm_NodeName vm) api es'" for api
    using assms(6) verified_mono [of E R "vm_NodeName vm" api es' es] es by auto
  then have out: "blocked_outcome E R vm (res, err) es'"
    using ensuresD [OF reconcileDelete_blocked [OF assms(4,5)] run [unfolded vm]] by blast
  then obtain e ss where "rec_Recorder R \<longrightarrow> EvRecord vm ''Warning'' ''DeletionBlocked'' (Error e) \<in> set es'"
    and ss: "set ss \<subseteq> set es'" "status_outcome E vm (blockedInput (vm_NodeName vm) (machineNameOf vm) e) err ss"
    and res: "err = None \<longrightarrow> res = requeue"
    unfolding blocked_outcome_def by force
  moreover have "reports_blocked E vm (Error e) err es'"
    by (rule reports_blocked_mono [OF status_outcome_reports [OF ss(2)] ss(1)])
  moreover note quiet = blocked_outcome_quiet [OF out]
  ultimately show ?thesis using es by (auto simp: filter_empty_conv)
qed

theorem deletion_is_blocked_witness:
  "\<exists>es why. run_state (Reconcile (cluster_env lost_cluster) example_reconciler example_key) [] = ((requeue, None), es) \<and>
     (\<forall>v e. EvUpdateVM v e \<notin> set es) \<and> filter is_mutation es = [] \<and>
     EvRecord example_deleted_vm ''Warning'' ''DeletionBlocked'' why \<in> set es \<and>
     reports_blocked (cluster_env lost_cluster) example_deleted_vm why None (tl es)"
proof -
  obtain es where run:
    "run_state (Reconcile (cluster_env lost_cluster) example_reconciler example_key) [] = ((requeue, None), [] @ es)"
    "hd es = EvGetVM example_key (Inr example_deleted_vm)"
    "\<forall>api. \<not> verified (cluster_env lost_cluster) example_reconciler ''n1'' api es"
    by (rule example_blocked_run)
  have "map_get (meta_Annotations (vm_Meta example_deleted_vm)) ForceDeleteLocalStateAnnotation \<noteq> ''true''"
    by (simp add: example_defs map_get_def)
  moreover have "rec_Recorder example_reconciler" by (simp add: example_reconciler_def)
  ultimately show ?thesis using deletion_is_blocked [OF run(1,2)] run by (simp add: example_vm_facts)
qed

text \<open>
  A status write changes nothing but the status: the metadata and the spec it carries are those of
  an object of the same key that the run has read, and its observed generation is that object's
  generation.
\<close>

lemma status_writes_keep_the_spec:
  assumes "run_state (Reconcile E R req) h = (r, h @ pre @ EvUpdateVMStatus v err # post)"
    and "hd pre = EvGetVM req (Inr vm)"
  shows "\<exists>latest. EvGetVM (vm_key vm) (Inr latest) \<in> set pre \<and>
    vm_Meta v = vm_Meta latest \<and> vm_Spec v = vm_Spec latest \<and>
    status_ObservedGeneration (vm_Status v) = meta_Generation (vm_Meta latest)"
  using Reconcile_step_at [OF assms] by (simp add: step_ok_def may_write_status_def)

section \<open>The runtime of a node\<close>

text \<open>
  C22: without a \<open>RuntimeFactory\<close>, which is how the manager runs, \<open>runtimeForNode\<close> returns a runtime exactly
  when the run has verified it: the node's \<open>SmolVMNode\<close> is eligible, its endpoint is healthy, and the
  identity and the protocol version it reports do not contradict the recorded ones.  A reconciler with a
  factory makes no check: it calls nothing and returns the runtime of the factory, for every node.
\<close>

theorem runtime_is_verified:
  assumes "run_state (runtimeForNode E R n) h = (r, h @ es)"
  shows "if rec_RuntimeFactory R then r = Inr FactoryRuntime \<and> es = []
    else r = Inr api \<longleftrightarrow> (\<exists>node now health identity caps.
      EvGetSmolVMNode n (Inr node) \<in> set es \<and> EvNow now \<in> set es \<and> smolVMNodeEligible now node \<and>
      api = nodeClient E (ns_Endpoint (sn_Status node)) \<and>
      EvHealth api (Inr health) \<in> set es \<and> EvGetIdentity api (Inr identity) \<in> set es \<and> EvCapabilities api (Inr caps) \<in> set es \<and>
      health_OK health \<and> id_NodeName identity = n \<and>
      (ns_NodeUID (sn_Status node) = [] \<or> id_NodeUID identity \<in> {[], ns_NodeUID (sn_Status node)}) \<and>
      cap_ProtocolVersion caps \<in> {[], ns_ProtocolVersion (sn_Status node)})"
proof (cases "rec_RuntimeFactory R")
  case True
  with assms show ?thesis by (simp add: runtimeForNode_def)
next
  case False
  have "r = Inr api \<longleftrightarrow> endpoint_verified E n api es"
    using ensuresD [OF runtimeForNode_ensures assms] False by (simp add: lookup_result_def)
  then show ?thesis unfolding endpoint_verified_def answers_match_def if_not_P [OF False] .
qed

theorem runtime_is_verified_witness:
  "\<exists>node now. EvGetSmolVMNode ''n1'' (Inr node) \<in> set example_probe \<and> EvNow now \<in> set example_probe \<and>
     smolVMNodeEligible now node \<and> example_api = nodeClient (bound_env None) (ns_Endpoint (sn_Status node))"
  using runtime_is_verified [of "bound_env None" example_reconciler "''n1''" "[]" "Inr example_api" example_probe example_api]
    example_runtimeForNode [of "example_cluster example_bound_vm None" "[]" example_bound_vm None]
  by (auto simp: example_reconciler_def)

section \<open>Progress\<close>

text \<open>
  C4: a new VM whose spec is valid, in a cluster that stores what it is given and where some node
  accepts it, is running after five reconciliations and stays so: its status is Running, Ready and
  Reconciled at its generation, and the machine on the first accepting node is the one built from the
  spec, running.
\<close>

theorem new_vm_reaches_running:
  assumes "find_vm req (cl_vms c) = Some vm" and "distinct (map vm_key (cl_vms c))"
    and "meta_DeletionTimestamp (vm_Meta vm) = None" and "SmolVMFinalizer \<notin> set (vm_Finalizers vm)"
    and "vm_NodeName vm = []" and "spec_NodeName (vm_Spec vm) = []" and "spec_valid vm" and "spec_Running (vm_Spec vm)"
    and "find (accepts c vm) (cl_smolvmnodes c) = Some node" and "sn_Name node \<noteq> []"
    and "owner_ready c (sn_Name node) node" and "cl_machines c (endpoint_of node) (machineNameOf vm) = None"
    and "\<not> rec_RuntimeFactory R"
  shows "let c' = replay c (snd (run_state (reconcileTimes (cluster_env c) R req (5 + n)) [])) in
    shows_running req (sn_Name node) c' \<and>
    cl_machines c' (endpoint_of node) (machineNameOf vm) = Some ((new_machine vm)\<lparr>mi_State := ''running''\<rparr>)"
proof -
  have w: "wanted vm (new_machine vm) = (new_machine vm)\<lparr>mi_State := ''running''\<rparr>"
    using assms(8) new_machine_conforms(1) [of vm] by (simp add: wanted_def conforms_def created_machine_def)
  show ?thesis
    using ref.new_vm_converges [OF assms(1-7,9-13), of n]
    by (auto simp: settles_def split_beta w Let_def intro: settled_running [of "(new_machine vm)\<lparr>mi_State := ''running''\<rparr>"])
qed

definition fresh_vm :: SmolVM where
  "fresh_vm = example_vm\<lparr>vm_Meta := (vm_Meta example_vm)\<lparr>meta_Finalizers := []\<rparr>\<rparr>"

theorem new_vm_reaches_running_witness:
  "shows_running example_key ''n1'' (replay (example_cluster fresh_vm None)
     (snd (run_state (reconcileTimes (cluster_env (example_cluster fresh_vm None)) example_reconciler example_key (5 + 0)) [])))"
proof -
  let ?c = "example_cluster fresh_vm None"
  have "find (accepts ?c fresh_vm) (cl_smolvmnodes ?c) = Some example_smolvmnode"
    by (simp add: accepts_def acceptable_def fresh_vm_def example_defs smolVMNodeEligible_def matchesNodeSelector_def
        kubernetesNodeReady_def resourceFitReason_def no_port_conflict_def bound_of_def)
  moreover have "spec_valid fresh_vm" "vm_NodeName fresh_vm = []" "spec_NodeName (vm_Spec fresh_vm) = []"
    "meta_DeletionTimestamp (vm_Meta fresh_vm) = None" "SmolVMFinalizer \<notin> set (vm_Finalizers fresh_vm)"
    "spec_Running (vm_Spec fresh_vm)" "find_vm example_key (cl_vms ?c) = Some fresh_vm"
    "distinct (map vm_key (cl_vms ?c))" "\<not> rec_RuntimeFactory example_reconciler" "sn_Name example_smolvmnode = ''n1''"
    by (simp_all add: spec_valid_def find_vm_def fresh_vm_def example_defs)
  moreover have "cl_machines ?c example_api name = None" for name by (simp add: example_cluster_def)
  ultimately show ?thesis
    using new_vm_reaches_running [of example_key ?c fresh_vm example_smolvmnode example_reconciler 0]
      example_owner_ready [of fresh_vm None] by (simp add: Let_def)
qed

text \<open>
  One reconciliation of a deleted VM whose node is reachable finishes the deletion: the machine is
  gone from the node and, when no other finalizer is left, so is the object.
\<close>

lemma deleted_vm_is_released:
  assumes "find_vm req (cl_vms c) = Some vm" and "meta_DeletionTimestamp (vm_Meta vm) \<noteq> None"
    and "set (vm_Finalizers vm) \<subseteq> {SmolVMFinalizer}" and "vm_NodeName vm \<noteq> []"
    and "owner_ready c (vm_NodeName vm) node" and "\<not> rec_RuntimeFactory R"
  shows "let (r, h) = run_state (Reconcile (cluster_env c) R req) []; c' = replay c h in
    r = (noRequeue, None) \<and> find_vm req (cl_vms c') = None \<and>
    cl_machines c' (endpoint_of node) (machineNameOf vm) = None"
  using ref.deleted_vm_released [of req c "[]" vm "vm_NodeName vm" node R] assms
  by (simp add: settles_def split_beta Let_def)

section \<open>A binding can be overwritten\<close>

text \<open>
  \<open>updateStatus\<close> takes the node from its input, also when the object it reads anew is already bound
  elsewhere.  The first read of the run below is stale: it shows the VM without a node, while the API
  server has it on \<open>n2\<close>.  The run schedules it again and moves it to \<open>n1\<close>.
\<close>

definition moved_vm :: SmolVM where
  "moved_vm = example_vm\<lparr>vm_Status := emptyStatus\<lparr>status_NodeName := ''n2'', status_MachineName := ''m''\<rparr>\<rparr>"

definition stale_env :: env where
  "stale_env = (cluster_env (example_cluster example_vm None))
     \<lparr>env_GetVM := (\<lambda>h k. if h = [] then Inr example_vm else Inr moved_vm)\<rparr>"

lemma stale_schedule:
  "run_state (schedule stale_env example_vm) [EvGetVM example_key (Inr example_vm)] = (Inr (''n1'', []), schedule_prefix)"
proof -
  have same: "env_ListVM stale_env = env_ListVM (cluster_env (example_cluster example_vm None))"
    "env_ListSmolVMNode stale_env = env_ListSmolVMNode (cluster_env (example_cluster example_vm None))"
    "env_Now stale_env = env_Now (cluster_env (example_cluster example_vm None))"
    "env_GetNode stale_env = env_GetNode (cluster_env (example_cluster example_vm None))"
    "env_GetSmolVMNode stale_env = env_GetSmolVMNode (cluster_env (example_cluster example_vm None))"
    by (simp_all add: stale_env_def)
  have "nodeRejectReason stale_env = nodeRejectReason (cluster_env (example_cluster example_vm None))"
    by (intro ext) (simp only: nodeRejectReason_def call_defs same)
  moreover then have "scheduleLoop stale_env vm b nodes reasons =
      scheduleLoop (cluster_env (example_cluster example_vm None)) vm b nodes reasons" for vm b nodes reasons
    by (induction nodes arbitrary: reasons) (simp_all cong: if_cong)
  ultimately have "schedule stale_env = schedule (cluster_env (example_cluster example_vm None))"
    by (intro ext) (simp only: schedule_def boundVMs_def call_defs same)
  then show ?thesis by (simp add: example_schedule)
qed

text \<open>
  C36: a binding can be overwritten: when the first read of the object is stale, a run schedules the VM again
  and writes the new node over the one that its second read shows, so the VM moves away from its machine.
\<close>

theorem binding_can_be_overwritten:
  "\<exists>es v. run_state (Reconcile stale_env example_reconciler example_key) [] = ((requeue, None), es) \<and>
     EvGetVM example_key (Inr moved_vm) \<in> set es \<and> vm_NodeName moved_vm = ''n2'' \<and>
     EvUpdateVMStatus v None \<in> set es \<and> vm_NodeName v = ''n1''"
proof -
  let ?inp = "scheduledInput ''n1'' (machineNameOf example_vm)"
  have env: "env_GetVM stale_env h k = (if h = [] then Inr example_vm else Inr moved_vm)"
    "env_Now stale_env h = cl_now (replay (example_cluster example_vm None) h)"
    "env_UpdateVMStatus stale_env h v = None" "env_DeepEqual stale_env a b \<longleftrightarrow> a = b"
    "env_ContainsFinalizer stale_env fs f \<longleftrightarrow> f \<in> set fs" for h k v a b fs f
    by (simp_all add: stale_env_def)
  have key: "vm_key example_vm = example_key" "schedule_prefix \<noteq> []" "vm_NodeName moved_vm = ''n2''"
    by (simp_all add: example_defs schedule_prefix_def moved_vm_def)
  have "vm_NodeName moved_vm \<noteq> status_NodeName (nextStatus t moved_vm ?inp)" for t
    by (simp add: scheduledInput_def key)
  then have "vm_Status moved_vm \<noteq> nextStatus t moved_vm ?inp" for t by metis
  then have "\<exists>mid t. run_state (Reconcile stale_env example_reconciler example_key) [] =
      ((requeue, None), schedule_prefix @ EvGetVM example_key (Inr moved_vm) # mid @
        [EvUpdateVMStatus (moved_vm\<lparr>vm_Status := nextStatus t moved_vm ?inp\<rparr>) None])"
    by (simp add: Reconcile_def reconcileVM_def reconcileUnbound_def updateStatusThenRequeue_def updateStatus_def
        clock6_def call_defs Let_def example_vm_facts env key stale_schedule) blast
  then show ?thesis using key(3) by (fastforce simp: scheduledInput_def)
qed

end
