(* ===== verification/Status_Spec.thy ===== *)
theory Status_Spec
  imports Example_Runs
begin

text \<open>
  The properties of status writing (\<open>updateStatus\<close>, \<open>setCondition\<close>) and of the scheduler.
\<close>

section \<open>Conditions\<close>

text \<open>
  \<open>setCondition\<close> behaves as a map update: the condition of the given type has the given values, all
  others are as before, no type appears twice, and the transition time moves exactly when the status
  changes.
\<close>

lemma setCondition_is_an_update:
  assumes "distinct_types cs"
  shows "distinct_types (setCondition now cs ty st reason msg gen) \<and>
    (\<forall>t. t \<noteq> ty \<longrightarrow> findCondition t (setCondition now cs ty st reason msg gen) = findCondition t cs) \<and>
    findCondition ty (setCondition now cs ty st reason msg gen) =
      Some \<lparr>cond_Type = ty, cond_Status = st, cond_ObservedGeneration = gen,
            cond_LastTransitionTime = (case findCondition ty cs of
                 None \<Rightarrow> now | Some d \<Rightarrow> if cond_Status d = st then cond_LastTransitionTime d else now),
            cond_Reason = reason, cond_Message = msg\<rparr>"
proof -
  obtain c where found: "findCondition ty (setCondition now cs ty st reason msg gen) = Some c"
    and c: "cond_ObservedGeneration c = gen" "cond_Status c = st" "cond_Reason c = reason" "cond_Message c = msg"
      "cond_LastTransitionTime c = (case findCondition ty cs of
         None \<Rightarrow> now | Some d \<Rightarrow> if cond_Status d = st then cond_LastTransitionTime d else now)"
    using ctrl.setc_found [of ty now cs st reason msg gen] by blast
  have "c = \<lparr>cond_Type = ty, cond_Status = st, cond_ObservedGeneration = gen,
      cond_LastTransitionTime = (case findCondition ty cs of
         None \<Rightarrow> now | Some d \<Rightarrow> if cond_Status d = st then cond_LastTransitionTime d else now),
      cond_Reason = reason, cond_Message = msg\<rparr>"
    using c findCondition_type [OF found] by simp
  with found show ?thesis using ctrl.setc_other ctrl.setc_distinct [OF assms] by blast
qed

text \<open>The observed values in a status are those of the machine of the input, or else the old ones.\<close>

definition shows_machine :: "MachineInfo option \<Rightarrow> SmolVMStatus \<Rightarrow> SmolVMStatus \<Rightarrow> bool" where
  "shows_machine machine old st \<longleftrightarrow>
     (case machine of
        Some m \<Rightarrow> status_RuntimePID st = mi_PID m \<and> status_Network st = mi_Network m \<and>
          map (\<lambda>p. (HostPort p, GuestPort p)) (status_Ports st) = map (\<lambda>p. (port_Host p, port_Guest p)) (mi_Ports m) \<and>
          status_StorageGiB st = mi_StorageGB m \<and> status_OverlayGiB st = mi_OverlayGB m
      | None \<Rightarrow> status_RuntimePID st = status_RuntimePID old \<and> status_Network st = status_Network old \<and>
          status_Ports st = status_Ports old \<and> status_StorageGiB st = status_StorageGiB old \<and>
          status_OverlayGiB st = status_OverlayGiB old)"

lemma nextStatus_shows_machine: "shows_machine (in_Machine inp) (vm_Status latest) (nextStatus t latest inp)"
  by (simp add: shows_machine_def nextStatus_def observeMachine_def portsFromRuntime_def Let_def comp_def split: option.splits)

text \<open>
  The conditions of a status after an update: the six types the controller sets, those two that it sets only
  when its input says something of them, and any other type as it was.
\<close>

definition shows_conditions :: "statusInput \<Rightarrow> int64 \<Rightarrow> Condition list \<Rightarrow> Condition list \<Rightarrow> bool" where
  "shows_conditions inp gen old cs \<longleftrightarrow>
     (if in_ScheduledReason inp \<noteq> []
      then shows_condition cs ConditionScheduled (in_Scheduled inp) (in_ScheduledReason inp) (in_ScheduledMsg inp) gen
      else if in_NodeName inp \<noteq> []
      then shows_condition cs ConditionScheduled ConditionTrue ''Bound'' (''assigned to node '' @ in_NodeName inp) gen
      else findCondition ConditionScheduled cs = findCondition ConditionScheduled old) \<and>
     shows_condition cs ConditionReady (in_Ready inp) (in_ReadyReason inp) (in_ReadyMsg inp) gen \<and>
     shows_condition cs ConditionRuntimeReady (in_Ready inp) (in_ReadyReason inp) (in_ReadyMsg inp) gen \<and>
     shows_condition cs ConditionGuestReady ConditionUnknown ''GuestReadinessUnavailable''
       ''smolvm guest readiness is not reported by the runtime API'' gen \<and>
     shows_condition cs ConditionReconciled (in_Recon inp) (in_ReconReason inp) (in_ReconMsg inp) gen \<and>
     (if in_DeletionBlockedReason inp \<noteq> []
      then shows_condition cs ConditionDeletionBlocked (in_DeletionBlocked inp) (in_DeletionBlockedReason inp)
        (in_DeletionBlockedMsg inp) gen
      else findCondition ConditionDeletionBlocked cs = findCondition ConditionDeletionBlocked old) \<and>
     (\<forall>ty. ty \<notin> {ConditionScheduled, ConditionReady, ConditionRuntimeReady, ConditionGuestReady, ConditionReconciled,
        ConditionDeletionBlocked} \<longrightarrow> findCondition ty cs = findCondition ty old)"

lemma nextConditions_shows_all: "shows_conditions inp gen cs (nextConditions t gen inp cs)"
  unfolding shows_conditions_def
proof (intro conjI, goal_cases)
  case 1
  have "(t 0, ConditionScheduled, in_Scheduled inp, in_ScheduledReason inp, in_ScheduledMsg inp) \<in> set (condition_updates t inp)"
    if "in_ScheduledReason inp \<noteq> []" using that by (simp add: condition_updates_def defaultScheduled_def Let_def)
  moreover have "(t 0, ConditionScheduled, ConditionTrue, ''Bound'', ''assigned to node '' @ in_NodeName inp) \<in> set (condition_updates t inp)"
    if "in_ScheduledReason inp = []" "in_NodeName inp \<noteq> []" using that by (simp add: condition_updates_def defaultScheduled_def Let_def)
  moreover have "ConditionScheduled \<notin> (fst \<circ> snd) ` set (condition_updates t inp)"
    if "in_ScheduledReason inp = []" "in_NodeName inp = []"
    using that by (auto simp: condition_updates_def defaultScheduled_def Let_def vm_condition_names)
  ultimately show ?case using nextConditions_shows nextConditions_other by (auto simp del: append.simps)
next
  case 6
  have "(t 5, ConditionDeletionBlocked, in_DeletionBlocked inp, in_DeletionBlockedReason inp, in_DeletionBlockedMsg inp)
      \<in> set (condition_updates t inp)"
    if "in_DeletionBlockedReason inp \<noteq> []" using that by (simp add: condition_updates_def defaultScheduled_def Let_def)
  moreover have "ConditionDeletionBlocked \<notin> (fst \<circ> snd) ` set (condition_updates t inp)"
    if "in_DeletionBlockedReason inp = []"
    using that by (auto simp: condition_updates_def defaultScheduled_def Let_def vm_condition_names)
  ultimately show ?case using nextConditions_shows nextConditions_other by auto
next
  case 7
  have "(fst \<circ> snd) ` set (condition_updates t inp) \<subseteq> {ConditionScheduled, ConditionReady, ConditionRuntimeReady,
      ConditionGuestReady, ConditionReconciled, ConditionDeletionBlocked}"
    by (auto simp: condition_updates_def Let_def)
  then show ?case by (intro allI impI nextConditions_other) blast
qed (rule nextConditions_shows [where u = "t 1"] nextConditions_shows [where u = "t 2"] nextConditions_shows [where u = "t 3"]
    nextConditions_shows [where u = "t 4"], simp add: condition_updates_def defaultScheduled_def Let_def; fail)+

text \<open>
  C24: a status that \<open>updateStatus\<close> writes shows its input on the object that it has just read: metadata and
  spec are those of the object; phase, node and machine name are those of the input, the observed generation
  that of the object; process, network, ports and disks are those of the machine of the input, or the old ones
  when it has none; and the conditions \<open>Ready\<close>, \<open>RuntimeReady\<close> and \<open>Reconciled\<close> have the given status,
  reason and message, guest readiness is unknown, \<open>Scheduled\<close> is the given one or, for a VM with a node, \<open>Bound\<close>,
  \<open>DeletionBlocked\<close> is the given one, and what the input leaves out is as it was.
\<close>

theorem written_status_shows_input:
  assumes "run_state (updateStatus E vm inp) h = (r, h @ es)" and "EvUpdateVMStatus v err \<in> set es"
  shows "\<exists>latest. hd es = EvGetVM (vm_key vm) (Inr latest) \<and> vm_Meta v = vm_Meta latest \<and> vm_Spec v = vm_Spec latest \<and>
    status_Phase (vm_Status v) = in_Phase inp \<and> vm_NodeName v = in_NodeName inp \<and>
    status_MachineName (vm_Status v) = in_MachineName inp \<and>
    status_ObservedGeneration (vm_Status v) = meta_Generation (vm_Meta latest) \<and>
    shows_machine (in_Machine inp) (vm_Status latest) (vm_Status v) \<and>
    shows_conditions inp (meta_Generation (vm_Meta latest)) (status_Conditions (vm_Status latest)) (status_Conditions (vm_Status v))"
proof -
  have "status_outcome E vm inp (snd r) es"
    using ensuresD [OF updateStatus_outcome assms(1)] by (cases r) simp
  then obtain latest t where "hd es = EvGetVM (vm_key vm) (Inr latest)" and "v = latest\<lparr>vm_Status := nextStatus t latest inp\<rparr>"
    using assms(2) by (auto simp: status_outcome_def Let_def split: if_splits)
  then show ?thesis
    using nextStatus_shows_machine nextConditions_shows_all by (intro exI [of _ latest]) simp
qed

lemma updateStatus_cluster_run:
  assumes "find_vm (vm_key vm) (cl_vms c) = Some latest"
    and "vm_Status latest \<noteq> nextStatus (frozen (cl_now c)) latest inp"
  shows "run_state (updateStatus (cluster_env c) vm inp) [] = ((noRequeue, None),
    [EvGetVM (vm_key vm) (Inr latest), EvNow (cl_now c), EvNow (cl_now c), EvNow (cl_now c), EvNow (cl_now c),
     EvNow (cl_now c), EvNow (cl_now c),
     EvUpdateVMStatus (latest\<lparr>vm_Status := nextStatus (frozen (cl_now c)) latest inp\<rparr>) None])"
  using assms by (simp add: updateStatus_def clock6_def call_defs Let_def frozen_def [abs_def])

theorem written_status_shows_input_witness:
  "\<exists>es v. run_state (updateStatus (bound_env None) example_bound_vm (unavailableInput ''n1'' ''m'' (ErrorString ''down''))) [] =
     ((noRequeue, None), es) \<and> EvUpdateVMStatus v None \<in> set es \<and> status_Phase (vm_Status v) = ''Unknown'' \<and>
     vm_NodeName v = ''n1'' \<and>
     shows_condition (status_Conditions (vm_Status v)) ConditionScheduled ConditionTrue ''Bound'' ''assigned to node n1''
       (meta_Generation (vm_Meta v))"
proof -
  let ?c = "example_cluster example_bound_vm None"
  let ?inp = "unavailableInput ''n1'' ''m'' (ErrorString ''down'')"
  have "status_Phase (nextStatus t example_bound_vm ?inp) \<noteq> status_Phase (vm_Status example_bound_vm)" for t
    by (simp add: unavailableInput_def example_bound_vm_def emptyStatus_def)
  then have "vm_Status example_bound_vm \<noteq> nextStatus t example_bound_vm ?inp" for t by metis
  then obtain es v where run: "run_state (updateStatus (bound_env None) example_bound_vm ?inp) [] = ((noRequeue, None), [] @ es)"
    and v: "EvUpdateVMStatus v None \<in> set es"
    using updateStatus_cluster_run [of example_bound_vm ?c example_bound_vm ?inp] example_found(2) [of None]
    by (auto simp: example_vm_facts)
  show ?thesis
    using written_status_shows_input [OF run v] run v by (auto simp: unavailableInput_def emptyInput_def shows_conditions_def)
qed

text \<open>
  C23: repeating a status update writes nothing: when the object read carries the status that an earlier
  update with the same input computed, at whatever time, no status is written.
\<close>

theorem repeated_status_is_not_written:
  assumes "env_ok E" and "run_state (updateStatus E vm inp) h = (r, h @ es)"
    and "hd es = EvGetVM (vm_key vm) (Inr (old\<lparr>vm_Status := nextStatus t old inp\<rparr>))"
  shows "\<forall>v err. EvUpdateVMStatus v err \<notin> set es"
proof -
  have "ensures (updateStatus E vm inp) (\<lambda>_ es.
      \<forall>v err. EvUpdateVMStatus v err \<in> set es \<longrightarrow>
        (\<exists>latest t. hd es = EvGetVM (vm_key vm) (Inr latest) \<and> vm_Status latest \<noteq> nextStatus t latest inp))"
    unfolding updateStatus_def call_defs
  proof (intro ensures_rules, goal_cases)
    case (2 h latest)
    show ?case
      by (rule ensures_bind_of [OF clock6_ensures], intro ensures_rules)
        (use 2 assms(1) in \<open>auto simp: env_ok_def\<close>)
  qed simp
  from ensuresD [OF this assms(2)] assms(3) nextStatus_idem show ?thesis by fastforce
qed

theorem repeated_status_is_not_written_witness:
  "\<exists>es old. let vm = old\<lparr>vm_Status := nextStatus (frozen 100) old (unavailableInput ''n1'' ''m'' (ErrorString ''down''))\<rparr> in
     run_state (updateStatus (cluster_env (example_cluster vm None)) vm (unavailableInput ''n1'' ''m'' (ErrorString ''down''))) [] =
       ((noRequeue, None), es) \<and> (\<forall>v err. EvUpdateVMStatus v err \<notin> set es)"
proof -
  let ?inp = "unavailableInput ''n1'' ''m'' (ErrorString ''down'')"
  let ?vm = "example_bound_vm\<lparr>vm_Status := nextStatus (frozen 100) example_bound_vm ?inp\<rparr>"
  let ?c = "example_cluster ?vm None"
  have "find_vm (vm_key ?vm) (cl_vms ?c) = Some ?vm" by (simp add: find_vm_def example_cluster_def)
  then obtain es where run: "run_state (updateStatus (cluster_env ?c) ?vm ?inp) [] = ((noRequeue, None), [] @ es)"
    and hd: "hd es = EvGetVM (vm_key ?vm) (Inr ?vm)"
    by (simp add: updateStatus_def clock6_def call_defs Let_def nextStatus_idem)
  from repeated_status_is_not_written [OF cluster_env_ok run hd] run show ?thesis
    unfolding Let_def append_Nil by blast
qed

end
