(* ===== verification/Scheduler_Spec.thy ===== *)
theory Scheduler_Spec
  imports Example_Runs
begin

text \<open>
  The properties of the scheduler and of the watch handler.
\<close>

section \<open>Choosing a node\<close>

text \<open>
  C16: while the cluster does not change, \<open>schedule\<close> is first fit: for a VM that is not pinned it returns
  the first listed node that is acceptable, and no node when none is.
\<close>

theorem schedule_is_first_fit:
  assumes "quiet_from E h" and "spec_NodeName (vm_Spec vm) = []"
    and "env_ListVM E h = Inr items" and "env_ListSmolVMNode E h = Inr nodes"
  shows "\<exists>msg. fst (run_state (schedule E vm) h) =
    Inr (name_of (find (node_ok E h vm (bound_of vm items)) nodes), msg)"
  by (rule schedule_quiet_unpinned [OF assms])

theorem schedule_is_first_fit_witness:
  "\<exists>msg. fst (run_state (schedule (cluster_env (example_cluster example_vm None)) example_vm) []) = Inr (''n1'', msg)"
proof -
  let ?E = "cluster_env (example_cluster example_vm None)"
  have "node_ok ?E [] example_vm (bound_of example_vm [example_vm]) example_smolvmnode"
    using example_accepts [of None] ref.node_ok_accepts [of "example_cluster example_vm None" "[]" example_vm]
    by (simp add: example_cluster_def split: if_splits)
  then show ?thesis
    using schedule_is_first_fit [OF ref.quiet_from_cluster, of example_vm "example_cluster example_vm None" "[]"
        "[example_vm]" "[example_smolvmnode]"]
    by (simp add: example_cluster_def name_of_def) (simp add: example_defs)
qed

text \<open>
  C15: a node that \<open>schedule\<close> returns has room.  It is the \<open>SmolVMNode\<close> that the run has read by name for a
  pinned VM, and otherwise one of those it has listed; among the VMs the run has listed as bound to it, the
  demand with the new VM stays within every amount that node declares, as long as the sums do not leave the range
  of the machine integers, and no host port is used twice.
\<close>

theorem scheduled_node_has_room:
  assumes "run_state (schedule E vm) h = (Inr (n, msg), h @ es)" and "n \<noteq> []"
    and "\<And>items. EvListVM (Inr items) \<in> set es \<Longrightarrow> demand_in_range (vm # on_node n (bound_of vm items))"
  shows "\<exists>node items. sn_Name node = n \<and> EvListVM (Inr items) \<in> set es \<and>
    (if spec_NodeName (vm_Spec vm) \<noteq> []
     then EvGetSmolVMNode (spec_NodeName (vm_Spec vm)) (Inr node) \<in> set es
     else \<exists>nodes. EvListSmolVMNode (Inr nodes) \<in> set es \<and> node \<in> set nodes) \<and>
    within_capacity node (vm # on_node n (bound_of vm items)) \<and>
    (\<forall>other \<in> set (on_node n (bound_of vm items)).
       HostPort ` set (vm_Ports other) \<inter> HostPort ` set (vm_Ports vm) = {})"
proof -
  have "chosen vm n es"
    using ensuresD [OF schedule_ensures assms(1)] assms(2) by (simp add: schedule_sound_def)
  then obtain node items now k8sNode where node: "sn_Name node = n" "EvListVM (Inr items) \<in> set es"
    "if spec_NodeName (vm_Spec vm) \<noteq> [] then EvGetSmolVMNode (spec_NodeName (vm_Spec vm)) (Inr node) \<in> set es
     else \<exists>nodes. EvListSmolVMNode (Inr nodes) \<in> set es \<and> node \<in> set nodes"
    and acc: "acceptable now node k8sNode vm (bound_of vm items)"
    unfolding chosen_def by metis
  have "within_capacity node (vm # on_node n (bound_of vm items))"
    using resourceFitReason_Nil [of vm node "bound_of vm items"] assms(3) node acc by (auto simp: acceptable_def)
  moreover have "\<forall>other \<in> set (on_node n (bound_of vm items)). HostPort ` set (vm_Ports other) \<inter> HostPort ` set (vm_Ports vm) = {}"
    using acc node(1) by (auto simp: acceptable_def no_port_conflict_def)
  ultimately show ?thesis using node by blast
qed

theorem scheduled_node_has_room_witness:
  "sn_Name example_smolvmnode = ''n1'' \<and>
   within_capacity example_smolvmnode (example_vm # on_node ''n1'' (bound_of example_vm [example_vm]))"
proof -
  let ?es = "[EvListVM (Inr [example_vm]), EvListSmolVMNode (Inr [example_smolvmnode]), EvNow 100,
     EvGetNode ''n1'' (Inr example_node)]"
  have run: "run_state (schedule (cluster_env (example_cluster example_vm None)) example_vm)
      [EvGetVM example_key (Inr example_vm)] = (Inr (''n1'', []), [EvGetVM example_key (Inr example_vm)] @ ?es)"
    using example_schedule by (simp add: schedule_prefix_def)
  have range: "demand_in_range (example_vm # on_node ''n1'' (bound_of example_vm [example_vm]))"
    by (simp add: demand_in_range_def demand_defs bound_of_def example_defs)
  show ?thesis
    using scheduled_node_has_room [OF run] range by (auto simp: example_vm_facts split: if_splits)
qed

text \<open>
  C25: the capacity check is exact where the sums stay in range: a node is accepted exactly when the
  demand of the VMs on it, the new one included, is within every positive allocatable amount.
\<close>

theorem capacity_check_is_exact:
  assumes "demand_in_range (vm # on_node (sn_Name node) bound)"
  shows "resourceFitReason node vm bound = [] \<longleftrightarrow> within_capacity node (vm # on_node (sn_Name node) bound)"
  by (rule resourceFitReason_Nil [OF assms])

theorem capacity_check_is_exact_witness:
  "resourceFitReason example_smolvmnode example_vm [] = [] \<and>
   within_capacity example_smolvmnode (example_vm # on_node ''n1'' [])"
proof -
  have "demand_in_range (example_vm # on_node (sn_Name example_smolvmnode) [])"
    by (simp add: demand_in_range_def demand_defs example_defs)
  moreover have "resourceFitReason example_smolvmnode example_vm [] = []" "sn_Name example_smolvmnode = ''n1''"
    by (simp_all add: resourceFitReason_def example_defs)
  ultimately show ?thesis using capacity_check_is_exact [of example_vm example_smolvmnode "[]"] by simp
qed

section \<open>Watches\<close>

text \<open>
  A change of a node triggers exactly the VMs bound to it and the unbound VMs that are not pinned
  elsewhere.
\<close>

lemma node_change_requests:
  assumes "run_state (requestsForNodeChange E nodeName) h = (reqs, h @ es)" and "es = [EvListVM (Inr items)]"
  shows "set reqs = vm_key ` {vm \<in> set items. vm_NodeName vm = nodeName \<or>
    vm_NodeName vm = [] \<and> spec_NodeName (vm_Spec vm) \<in> {[], nodeName}}"
  using ensuresD [OF requestsForNodeChange_ensures assms(1)] assms(2) by (auto simp: vm_key_def)

end
