(* ===== verification/Validation_Spec.thy ===== *)
theory Validation_Spec
  imports Example_Runs
begin

text \<open>
  The properties of spec validation, of the comparison of a spec with its machine, and of machine
  names.
\<close>

text \<open>
  C26: \<open>validateSpec\<close> accepts exactly the specs that name one source, use no host port twice, allow only
  parsable CIDRs and do not contradict the node the VM is bound to.
\<close>

theorem validateSpec_is_exact:
  "validateSpec vm = None \<longleftrightarrow>
     (vm_NodeName vm = [] \<or> spec_NodeName (vm_Spec vm) = [] \<or> spec_NodeName (vm_Spec vm) = vm_NodeName vm) \<and>
     (spec_Image (vm_Spec vm) = []) \<noteq> (spec_From (vm_Spec vm) = []) \<and>
     distinct (map HostPort (vm_Ports vm)) \<and>
     list_all (\<lambda>c. ParseCIDR c = None) (net_AllowedCIDRs (spec_Network (vm_Spec vm)))"
  by (auto simp: validateSpec_None spec_valid_def list_all_iff)

text \<open>
  C27: what the CRD schema admits can fail validation only because \<open>spec.nodeName\<close> contradicts the node
  the VM is bound to, provided the schema's \<open>cidr\<close> format accepts only what \<open>net.ParseCIDR\<close> parses.
\<close>

theorem admitted_spec_fails_only_on_node:
  assumes "\<And>c. cidr c \<Longrightarrow> ParseCIDR c = None" and "schema_admits cidr (vm_Spec vm)"
    and "validateSpec vm = Some err"
  shows "vm_NodeName vm \<noteq> [] \<and> spec_NodeName (vm_Spec vm) \<notin> {[], vm_NodeName vm} \<and>
    err = ErrorString (''spec.nodeName is immutable after binding; machine is owned by node '' @ Quote (vm_NodeName vm))"
proof -
  have "\<not> spec_valid vm" using assms(3) validateSpec_None [of vm] by auto
  moreover have "list_all (\<lambda>c. ParseCIDR c = None) (net_AllowedCIDRs (spec_Network (vm_Spec vm)))"
    using assms(1,2) by (auto simp: schema_admits_def list_all_iff)
  ultimately have "vm_NodeName vm \<noteq> [] \<and> spec_NodeName (vm_Spec vm) \<notin> {[], vm_NodeName vm}"
    using assms(2) by (auto simp: spec_valid_def schema_admits_def list_all_iff)
  then show ?thesis using assms(3) by (simp add: validateSpec_def Let_def)
qed

definition contradicting_vm :: SmolVM where
  "contradicting_vm = example_bound_vm\<lparr>vm_Spec := (vm_Spec example_bound_vm)\<lparr>spec_NodeName := ''n2'',
     spec_Network := (spec_Network (vm_Spec example_bound_vm))\<lparr>net_AllowedCIDRs := [''10.0.0.0/8'']\<rparr>\<rparr>\<rparr>"

lemma example_cidr: "ParseCIDR ''10.0.0.0/8'' = None"
proof -
  have "dotted_quad 10 0 0 0 @ ''/'' @ nat_dec 8 = ''10.0.0.0/8''" by code_simp
  with ParseCIDR_dotted_quad [of 10 0 0 0 8] show ?thesis by simp
qed

theorem admitted_spec_fails_only_on_node_witness:
  "schema_admits (\<lambda>s. s = ''10.0.0.0/8'') (vm_Spec contradicting_vm) \<and>
   validateSpec contradicting_vm = Some (ErrorString
     (''spec.nodeName is immutable after binding; machine is owned by node '' @ Quote ''n1''))"
proof -
  let ?cidr = "\<lambda>s. s = ''10.0.0.0/8''"
  have node: "vm_NodeName contradicting_vm = ''n1''" "spec_NodeName (vm_Spec contradicting_vm) = ''n2''"
    by (simp_all add: contradicting_vm_def example_bound_vm_def emptyStatus_def)
  have adm: "schema_admits ?cidr (vm_Spec contradicting_vm)"
    by (simp add: schema_admits_def optional_min_def schema_port_def contradicting_vm_def example_defs)
  moreover have "\<And>s. ?cidr s \<Longrightarrow> ParseCIDR s = None" by (simp only: example_cidr)
  moreover obtain err where err: "validateSpec contradicting_vm = Some err"
    using node by (simp add: validateSpec_def Let_def)
  ultimately show ?thesis
    using admitted_spec_fails_only_on_node [of ?cidr contradicting_vm err] node by simp
qed

text \<open>
  C29: \<open>samePorts\<close>, which sorts texts of the mappings, decides equality of the two multisets of port
  mappings: order does not matter, multiplicity does.
\<close>

theorem samePorts_is_multiset_equality:
  "samePorts sp rt \<longleftrightarrow>
   mset (map (\<lambda>p. (HostPort p, GuestPort p)) sp) = mset (map (\<lambda>p. (port_Host p, port_Guest p)) rt)"
  by (rule samePorts_mset)

text \<open>
  C28: create and compare agree: a machine that reports what its create request asked for is never
  rejected as an unsupported update or as shrunk, and needs no resize.
\<close>

theorem created_machine_conforms:
  assumes "request = buildCreateRequest vm name"
    and "mi_CPUs m = create_CPUs request" and "mi_MemoryMiB m = create_MemoryMiB request"
    and "mi_Ports m = create_Ports request" and "mi_StorageGB m = create_StorageGB request"
    and "mi_OverlayGB m = create_OverlayGB request"
  shows "validateImmutableRuntimeFields vm m = None \<and> validateStorageDoesNotShrink vm m = None \<and>
    \<not> needsStorageExpansion vm m"
  using samePorts_created [of vm name] assms
  by (auto simp: validateImmutableRuntimeFields_def validateStorageDoesNotShrink_None
      needsStorageExpansion_def buildCreateRequest_def shrinks_def grows_def positive_def)

theorem created_machine_conforms_witness:
  "validateImmutableRuntimeFields example_vm (created_machine (buildCreateRequest example_vm ''m'')) = None"
  using created_machine_conforms [of "buildCreateRequest example_vm ''m''" example_vm "''m''"
      "created_machine (buildCreateRequest example_vm ''m'')"] by (simp add: created_machine_def)

text \<open>
  The machine name of a VM has the prefix by which the runtime agent recognises machines of the
  operator, names the VM's namespace and name, and ends in ten hexadecimal digits.
\<close>

lemma machine_name_shape:
  "\<exists>uid. stableMachineName vm = ''k8s-'' @ vm_Namespace vm @ ''-'' @ vm_Name vm @ ''-'' @ uid \<and>
     length uid = 10 \<and> set uid \<subseteq> set ''0123456789abcdef''"
proof -
  have "set (take 10 (EncodeToString (Sum256 (vm_UID vm)))) \<subseteq> set ''0123456789abcdef''"
    using EncodeToString_hex set_take_subset by fastforce
  moreover have "length (take 10 (EncodeToString (Sum256 (vm_UID vm)))) = 10"
    by (simp add: length_EncodeToString length_Sum256)
  ultimately show ?thesis by (auto simp: stableMachineName_def Let_def)
qed

end
