(* ===== verification/Go_Utf8.thy ===== *)
theory Go_Utf8
  imports Go_Lib
begin

text \<open>
  The package \<open>unicode/utf8\<close>, \<open>strings.TrimSpace\<close> and \<open>url.PathEscape\<close>: what the JSON codec and the HTTP
  client use of the standard library for text.  A rune is a natural number.
\<close>

section \<open>Runes\<close>

abbreviation byte :: "char \<Rightarrow> nat" where "byte c \<equiv> of_char c"

definition RuneError :: nat where "RuneError = 0xFFFD"

definition continuation :: "char \<Rightarrow> bool" where
  "continuation c \<longleftrightarrow> 0x80 \<le> byte c \<and> byte c \<le> 0xBF"

text \<open>
  \<open>utf8.DecodeRune\<close>: the first rune and its width in bytes; an invalid encoding is \<open>RuneError\<close> of width
  1.  The bounds on the second byte exclude overlong forms, surrogates and values above 10FFFF.
\<close>

definition second_ok :: "nat \<Rightarrow> nat \<Rightarrow> bool" where
  "second_ok b0 b1 \<longleftrightarrow>
     (if b0 = 0xE0 then 0xA0 \<le> b1 \<and> b1 \<le> 0xBF
      else if b0 = 0xED then 0x80 \<le> b1 \<and> b1 \<le> 0x9F
      else if b0 = 0xF0 then 0x90 \<le> b1 \<and> b1 \<le> 0xBF
      else if b0 = 0xF4 then 0x80 \<le> b1 \<and> b1 \<le> 0x8F
      else 0x80 \<le> b1 \<and> b1 \<le> 0xBF)"

definition width :: "nat \<Rightarrow> nat" where
  "width b0 =
     (if b0 < 0x80 then 1 else if 0xC2 \<le> b0 \<and> b0 \<le> 0xDF then 2
      else if 0xE0 \<le> b0 \<and> b0 \<le> 0xEF then 3 else if 0xF0 \<le> b0 \<and> b0 \<le> 0xF4 then 4 else 0)"

definition DecodeRune :: "string \<Rightarrow> nat \<times> nat" where
  "DecodeRune s =
     (case s of
        [] \<Rightarrow> (RuneError, 0)
      | c0 # s1 \<Rightarrow>
          let b0 = byte c0; invalid = (RuneError, 1) in
          if width b0 = 1 then (b0, 1)
          else if width b0 = 2 then
            (case s1 of
               c1 # _ \<Rightarrow> if second_ok b0 (byte c1) then ((b0 - 0xC0) * 64 + (byte c1 - 0x80), 2) else invalid
             | _ \<Rightarrow> invalid)
          else if width b0 = 3 then
            (case s1 of
               c1 # c2 # _ \<Rightarrow>
                 if second_ok b0 (byte c1) \<and> continuation c2
                 then ((b0 - 0xE0) * 4096 + (byte c1 - 0x80) * 64 + (byte c2 - 0x80), 3)
                 else invalid
             | _ \<Rightarrow> invalid)
          else if width b0 = 4 then
            (case s1 of
               c1 # c2 # c3 # _ \<Rightarrow>
                 if second_ok b0 (byte c1) \<and> continuation c2 \<and> continuation c3
                 then ((b0 - 0xF0) * 262144 + (byte c1 - 0x80) * 4096 + (byte c2 - 0x80) * 64 + (byte c3 - 0x80), 4)
                 else invalid
             | _ \<Rightarrow> invalid)
          else invalid)"

text \<open>\<open>utf8.EncodeRune\<close>: surrogates and values out of range are encoded as \<open>RuneError\<close>.\<close>

definition EncodeRune :: "nat \<Rightarrow> string" where
  "EncodeRune r =
     (let r = (if 0xD800 \<le> r \<and> r \<le> 0xDFFF \<or> 0x10FFFF < r then RuneError else r) in
      if r < 0x80 then [char_of r]
      else if r < 0x800 then [char_of (0xC0 + r div 64), char_of (0x80 + r mod 64)]
      else if r < 0x10000
      then [char_of (0xE0 + r div 4096), char_of (0x80 + r div 64 mod 64), char_of (0x80 + r mod 64)]
      else [char_of (0xF0 + r div 262144), char_of (0x80 + r div 4096 mod 64),
            char_of (0x80 + r div 64 mod 64), char_of (0x80 + r mod 64)])"

lemma DecodeRune_ascii: "byte c < 0x80 \<Longrightarrow> DecodeRune (c # s) = (byte c, 1)"
  by (simp add: DecodeRune_def width_def)

lemma second_ok_bounds: "second_ok b0 b1 \<Longrightarrow> 0x80 \<le> b1 \<and> b1 \<le> 0xBF"
  by (auto simp: second_ok_def split: if_splits)

lemma second_ok_three: "second_ok b0 b1 \<Longrightarrow> b0 = 0xE0 \<Longrightarrow> 0xA0 \<le> b1"
  by (simp add: second_ok_def)

text \<open>The three shapes of a valid rune of more than one byte.\<close>

lemma DecodeRune_two:
  assumes "width (byte c0) = 2" and "second_ok (byte c0) (byte c1)"
  shows "DecodeRune (c0 # c1 # t) = ((byte c0 - 0xC0) * 64 + (byte c1 - 0x80), 2)"
  using assms by (simp add: DecodeRune_def Let_def)

lemma DecodeRune_three:
  assumes "width (byte c0) = 3" and "second_ok (byte c0) (byte c1)" and "continuation c2"
  shows "DecodeRune (c0 # c1 # c2 # t) =
    ((byte c0 - 0xE0) * 4096 + (byte c1 - 0x80) * 64 + (byte c2 - 0x80), 3)"
  using assms by (simp add: DecodeRune_def Let_def)

lemma DecodeRune_four:
  assumes "width (byte c0) = 4" and "second_ok (byte c0) (byte c1)" and "continuation c2" and "continuation c3"
  shows "DecodeRune (c0 # c1 # c2 # c3 # t) =
    ((byte c0 - 0xF0) * 262144 + (byte c1 - 0x80) * 4096 + (byte c2 - 0x80) * 64 + (byte c3 - 0x80), 4)"
  using assms by (simp add: DecodeRune_def Let_def)

lemma DecodeRune_wide_cases:
  assumes "1 < snd (DecodeRune s)"
  obtains (two) c0 c1 t where "s = c0 # c1 # t" "width (byte c0) = 2" "second_ok (byte c0) (byte c1)"
  | (three) c0 c1 c2 t where "s = c0 # c1 # c2 # t" "width (byte c0) = 3" "second_ok (byte c0) (byte c1)"
      "continuation c2"
  | (four) c0 c1 c2 c3 t where "s = c0 # c1 # c2 # c3 # t" "width (byte c0) = 4"
      "second_ok (byte c0) (byte c1)" "continuation c2" "continuation c3"
  using assms by (auto simp: DecodeRune_def Let_def split: list.splits if_splits)

lemma EncodeRune_three:
  assumes "width (byte c0) = 3" and "second_ok (byte c0) (byte c1)" and "continuation c2"
  shows "EncodeRune ((byte c0 - 0xE0) * 4096 + (byte c1 - 0x80) * 64 + (byte c2 - 0x80)) = [c0, c1, c2]"
proof -
  obtain x y z where x: "byte c0 = 0xE0 + x" "x < 16" and y: "byte c1 = 0x80 + y" "y < 64"
    and z: "byte c2 = 0x80 + z" "z < 64"
    using assms second_ok_bounds [OF assms(2)]
    by (auto simp: width_def continuation_def nat_le_iff_add split: if_splits)
  have c: "c0 = char_of (0xE0 + x)" "c1 = char_of (0x80 + y)" "c2 = char_of (0x80 + z)"
    using x(1) y(1) z(1) by (metis char_of_char)+
  let ?r = "x * 4096 + y * 64 + z"
  have r: "?r = z + 64 * (x * 64 + y)" by simp
  have low: "?r mod 64 = z" "?r div 64 = x * 64 + y"
  proof -
    have "(z + 64 * w) mod 64 = z" "(z + 64 * w) div 64 = w" for w using z(2) by simp_all
    then show "?r mod 64 = z" "?r div 64 = x * 64 + y" unfolding r by blast+
  qed
  then have "?r div 64 mod 64 = y" "?r div 4096 = x"
    using y(2) div_mult2_eq [of ?r 64 64] by simp_all
  moreover have first: "x = 0 \<Longrightarrow> 32 \<le> y" and last: "x = 13 \<Longrightarrow> y < 32"
    using assms(2) x y by (simp_all add: second_ok_def)
  have "0x800 \<le> ?r" "?r < 0x10000" using first x(2) y(2) z(2) by linarith+
  moreover have "\<not> (0xD800 \<le> ?r \<and> ?r \<le> 0xDFFF)"
  proof (cases "x = 13")
    case False
    then have "x \<le> 12 \<or> 14 \<le> x" by linarith
    then show ?thesis using y(2) z(2) by linarith
  qed (use last y(2) z(2) in simp)
  ultimately show ?thesis using low(1) x(1) y(1) z(1) c by (auto simp: EncodeRune_def)
qed

section \<open>Valid text\<close>

function valid_utf8 :: "string \<Rightarrow> bool" where
  "valid_utf8 [] \<longleftrightarrow> True"
| "valid_utf8 (c # s) \<longleftrightarrow>
     (if byte c < 0x80 then valid_utf8 s
      else if 1 < snd (DecodeRune (c # s)) then valid_utf8 (drop (snd (DecodeRune (c # s))) (c # s))
      else False)"
  by pat_completeness auto
termination by (relation "measure length") auto

lemma valid_utf8_ascii: "\<forall>c \<in> set s. byte c < 0x80 \<Longrightarrow> valid_utf8 s"
  by (induction s) auto

text \<open>A wide rune starts with a byte outside ASCII, and only its own bytes decide it.\<close>

lemma take_rune:
  "take 3 (a # b # c # t) = [a, b, c]" "take 4 (a # b # c # d # t) = [a, b, c, d]"
  by (simp_all add: numeral_eq_Suc)

lemma DecodeRune_wide:
  assumes "1 < snd (DecodeRune s)"
  shows "\<exists>n r. DecodeRune s = (r, n) \<and> 1 < n \<and> n \<le> length s \<and> (\<forall>c \<in> set (take n s). 0x80 \<le> byte c) \<and>
    (\<forall>t. DecodeRune (take n s @ t) = (r, n))"
  using assms
proof (cases rule: DecodeRune_wide_cases)
  case (two c0 c1 t)
  then show ?thesis using second_ok_bounds [OF two(3)]
    by (auto simp: DecodeRune_two width_def split: if_splits)
next
  case (three c0 c1 c2 t)
  then show ?thesis using second_ok_bounds [OF three(3)]
    by (auto simp: DecodeRune_three take_rune width_def continuation_def split: if_splits)
next
  case (four c0 c1 c2 c3 t)
  then show ?thesis using second_ok_bounds [OF four(3)]
    by (auto simp: DecodeRune_four take_rune width_def continuation_def split: if_splits)
qed

text \<open>The runes that the JSON encoder escapes although they are valid have three bytes.\<close>

lemma DecodeRune_separator:
  assumes "DecodeRune s = (r, n)" and "r = 0x2028 \<or> r = 0x2029" and "1 < n"
  shows "EncodeRune r = take n s"
proof -
  from assms have "1 < snd (DecodeRune s)" by simp
  then show ?thesis
  proof (cases rule: DecodeRune_wide_cases)
    case (two c0 c1 t)
    then have "byte c0 \<le> 0xDF" "byte c1 \<le> 0xBF"
      using second_ok_bounds [OF two(3)] by (auto simp: width_def split: if_splits)
    then show ?thesis using two assms by (auto simp: DecodeRune_two)
  next
    case (three c0 c1 c2 t)
    then have "n = 3" and "r = (byte c0 - 0xE0) * 4096 + (byte c1 - 0x80) * 64 + (byte c2 - 0x80)"
      using assms(1) by (simp_all add: DecodeRune_three)
    then show ?thesis using three(1) EncodeRune_three [OF three(2-4)] by (simp add: take_rune)
  next
    case (four c0 c1 c2 c3 t)
    then have "0x90 \<le> byte c1 \<or> 0xF1 \<le> byte c0"
      by (auto simp: width_def second_ok_def split: if_splits)
    then show ?thesis using four assms by (auto simp: DecodeRune_four)
  qed
qed

section \<open>Trimming\<close>

text \<open>\<open>strings.TrimSpace\<close>: the encodings of the runes for which \<open>unicode.IsSpace\<close> holds.\<close>

definition space_runes :: "nat list" where
  "space_runes = [9, 10, 11, 12, 13, 32, 0x85, 0xA0, 0x1680] @ [0x2000..<0x200B] @ [0x2028, 0x2029, 0x202F, 0x205F, 0x3000]"

definition spaces :: "string list" where
  "spaces = map EncodeRune space_runes"

fun trimLeft :: "string list \<Rightarrow> nat \<Rightarrow> string \<Rightarrow> string" where
  "trimLeft sp 0 s = s"
| "trimLeft sp (Suc n) s =
     (case find (\<lambda>p. HasPrefix s p) sp of None \<Rightarrow> s | Some p \<Rightarrow> trimLeft sp n (drop (length p) s))"

definition TrimSpace :: "string \<Rightarrow> string" where
  "TrimSpace s =
     (let s = trimLeft spaces (length s) s
      in rev (trimLeft (map rev spaces) (length s) (rev s)))"

section \<open>Path segments of a URL\<close>

definition unreserved :: "char \<Rightarrow> bool" where
  "unreserved c \<longleftrightarrow>
     (let b = byte c in
      48 \<le> b \<and> b \<le> 57 \<or> 65 \<le> b \<and> b \<le> 90 \<or> 97 \<le> b \<and> b \<le> 122) \<or> c \<in> set ''-_.~$&+:=@''"

definition upper_hex :: "nat \<Rightarrow> char" where
  "upper_hex d = (if d < 10 then char_of (48 + d) else char_of (55 + d))"

definition PathEscape :: "string \<Rightarrow> string" where
  "PathEscape s = concat (map (\<lambda>c. if unreserved c then [c]
     else [CHR ''%'', upper_hex (byte c div 16), upper_hex (byte c mod 16)]) s)"

text \<open>What a server makes of the path of a request: \<open>None\<close> for a malformed escape.\<close>

definition unhex :: "char \<Rightarrow> nat option" where
  "unhex c =
     (let b = byte c in
      if 48 \<le> b \<and> b \<le> 57 then Some (b - 48) else if 97 \<le> b \<and> b \<le> 102 then Some (b - 87)
      else if 65 \<le> b \<and> b \<le> 70 then Some (b - 55) else None)"

fun unescape :: "string \<Rightarrow> string option" where
  "unescape [] = Some []"
| "unescape (c # s) =
     (if c = CHR ''%'' then
        (case s of
           x # y # t \<Rightarrow>
             (case (unhex x, unhex y) of
                (Some a, Some b) \<Rightarrow> map_option (\<lambda>r. char_of (16 * a + b) # r) (unescape t)
              | _ \<Rightarrow> None)
         | _ \<Rightarrow> None)
      else map_option (\<lambda>r. c # r) (unescape s))"

lemma unhex_upper_hex: "d < 16 \<Longrightarrow> unhex (upper_hex d) = Some d"
  by (auto simp: unhex_def upper_hex_def Let_def)

lemma unescape_PathEscape: "unescape (PathEscape s) = Some s"
proof (induction s)
  case (Cons c s)
  have "\<not> unreserved CHR ''%''" by (simp add: unreserved_def)
  moreover have "byte c div 16 < 16" by (simp add: less_mult_imp_div_less)
  ultimately show ?case using Cons by (auto simp: PathEscape_def unhex_upper_hex)
qed (simp add: PathEscape_def)

lemma unescape_append:
  "unescape s = Some t \<Longrightarrow> unescape (s @ u) = map_option (\<lambda>r. t @ r) (unescape u)"
proof (induction s arbitrary: t rule: unescape.induct)
  case (2 c s)
  then show ?case
    by (cases "unescape u") (auto split: if_splits list.splits option.splits)
next
  case 1
  then show ?case by (cases "unescape u") auto
qed

lemma unescape_plain: "CHR ''%'' \<notin> set s \<Longrightarrow> unescape s = Some s"
  by (induction s) auto

end
