(* ===== verification/Go_Json.thy ===== *)
theory Go_Json
  imports Go_Utf8
begin

text \<open>
  The package \<open>encoding/json\<close> as the program uses it: \<open>json.Marshal\<close> and \<open>Encoder.Encode\<close> of structs,
  \<open>json.Unmarshal\<close> and \<open>Decoder.Decode\<close> into structs.  A document is text; in between stands the tree
  \<open>json\<close>, in which a number keeps its literal.  The main result is that printing and parsing are inverse
  on the trees the program prints.
\<close>

datatype json =
    JNull
  | JBool bool
  | JNum string
  | JStr string
  | JArr "json list"
  | JObj "(string \<times> json) list"

section \<open>Strings\<close>

abbreviation quote :: char where "quote \<equiv> CHR 0x22"
abbreviation backslash :: char where "backslash \<equiv> CHR 0x5C"

text \<open>
  The encoder escapes quotes, backslashes, control characters, the characters of HTML markup and the
  two line separators of JavaScript; a byte that is no valid UTF-8 becomes the replacement character.
\<close>

definition escape_ascii :: "char \<Rightarrow> string" where
  "escape_ascii c =
     (let b = byte c in
      if b = 34 \<or> b = 92 then [backslash, c]
      else if b = 8 then [backslash, CHR ''b''] else if b = 12 then [backslash, CHR ''f'']
      else if b = 10 then [backslash, CHR ''n''] else if b = 13 then [backslash, CHR ''r'']
      else if b = 9 then [backslash, CHR ''t'']
      else if b < 32 \<or> b = 60 \<or> b = 62 \<or> b = 38 then [backslash, CHR ''u'', CHR ''0'', CHR ''0''] @ hex_byte b
      else [c])"

function escape_string :: "string \<Rightarrow> string" where
  "escape_string [] = []"
| "escape_string (c # s) =
     (if byte c < 0x80 then escape_ascii c @ escape_string s
      else
        let (r, n) = DecodeRune (c # s) in
        if 1 < n then
          (if r = 0x2028 \<or> r = 0x2029 then [backslash] @ ''u202'' @ [hex_digit (r mod 16)]
           else take n (c # s)) @ escape_string (drop n (c # s))
        else [backslash] @ ''ufffd'' @ escape_string s)"
  by pat_completeness auto
termination by (relation "measure length") auto

text \<open>The four digits of a \<open>\\u\<close> escape.\<close>

definition getu4 :: "string \<Rightarrow> (nat \<times> string) option" where
  "getu4 s =
     (case s of
        a # b # c # d # t \<Rightarrow>
          (case (unhex a, unhex b, unhex c, unhex d) of
             (Some w, Some x, Some y, Some z) \<Rightarrow> Some (((w * 16 + x) * 16 + y) * 16 + z, t)
           | _ \<Rightarrow> None)
      | _ \<Rightarrow> None)"

text \<open>
  After a \<open>\\u\<close> escape with value \<open>r\<close>: a surrogate is combined with a following \<open>\\u\<close> escape when the two
  form a pair, and is the replacement character otherwise.
\<close>

definition unescape_rune :: "nat \<Rightarrow> string \<Rightarrow> nat \<times> string" where
  "unescape_rune r s =
     (if \<not> (0xD800 \<le> r \<and> r \<le> 0xDFFF) then (r, s)
      else (case s of
          x # y # t \<Rightarrow>
            if x = backslash \<and> y = CHR ''u'' then
              (case getu4 t of
                 Some (r2, t2) \<Rightarrow>
                   if r \<le> 0xDBFF \<and> 0xDC00 \<le> r2 \<and> r2 \<le> 0xDFFF
                   then ((r - 0xD800) * 1024 + (r2 - 0xDC00) + 0x10000, t2)
                   else (RuneError, s)
               | None \<Rightarrow> (RuneError, s))
            else (RuneError, s)
        | _ \<Rightarrow> (RuneError, s)))"

lemma getu4_length: "getu4 s = Some (r, t) \<Longrightarrow> length t < length s"
  by (auto simp: getu4_def split: list.splits option.splits)

lemma unescape_rune_length: "length (snd (unescape_rune r s)) \<le> length s"
  by (auto simp: unescape_rune_def split: list.splits option.splits prod.splits dest!: getu4_length)

definition simple_escape :: "char \<Rightarrow> char option" where
  "simple_escape c =
     (if c \<in> {quote, backslash, CHR ''/''} then Some c
      else if c = CHR ''b'' then Some (char_of (8::nat)) else if c = CHR ''f'' then Some (char_of (12::nat))
      else if c = CHR ''n'' then Some (char_of (10::nat)) else if c = CHR ''r'' then Some (char_of (13::nat))
      else if c = CHR ''t'' then Some (char_of (9::nat)) else None)"

text \<open>The rest of a string literal after its opening quote, and the input after its closing one.\<close>

function parse_string :: "string \<Rightarrow> (string \<times> string) option" where
  "parse_string [] = None"
| "parse_string (c # s) =
     (if c = quote then Some ([], s)
      else if c = backslash then
        (case s of
           [] \<Rightarrow> None
         | e # t \<Rightarrow>
             if e = CHR ''u'' then
               (case getu4 t of
                  None \<Rightarrow> None
                | Some (r, t2) \<Rightarrow>
                    map_option (\<lambda>(x, rest). (EncodeRune (fst (unescape_rune r t2)) @ x, rest))
                      (parse_string (snd (unescape_rune r t2))))
             else (case simple_escape e of
                 None \<Rightarrow> None
               | Some d \<Rightarrow> map_option (\<lambda>(x, rest). (d # x, rest)) (parse_string t)))
      else if byte c < 32 then None
      else if byte c < 0x80 then map_option (\<lambda>(x, rest). (c # x, rest)) (parse_string s)
      else if 1 < snd (DecodeRune (c # s)) then
        map_option (\<lambda>(x, rest). (take (snd (DecodeRune (c # s))) (c # s) @ x, rest))
          (parse_string (drop (snd (DecodeRune (c # s))) (c # s)))
      else map_option (\<lambda>(x, rest). (EncodeRune RuneError @ x, rest)) (parse_string s))"
  by pat_completeness auto
termination
proof (relation "measure length")
  fix c s e t r p t2
  assume "s = e # t" and "getu4 t = Some p" and "(r, t2) = p"
  then show "(snd (unescape_rune r t2), c # s) \<in> measure length"
    using getu4_length [of t r t2] unescape_rune_length [of r t2] by auto
qed auto

declare escape_string.simps(2) [simp del] parse_string.simps(2) [simp del]

lemma unhex_hex_digit [simp]: "d < 16 \<Longrightarrow> unhex (hex_digit d) = Some d"
  by (auto simp: unhex_def hex_digit_def Let_def)

lemma unhex_zero [simp]: "unhex CHR ''0'' = Some 0" "unhex CHR ''2'' = Some 2"
  by (simp_all add: unhex_def)

lemma getu4_hex_byte: "b < 256 \<Longrightarrow> getu4 (CHR ''0'' # CHR ''0'' # hex_byte b @ t) = Some (b, t)"
  by (simp add: getu4_def hex_byte_def)

lemma EncodeRune_ascii: "r < 0x80 \<Longrightarrow> EncodeRune r = [char_of r]"
  by (simp add: EncodeRune_def)

lemma parse_string_unicode:
  assumes "getu4 t = Some (r, t2)" and "\<not> (0xD800 \<le> r \<and> r \<le> 0xDFFF)"
  shows "parse_string (backslash # CHR ''u'' # t) =
    map_option (\<lambda>(x, rest). (EncodeRune r @ x, rest)) (parse_string t2)"
  using assms by (simp add: parse_string.simps(2) unescape_rune_def)

lemma parse_string_plain:
  assumes "32 \<le> byte c" "byte c < 0x80" "byte c \<noteq> 34" "byte c \<noteq> 92"
  shows "parse_string (c # s) = map_option (\<lambda>(x, rest). (c # x, rest)) (parse_string s)"
proof -
  have "c \<noteq> quote" "c \<noteq> backslash" using assms(3,4) by auto
  then show ?thesis using assms by (simp add: parse_string.simps(2))
qed

lemma parse_string_simple:
  assumes "simple_escape e = Some d"
  shows "parse_string (backslash # e # s) = map_option (\<lambda>(x, rest). (d # x, rest)) (parse_string s)"
proof -
  have "e \<noteq> CHR ''u''" using assms by (auto simp: simple_escape_def)
  then show ?thesis using assms by (simp add: parse_string.simps(2))
qed

lemma char_of_byte: "byte c = n \<Longrightarrow> char_of n = c"
  by auto

lemma parse_escape_ascii:
  assumes "byte c < 0x80"
  shows "parse_string (escape_ascii c @ s) = map_option (\<lambda>(x, rest). (c # x, rest)) (parse_string s)"
proof -
  consider (quoted) "byte c = 34 \<or> byte c = 92" | (named) "byte c \<in> {8, 12, 10, 13, 9}"
    | (hex) "byte c \<notin> {8, 12, 10, 13, 9, 34, 92}" "byte c < 32 \<or> byte c = 60 \<or> byte c = 62 \<or> byte c = 38"
    | (plain) "byte c \<notin> {34, 92, 60, 62, 38}" "32 \<le> byte c"
    by fastforce
  then show ?thesis
  proof cases
    case quoted
    then have "byte c = byte quote \<or> byte c = byte backslash" by simp
    then have "c = quote \<or> c = backslash" unfolding of_char_eq_iff .
    then have "simple_escape c = Some c" by (auto simp: simple_escape_def)
    with quoted show ?thesis by (auto simp: escape_ascii_def parse_string_simple)
  next
    case named
    then show ?thesis
      by (auto simp: escape_ascii_def simple_escape_def dest!: char_of_byte
          intro!: trans [OF parse_string_simple])
  next
    case hex
    then have "escape_ascii c = backslash # CHR ''u'' # CHR ''0'' # CHR ''0'' # hex_byte (byte c)"
      by (auto simp: escape_ascii_def Let_def)
    moreover have "EncodeRune (byte c) = [c]" using assms by (simp add: EncodeRune_ascii)
    ultimately show ?thesis using assms by (simp add: parse_string_unicode [OF getu4_hex_byte])
  next
    case plain
    then have "escape_ascii c = [c]" by (simp add: escape_ascii_def)
    with plain assms show ?thesis by (simp add: parse_string_plain)
  qed
qed

lemma parse_string_wide:
  assumes "DecodeRune s = (r, n)" and "1 < n"
  shows "parse_string (take n s @ t) = map_option (\<lambda>(x, rest). (take n s @ x, rest)) (parse_string t)"
proof -
  have d: "DecodeRune (take n s @ t) = (r, n)" and big: "\<forall>c \<in> set (take n s). 0x80 \<le> byte c"
    and len: "length (take n s) = n"
    using DecodeRune_wide [of s] assms by auto
  obtain c u where cu: "take n s = c # u" using len assms(2) by (cases "take n s") auto
  then have "0x80 \<le> byte c" using big by simp
  then have "c \<noteq> quote" "c \<noteq> backslash" by auto
  moreover have "take n (c # u @ t) = c # u" "drop n (c # u @ t) = t" using len cu by auto
  ultimately show ?thesis
    using d \<open>0x80 \<le> byte c\<close> assms(2) unfolding cu by (simp add: parse_string.simps(2))
qed

lemma parse_escape_string:
  "valid_utf8 s \<Longrightarrow> parse_string (escape_string s @ quote # rest) = Some (s, rest)"
proof (induction s rule: valid_utf8.induct)
  case 1
  then show ?case by (simp add: parse_string.simps(2))
next
  case (2 c s)
  show ?case
  proof (cases "byte c < 0x80")
    case True
    with 2 show ?thesis by (simp add: escape_string.simps(2) parse_escape_ascii)
  next
    case False
    obtain r n where rn: "DecodeRune (c # s) = (r, n)" by fastforce
    with False 2 have n: "1 < n" and ih: "parse_string (escape_string (drop n (c # s)) @ quote # rest) = Some (drop n (c # s), rest)"
      by (simp_all split: if_splits)
    show ?thesis
    proof (cases "r = 0x2028 \<or> r = 0x2029")
      case True
      then have "getu4 (''202'' @ hex_digit (r mod 16) # t) = Some (r, t)" for t
        by (auto simp: getu4_def)
      then have "parse_string (backslash # CHR ''u'' # ''202'' @ hex_digit (r mod 16) # t) =
          map_option (\<lambda>(x, rest). (EncodeRune r @ x, rest)) (parse_string t)" for t
        using True by (intro parse_string_unicode) auto
      then show ?thesis
        using False True rn n ih DecodeRune_separator [OF rn True n] by (simp add: escape_string.simps(2))
    next
      case no: False
      then show ?thesis
        using False rn n ih parse_string_wide [OF rn n] by (simp add: escape_string.simps(2))
    qed
  qed
qed

section \<open>Numbers\<close>

definition starts :: "string \<Rightarrow> char set \<Rightarrow> bool" where
  "starts s cs \<longleftrightarrow> s \<noteq> [] \<and> hd s \<in> cs"

definition parse_digits :: "string \<Rightarrow> (string \<times> string) option" where
  "parse_digits s = (if takeWhile is_digit s = [] then None else Some (takeWhile is_digit s, dropWhile is_digit s))"

definition parse_int_part :: "string \<Rightarrow> (string \<times> string) option" where
  "parse_int_part s = (if starts s {CHR ''0''} then Some (''0'', tl s) else parse_digits s)"

definition parse_fraction :: "string \<Rightarrow> (string \<times> string) option" where
  "parse_fraction s =
     (if starts s {CHR ''.''} then map_option (\<lambda>(ds, r). (CHR ''.'' # ds, r)) (parse_digits (tl s)) else Some ([], s))"

definition parse_exponent :: "string \<Rightarrow> (string \<times> string) option" where
  "parse_exponent s =
     (if starts s {CHR ''e'', CHR ''E''} then
        let (sign, t) = (if starts (tl s) {CHR ''+'', CHR ''-''} then ([hd (tl s)], tl (tl s)) else ([], tl s))
        in map_option (\<lambda>(ds, r). (hd s # sign @ ds, r)) (parse_digits t)
      else Some ([], s))"

definition parse_number :: "string \<Rightarrow> (string \<times> string) option" where
  "parse_number s =
     (let (sign, s1) = (if starts s {CHR ''-''} then (''-'', tl s) else ([], s)) in
      case parse_int_part s1 of
        None \<Rightarrow> None
      | Some (i, s2) \<Rightarrow>
          (case parse_fraction s2 of
             None \<Rightarrow> None
           | Some (f, s3) \<Rightarrow>
               (case parse_exponent s3 of
                  None \<Rightarrow> None
                | Some (e, s4) \<Rightarrow> Some (sign @ i @ f @ e, s4))))"

text \<open>What may follow a number without becoming part of it.\<close>

definition delimited :: "string \<Rightarrow> bool" where
  "delimited rest \<longleftrightarrow> (rest = [] \<or> \<not> is_digit (hd rest) \<and> hd rest \<notin> {CHR ''.'', CHR ''e'', CHR ''E''})"

lemma nat_dec_zero: "nat_dec n = CHR ''0'' # t \<Longrightarrow> n = 0 \<and> t = []"
proof (induction n arbitrary: t rule: nat_dec.induct)
  case (1 n)
  show ?case
  proof (cases "n < 10")
    case True
    then have "digit_val (digit n) = digit_val CHR ''0''" "t = []"
      using 1 by (simp_all add: nat_dec.simps)
    with True show ?thesis by (simp add: digit_val_def [of "CHR ''0''"])
  next
    case False
    then obtain u where "nat_dec (n div 10) = CHR ''0'' # u"
      using 1(2) by (cases "nat_dec (n div 10)") (auto simp: nat_dec.simps [of n])
    with 1(1) False have "n div 10 = 0" by blast
    with False show ?thesis by simp
  qed
qed

lemma takeWhile_digits:
  assumes "list_all is_digit ds" and "delimited rest"
  shows "takeWhile is_digit (ds @ rest) = ds" "dropWhile is_digit (ds @ rest) = rest"
  using assms by (induction ds) (cases rest; auto simp: delimited_def)+

lemma parse_int_part_nat_dec:
  assumes "delimited rest"
  shows "parse_int_part (nat_dec n @ rest) = Some (nat_dec n, rest)"
proof (cases "starts (nat_dec n @ rest) {CHR ''0''}")
  case True
  then obtain t where "nat_dec n = CHR ''0'' # t" by (cases "nat_dec n") (auto simp: starts_def)
  with nat_dec_zero [OF this] show ?thesis by (simp add: parse_int_part_def starts_def)
next
  case False
  then show ?thesis
    using takeWhile_digits [OF nat_dec_digits assms, of n] by (simp add: parse_int_part_def parse_digits_def)
qed

lemma parse_number_int_dec:
  assumes "delimited rest"
  shows "parse_number (int_dec i @ rest) = Some (int_dec i, rest)"
proof -
  have tail: "parse_fraction rest = Some ([], rest)" "parse_exponent rest = Some ([], rest)"
    using assms by (auto simp: parse_fraction_def parse_exponent_def starts_def delimited_def)
  obtain c cs where c: "nat_dec (nat i) = c # cs" "is_digit c" by (rule nat_dec_Cons)
  then have "\<not> starts (nat_dec (nat i) @ rest) {CHR ''-''}" by (auto simp: starts_def is_digit_def)
  moreover have "starts (CHR ''-'' # t) {CHR ''-''}" for t by (simp add: starts_def)
  ultimately show ?thesis
    using parse_int_part_nat_dec [OF assms] tail by (simp add: parse_number_def int_dec_def)
qed

section \<open>Documents\<close>

definition skip_ws :: "string \<Rightarrow> string" where
  "skip_ws s = dropWhile (\<lambda>c. byte c \<in> {32, 9, 10, 13}) s"

lemma skip_ws_length: "length (skip_ws s) \<le> length s"
  by (simp add: skip_ws_def length_dropWhile_le)

lemma skip_ws_Cons: "skip_ws s = c # t \<Longrightarrow> length t < length s"
  using skip_ws_length [of s] by simp

text \<open>
  The parser of documents.  \<open>d\<close> is how much deeper arrays and objects may nest, at the start 10000.  The
  comparisons of lengths only show that the recursion ends: they always hold (\<open>parse_shorter\<close>).
\<close>

function (sequential) parse_value :: "nat \<Rightarrow> string \<Rightarrow> (json \<times> string) option"
  and parse_elements :: "nat \<Rightarrow> string \<Rightarrow> (json list \<times> string) option"
  and parse_members :: "nat \<Rightarrow> string \<Rightarrow> ((string \<times> json) list \<times> string) option" where
  "parse_value d s =
     (case skip_ws s of
        [] \<Rightarrow> None
      | c # t \<Rightarrow>
          if c = CHR ''{'' then
            if d = 0 then None
            else if starts (skip_ws t) {CHR ''}''} then Some (JObj [], tl (skip_ws t))
            else map_option (\<lambda>(ms, r). (JObj ms, r)) (parse_members (d - 1) t)
          else if c = CHR ''['' then
            if d = 0 then None
            else if starts (skip_ws t) {CHR '']''} then Some (JArr [], tl (skip_ws t))
            else map_option (\<lambda>(vs, r). (JArr vs, r)) (parse_elements (d - 1) t)
          else if c = quote then map_option (\<lambda>(x, r). (JStr x, r)) (parse_string t)
          else if c = CHR ''t'' then if HasPrefix t ''rue'' then Some (JBool True, drop 3 t) else None
          else if c = CHR ''f'' then if HasPrefix t ''alse'' then Some (JBool False, drop 4 t) else None
          else if c = CHR ''n'' then if HasPrefix t ''ull'' then Some (JNull, drop 3 t) else None
          else map_option (\<lambda>(x, r). (JNum x, r)) (parse_number (c # t)))"
| "parse_elements d s =
     (case parse_value d s of
        None \<Rightarrow> None
      | Some (v, r) \<Rightarrow>
          (case skip_ws r of
             [] \<Rightarrow> None
           | x # u \<Rightarrow>
               if x = CHR '']'' then Some ([v], u)
               else if x = CHR '','' \<and> length u < length s
               then map_option (\<lambda>(vs, w). (v # vs, w)) (parse_elements d u)
               else None))"
| "parse_members d s =
     (if \<not> starts (skip_ws s) {quote} then None
      else case parse_string (tl (skip_ws s)) of
        None \<Rightarrow> None
      | Some (k, r) \<Rightarrow>
          if starts (skip_ws r) {CHR '':''} \<and> length (tl (skip_ws r)) < length s then
            (case parse_value d (tl (skip_ws r)) of
               None \<Rightarrow> None
             | Some (v, r2) \<Rightarrow>
                 (case skip_ws r2 of
                    [] \<Rightarrow> None
                  | x # u \<Rightarrow>
                      if x = CHR ''}'' then Some ([(k, v)], u)
                      else if x = CHR '','' \<and> length u < length s
                      then map_option (\<lambda>(ms, w). ((k, v) # ms, w)) (parse_members d u)
                      else None))
          else None)"
  by pat_completeness auto
termination
  by (relation "measure (\<lambda>x. case x of Inl (d, s) \<Rightarrow> 2 * length s | Inr (Inl (d, s)) \<Rightarrow> 2 * length s + 1
      | Inr (Inr (d, s)) \<Rightarrow> 2 * length s + 1)") (auto dest!: skip_ws_Cons)

declare parse_value.simps [simp del] parse_elements.simps [simp del] parse_members.simps [simp del]

text \<open>\<open>json.Marshal\<close>: no white space.\<close>

definition print_string :: "string \<Rightarrow> string" where
  "print_string s = [quote] @ escape_string s @ [quote]"

fun print_json :: "json \<Rightarrow> string" where
  "print_json JNull = ''null''"
| "print_json (JBool b) = (if b then ''true'' else ''false'')"
| "print_json (JNum x) = x"
| "print_json (JStr s) = print_string s"
| "print_json (JArr vs) = ''['' @ Join (map print_json vs) '','' @ '']''"
| "print_json (JObj ms) = ''{'' @ Join (map (\<lambda>(k, v). print_string k @ '':'' @ print_json v) ms) '','' @ ''}''"

text \<open>The trees the program prints: integers as numbers, valid text, bounded depth.\<close>

fun printable :: "nat \<Rightarrow> json \<Rightarrow> bool" where
  "printable d (JNum x) \<longleftrightarrow> (\<exists>i. x = int_dec i)"
| "printable d (JStr s) \<longleftrightarrow> valid_utf8 s"
| "printable d (JArr vs) \<longleftrightarrow> 0 < d \<and> (\<forall>v \<in> set vs. printable (d - 1) v)"
| "printable d (JObj ms) \<longleftrightarrow> 0 < d \<and> (\<forall>(k, v) \<in> set ms. valid_utf8 k \<and> printable (d - 1) v)"
| "printable d _ \<longleftrightarrow> True"

section \<open>Parsing what was printed\<close>

definition lead_char :: "char \<Rightarrow> bool" where
  "lead_char c \<longleftrightarrow> byte c \<notin> {32, 9, 10, 13} \<and> c \<notin> {CHR '']'', CHR ''}''}"

lemma skip_ws_opening: "lead_char c \<Longrightarrow> skip_ws (c # s) = c # s"
  by (simp add: skip_ws_def lead_char_def)

lemma lead_char_chars [simp]:
  "lead_char quote" "lead_char CHR ''{''" "lead_char CHR ''[''" "lead_char CHR ''n''" "lead_char CHR ''t''" "lead_char CHR ''f''"
  "lead_char CHR ''-''"
  by (simp_all add: lead_char_def)

lemma skip_ws_punctuation [simp]:
  "skip_ws (CHR '']'' # s) = CHR '']'' # s" "skip_ws (CHR ''}'' # s) = CHR ''}'' # s"
  "skip_ws (CHR '','' # s) = CHR '','' # s" "skip_ws (CHR '':'' # s) = CHR '':'' # s"
  "skip_ws [] = []"
  by (simp_all add: skip_ws_def)

lemma lead_char_digit: "is_digit c \<Longrightarrow> lead_char c"
  by (auto simp: lead_char_def is_digit_def)

lemma int_dec_head:
  obtains c t where "int_dec i = c # t" and "lead_char c" and "c \<notin> {CHR ''{'', CHR ''['', quote, CHR ''t'', CHR ''f'', CHR ''n''}"
proof (cases "i < 0")
  case False
  obtain c t where "nat_dec (nat i) = c # t" "is_digit c" by (rule nat_dec_Cons)
  moreover from \<open>is_digit c\<close> have "c \<notin> {CHR ''{'', CHR ''['', quote, CHR ''t'', CHR ''f'', CHR ''n''}"
    by (auto simp: is_digit_def)
  ultimately show thesis using False that [of c t] by (simp add: int_dec_def lead_char_digit)
qed (use that in \<open>auto simp: int_dec_def\<close>)

lemma print_json_head:
  assumes "printable d v"
  obtains c t where "print_json v = c # t" and "lead_char c"
proof (cases v)
  case (JNum x)
  then obtain i where "x = int_dec i" using assms by auto
  with JNum that show thesis by (metis int_dec_head print_json.simps(3))
next
  case (JBool b)
  with that show thesis by (cases b) auto
qed (use that in \<open>auto simp: print_string_def\<close>)

lemma delimited_punctuation [simp]:
  "delimited (CHR '']'' # s)" "delimited (CHR ''}'' # s)" "delimited (CHR '','' # s)" "delimited []"
  "delimited (CHR 0x0A # s)"
  by (simp_all add: delimited_def is_digit_def)

lemma parse_elements_print:
  assumes "vs \<noteq> []" and "\<And>v r. v \<in> set vs \<Longrightarrow> delimited r \<Longrightarrow> parse_value d (print_json v @ r) = Some (v, r)"
  shows "parse_elements d (Join (map print_json vs) '','' @ CHR '']'' # rest) = Some (vs, rest)"
  using assms
proof (induction vs rule: induct_list012)
  case (2 v)
  then show ?case by (simp add: parse_elements.simps)
next
  case (3 v w vs)
  let ?u = "Join (map print_json (w # vs)) '','' @ CHR '']'' # rest"
  have "parse_elements d ?u = Some (w # vs, rest)" by (rule 3) (use 3 in auto)
  moreover have "parse_value d (print_json v @ CHR '','' # ?u) = Some (v, CHR '','' # ?u)" using 3 by simp
  ultimately show ?case by (simp add: parse_elements.simps [of d "print_json v @ CHR '','' # t" for t])
qed simp

lemma parse_members_print:
  assumes "ms \<noteq> []" and "\<And>k v r. (k, v) \<in> set ms \<Longrightarrow> delimited r \<Longrightarrow> parse_value d (print_json v @ r) = Some (v, r)"
    and "\<And>k v. (k, v) \<in> set ms \<Longrightarrow> valid_utf8 k"
  shows "parse_members d (Join (map (\<lambda>(k, v). print_string k @ '':'' @ print_json v) ms) '','' @ CHR ''}'' # rest) =
    Some (ms, rest)"
proof -
  have step: "parse_members d (print_string k @ CHR '':'' # print_json v @ r) =
      (case skip_ws r of
         [] \<Rightarrow> None
       | x # u \<Rightarrow>
           if x = CHR ''}'' then Some ([(k, v)], u)
           else if x = CHR '','' \<and> length u < length (print_string k @ CHR '':'' # print_json v @ r)
           then map_option (\<lambda>(ms, w). ((k, v) # ms, w)) (parse_members d u) else None)"
    if "valid_utf8 k" "parse_value d (print_json v @ r) = Some (v, r)" for k v r
  proof -
    have "skip_ws (print_string k @ t) = quote # escape_string k @ quote # t" for t
      by (simp add: print_string_def skip_ws_opening)
    then show ?thesis
      using that parse_escape_string [of k "CHR '':'' # print_json v @ r"]
      by (simp add: parse_members.simps [of d "print_string k @ t" for t] starts_def)
  qed
  show ?thesis
    using assms
  proof (induction ms rule: induct_list012)
    case (2 m)
    obtain k v where "m = (k, v)" by fastforce
    with 2 step [of k v "CHR ''}'' # rest"] show ?case by simp
  next
    case (3 m m' ms)
    obtain k v where m: "m = (k, v)" by fastforce
    let ?u = "Join (map (\<lambda>(k, v). print_string k @ '':'' @ print_json v) (m' # ms)) '','' @ CHR ''}'' # rest"
    have ih: "parse_members d ?u = Some (m' # ms, rest)" 
    proof (rule 3(2))
      fix k v r assume "(k, v) \<in> set (m' # ms)" "delimited r"
      then show "parse_value d (print_json v @ r) = Some (v, r)" by (intro 3(4)) auto
    next
      fix k v assume "(k, v) \<in> set (m' # ms)"
      then show "valid_utf8 k" by (intro 3(5) [of k v]) simp
    qed simp
    have "parse_value d (print_json v @ CHR '','' # ?u) = Some (v, CHR '','' # ?u)" "valid_utf8 k"
      using 3(4,5) [of k v] m by auto
    with step [of k v "CHR '','' # ?u"] ih m show ?case by simp
  qed simp
qed

theorem parse_print_json:
  "printable d v \<Longrightarrow> delimited rest \<Longrightarrow> parse_value d (print_json v @ rest) = Some (v, rest)"
proof (induction v arbitrary: d rest)
  case (JNum x)
  then obtain i where x: "x = int_dec i" by auto
  obtain c t where "int_dec i = c # t" "lead_char c" "c \<notin> {CHR ''{'', CHR ''['', quote, CHR ''t'', CHR ''f'', CHR ''n''}"
    by (rule int_dec_head)
  with parse_number_int_dec [OF JNum(2), of i] show ?case
    by (simp add: x parse_value.simps skip_ws_opening)
next
  case (JStr s)
  then show ?case by (simp add: parse_value.simps print_string_def skip_ws_opening parse_escape_string)
next
  case (JArr vs)
  show ?case
  proof (cases vs)
    case Nil
    with JArr show ?thesis by (simp add: parse_value.simps skip_ws_opening starts_def)
  next
    case (Cons v us)
    with JArr.prems have v: "printable (d - 1) v" and "0 < d" by auto
    obtain c t where "print_json v = c # t" "lead_char c" by (rule print_json_head [OF v])
    then obtain t' where "Join (map print_json vs) '','' = c # t'" "lead_char c"
      using Cons by (cases us) auto
    moreover have "parse_elements (d - 1) (Join (map print_json vs) '','' @ CHR '']'' # rest) = Some (vs, rest)"
      by (rule parse_elements_print) (use Cons JArr in auto)
    ultimately show ?thesis
      using \<open>0 < d\<close> by (auto simp: parse_value.simps [of d "CHR ''['' # u" for u] skip_ws_opening starts_def lead_char_def)
  qed
next
  case (JObj ms)
  show ?case
  proof (cases ms)
    case Nil
    with JObj show ?thesis by (simp add: parse_value.simps skip_ws_opening starts_def)
  next
    case (Cons m us)
    with JObj.prems have "0 < d" by auto
    moreover obtain t' where "Join (map (\<lambda>(k, v). print_string k @ '':'' @ print_json v) ms) '','' = quote # t'"
      using Cons by (cases m; cases us) (auto simp: print_string_def)
    moreover have "parse_members (d - 1)
        (Join (map (\<lambda>(k, v). print_string k @ '':'' @ print_json v) ms) '','' @ CHR ''}'' # rest) = Some (ms, rest)"
      by (rule parse_members_print) (use Cons JObj in \<open>auto simp del: list.set(2)\<close>)
    ultimately show ?thesis
      by (auto simp: parse_value.simps [of d "CHR ''{'' # u" for u] skip_ws_opening starts_def)
  qed
qed (auto simp: parse_value.simps skip_ws_opening HasPrefix_def)

section \<open>The parser consumes its input\<close>

lemma parse_string_shorter: "parse_string s = Some (x, r) \<Longrightarrow> length r < length s"
proof (induction s arbitrary: x r rule: parse_string.induct)
  case (2 c s)
  consider (fin) "c = quote" | (esc) "c = backslash" | (low) "c \<noteq> quote" "c \<noteq> backslash" "byte c < 32"
    | (ascii) "c \<noteq> quote" "c \<noteq> backslash" "\<not> byte c < 32" "byte c < 0x80"
    | (wide) "c \<noteq> quote" "c \<noteq> backslash" "\<not> byte c < 32" "\<not> byte c < 0x80" "1 < snd (DecodeRune (c # s))"
    | (bad) "c \<noteq> quote" "c \<noteq> backslash" "\<not> byte c < 32" "\<not> byte c < 0x80" "\<not> 1 < snd (DecodeRune (c # s))"
    by blast
  then show ?case
  proof cases
    case esc
    with 2(6) obtain e t where s: "s = e # t"
      by (cases s) (auto simp: parse_string.simps(2))
    show ?thesis
    proof (cases "e = CHR ''u''")
      case True
      with 2(6) esc s obtain q t2 y where q: "getu4 t = Some (q, t2)"
        and y: "parse_string (snd (unescape_rune q t2)) = Some (y, r)"
        by (auto simp: parse_string.simps(2) split: option.splits)
      have "length r < length (snd (unescape_rune q t2))"
        by (rule 2(1)) (use esc s True q y in auto)
      then show ?thesis using s unescape_rune_length [of q t2] getu4_length [OF q] by simp
    next
      case False
      with 2(6) esc s obtain d y where "simple_escape e = Some d" and "parse_string t = Some (y, r)"
        by (auto simp: parse_string.simps(2) split: option.splits)
      then have "length r < length t" by (intro 2(2)) (use esc s False in auto)
      then show ?thesis using s by simp
    qed
  next
    case wide
    with 2(6) obtain y where y: "parse_string (drop (snd (DecodeRune (c # s))) (c # s)) = Some (y, r)"
      by (auto simp: parse_string.simps(2))
    have "length r < length (drop (snd (DecodeRune (c # s))) (c # s))"
      by (rule 2(4)) (use wide y in auto)
    then show ?thesis by simp
  qed (use 2(3,5,6) in \<open>auto simp: parse_string.simps(2) split: option.splits intro: less_SucI\<close>)
qed simp

lemma parse_digits_shorter: "parse_digits s = Some (x, r) \<Longrightarrow> length r < length s"
proof -
  assume a: "parse_digits s = Some (x, r)"
  then have "length s = length x + length r" "x \<noteq> []"
    by (auto simp: parse_digits_def split: if_splits) (metis length_append takeWhile_dropWhile_id)
  then show ?thesis by simp
qed

lemma parse_number_shorter:
  assumes "parse_number s = Some (x, r)"
  shows "length r < length s"
proof -
  have tl: "length (tl t) \<le> length t" for t :: string by simp
  have i: "length w < length t" if "parse_int_part t = Some (y, w)" for t y w
    using that by (auto simp: parse_int_part_def starts_def split: if_splits dest: parse_digits_shorter)
  have f: "length w \<le> length t" if "parse_fraction t = Some (y, w)" for t y w
    using that tl [of t] by (auto simp: parse_fraction_def split: if_splits dest!: parse_digits_shorter)
  have e: "length w \<le> length t" if "parse_exponent t = Some (y, w)" for t y w
    using that tl [of t] tl [of "tl t"] by (auto simp: parse_exponent_def Let_def split: if_splits dest!: parse_digits_shorter)
  from assms show ?thesis
    using tl [of s] by (fastforce simp: parse_number_def split: if_splits option.splits dest!: i f e)
qed

lemma starts_tl: "starts (skip_ws t) cs \<Longrightarrow> length (tl (skip_ws t)) < length t"
  using skip_ws_length [of t] by (cases "skip_ws t") (auto simp: starts_def)

lemma parse_shorter:
  "parse_value d s = Some (v, r) \<Longrightarrow> length r < length s"
  "parse_elements d s = Some (vs, r) \<Longrightarrow> length r < length s"
  "parse_members d s = Some (ms, r) \<Longrightarrow> length r < length s"
proof (induction d s and d s and d s arbitrary: v r and vs r and ms r
    rule: parse_value_parse_elements_parse_members.induct)
  case (1 d s)
  from 1(3) obtain c t where ct: "skip_ws s = c # t" by (auto simp: parse_value.simps split: list.splits)
  then have len: "length t < length s" by (rule skip_ws_Cons)
  have lit: "length (drop n t) < length s" for n using len by simp
  from 1 ct len lit starts_tl [of t "{CHR ''}''}"] starts_tl [of t "{CHR '']''}"] show ?case
    by (auto simp: parse_value.simps [of d s] split: if_splits dest!: parse_string_shorter parse_number_shorter
        intro: less_trans) (blast intro: less_trans)+
next
  case (2 d s)
  then show ?case
    by (auto simp: parse_elements.simps [of d s] split: if_splits option.splits list.splits dest!: skip_ws_Cons
        intro: less_trans) (blast intro: less_trans)+
next
  case (3 d s)
  from 3(3) obtain k r1 v r2 x u where k: "starts (skip_ws s) {quote}" "parse_string (tl (skip_ws s)) = Some (k, r1)"
    and g: "starts (skip_ws r1) {CHR '':''} \<and> length (tl (skip_ws r1)) < length s"
    and v: "parse_value d (tl (skip_ws r1)) = Some (v, r2)" and u: "skip_ws r2 = x # u"
    and r: "r = u \<or> length u < length s \<and> x = CHR '','' \<and> (\<exists>ms'. parse_members d u = Some (ms', r))"
    by (auto simp: parse_members.simps [of d s] split: if_splits option.splits list.splits)
  have "length r2 < length s"
    using 3(1) [of "(k, r1)" k r1] k g v by (auto intro: less_trans)
  then have "length u < length s" using skip_ws_Cons [OF u] by simp
  moreover have "length r < length u" if "parse_members d u = Some (ms', r)" "x = CHR '',''" for ms'
    using 3(2) [of "(k, r1)" k r1 "(v, r2)" v r2 x u] k g v u that \<open>length u < length s\<close> by auto
  ultimately show ?case using r by (auto intro: less_trans)
qed

section \<open>Decoding\<close>

text \<open>
  \<open>json.Unmarshal\<close> accepts one document with white space around it; \<open>Decoder.Decode\<close> reads one document
  and leaves what follows.  A decoder sets what it finds in a value that it is given, as Go decodes into
  a variable.  Every failure is an error whose wording is the parameter \<open>msg\<close>; Go fills the other fields
  before it reports a mismatch, which the program never sees, since it drops the value on an error.
\<close>

type_synonym 'a decoder = "json \<Rightarrow> 'a \<Rightarrow> 'a option"

definition maxNestingDepth :: nat where "maxNestingDepth = 10000"

definition Unmarshal :: "(string \<Rightarrow> string) \<Rightarrow> 'a decoder \<Rightarrow> 'a \<Rightarrow> string \<Rightarrow> goerror + 'a" where
  "Unmarshal msg dec zero data =
     (case parse_value maxNestingDepth data of
        Some (v, rest) \<Rightarrow>
          if skip_ws rest = [] then (case dec v zero of Some x \<Rightarrow> Inr x | None \<Rightarrow> Inl (ErrorString (msg data)))
          else Inl (ErrorString (msg data))
      | None \<Rightarrow> Inl (ErrorString (msg data)))"

definition Decode :: "(string \<Rightarrow> string) \<Rightarrow> 'a decoder \<Rightarrow> 'a \<Rightarrow> string \<Rightarrow> goerror + 'a" where
  "Decode msg dec zero data =
     (case parse_value maxNestingDepth data of
        Some (v, rest) \<Rightarrow> (case dec v zero of Some x \<Rightarrow> Inr x | None \<Rightarrow> Inl (ErrorString (msg data)))
      | None \<Rightarrow> Inl (ErrorString (msg data)))"

text \<open>\<open>null\<close> leaves a number, a string, a bool or a struct as it is, and empties a pointer or a slice.\<close>

definition decode_word :: "'l::len word decoder" where
  "decode_word v old =
     (case v of
        JNull \<Rightarrow> Some old
      | JNum x \<Rightarrow>
          (case Atoi x of
             (i, None) \<Rightarrow> if - (2 ^ (LENGTH('l) - 1)) \<le> i \<and> i < 2 ^ (LENGTH('l) - 1) then Some (word_of_int i) else None
           | _ \<Rightarrow> None)
      | _ \<Rightarrow> None)"

definition decode_string :: "string decoder" where
  "decode_string v old = (case v of JNull \<Rightarrow> Some old | JStr s \<Rightarrow> Some s | _ \<Rightarrow> None)"

definition decode_bool :: "bool decoder" where
  "decode_bool v old = (case v of JNull \<Rightarrow> Some old | JBool b \<Rightarrow> Some b | _ \<Rightarrow> None)"

definition decode_pointer :: "'a decoder \<Rightarrow> 'a \<Rightarrow> 'a option decoder" where
  "decode_pointer dec zero v old =
     (case v of
        JNull \<Rightarrow> Some None
      | _ \<Rightarrow> map_option Some (dec v (case old of None \<Rightarrow> zero | Some x \<Rightarrow> x)))"

fun decode_elements :: "'a decoder \<Rightarrow> 'a \<Rightarrow> json list \<Rightarrow> 'a list option" where
  "decode_elements dec zero [] = Some []"
| "decode_elements dec zero (v # vs) =
     (case dec v zero of
        None \<Rightarrow> None
      | Some x \<Rightarrow> map_option (\<lambda>xs. x # xs) (decode_elements dec zero vs))"

definition decode_slice :: "'a decoder \<Rightarrow> 'a \<Rightarrow> 'a list decoder" where
  "decode_slice dec zero v old =
     (case v of JNull \<Rightarrow> Some [] | JArr vs \<Rightarrow> decode_elements dec zero vs | _ \<Rightarrow> None)"

text \<open>
  The field of a key: the one of that name, else the first whose name is the same up to case.  Folding
  maps two runes outside ASCII into it, the long s and the Kelvin sign.
\<close>

definition upper :: "char \<Rightarrow> char" where
  "upper c = (if 97 \<le> byte c \<and> byte c \<le> 122 then char_of (byte c - 32) else c)"

fun fold_name :: "string \<Rightarrow> string" where
  "fold_name [] = []"
| "fold_name (c # s) =
     (if HasPrefix (c # s) [CHR 0xC5, CHR 0xBF] then CHR ''S'' # fold_name (drop 1 s)
      else if HasPrefix (c # s) [CHR 0xE2, CHR 0x84, CHR 0xAA] then CHR ''K'' # fold_name (drop 2 s)
      else upper c # fold_name s)"

definition find_field :: "(string \<times> 'f) list \<Rightarrow> string \<Rightarrow> 'f option" where
  "find_field fields key =
     (case map_of fields key of
        Some f \<Rightarrow> Some f
      | None \<Rightarrow> map_option snd (find (\<lambda>(name, f). fold_name name = fold_name key) fields))"

fun decode_members :: "(string \<times> (json \<Rightarrow> 'r \<Rightarrow> 'r option)) list \<Rightarrow> (string \<times> json) list \<Rightarrow> 'r \<Rightarrow> 'r option" where
  "decode_members fields [] r = Some r"
| "decode_members fields ((key, v) # ms) r =
     (case find_field fields key of
        None \<Rightarrow> decode_members fields ms r
      | Some f \<Rightarrow> (case f v r of None \<Rightarrow> None | Some r' \<Rightarrow> decode_members fields ms r'))"

definition decode_struct :: "(string \<times> (json \<Rightarrow> 'r \<Rightarrow> 'r option)) list \<Rightarrow> 'r decoder" where
  "decode_struct fields v r = (case v of JNull \<Rightarrow> Some r | JObj ms \<Rightarrow> decode_members fields ms r | _ \<Rightarrow> None)"

text \<open>A field: its decoder, how it is read and how it is set.\<close>

definition field :: "'a decoder \<Rightarrow> ('r \<Rightarrow> 'a) \<Rightarrow> (('a \<Rightarrow> 'a) \<Rightarrow> 'r \<Rightarrow> 'r) \<Rightarrow> json \<Rightarrow> 'r \<Rightarrow> 'r option" where
  "field dec get upd v r = map_option (\<lambda>x. upd (\<lambda>_. x) r) (dec v (get r))"

text \<open>Encoding: a struct field with \<open>omitempty\<close> is left out when it is empty.\<close>

definition omitempty :: "bool \<Rightarrow> string \<Rightarrow> json \<Rightarrow> (string \<times> json) list" where
  "omitempty isEmpty key v = (if isEmpty then [] else [(key, v)])"

definition json_word :: "'l::len word \<Rightarrow> json" where
  "json_word w = JNum (int_dec (sint w))"

definition json_pointer :: "('a \<Rightarrow> json) \<Rightarrow> 'a option \<Rightarrow> json" where
  "json_pointer enc x = (case x of None \<Rightarrow> JNull | Some y \<Rightarrow> enc y)"

lemma decode_json_word:
  fixes w :: "'l::len word"
  assumes "LENGTH('l) \<le> 64"
  shows "decode_word (json_word w) old = Some w"
proof -
  have s: "- (2 ^ (LENGTH('l) - 1)) \<le> sint w" "sint w < 2 ^ (LENGTH('l) - 1)"
    using sint_ge [of w] sint_lt [of w] by simp_all
  have "(2::int) ^ (LENGTH('l) - 1) \<le> 2 ^ 63" using assms by (intro power_increasing) auto
  then have "Atoi (int_dec (sint w)) = (sint w, None)" using s by (intro Atoi_int_dec) linarith+
  then show ?thesis using s by (simp add: decode_word_def json_word_def)
qed

lemma decode_json_int [simp]:
  "decode_word (json_word (w :: int32)) old = Some w" "decode_word (json_word (x :: int64)) old' = Some x"
  by (simp_all add: decode_json_word)

lemma decode_json_pointer [simp]:
  "decode_pointer dec zero JNull old = Some None"
  "v \<noteq> JNull \<Longrightarrow> decode_pointer dec zero v None = map_option Some (dec v zero)"
  by (auto simp: decode_pointer_def split: json.splits)

lemma json_word_not_null [simp]: "json_word w \<noteq> JNull" "printable d (json_word w)"
  by (auto simp: json_word_def)

lemma decode_elements_map:
  "(\<And>x. x \<in> set xs \<Longrightarrow> dec (enc x) zero = Some x) \<Longrightarrow> decode_elements dec zero (map enc xs) = Some xs"
  by (induction xs) auto

lemma printable_mono: "printable d v \<Longrightarrow> d \<le> d' \<Longrightarrow> printable d' v"
proof (induction v arbitrary: d d')
  case (JArr vs)
  then have "d - 1 \<le> d' - 1" by simp
  with JArr show ?case by fastforce
next
  case (JObj ms)
  have "printable (d' - 1) v" if "(k, v) \<in> set ms" for k v
    using JObj.IH [of "(k, v)" v "d - 1" "d' - 1"] JObj.prems that by (auto simp: snds.simps)
  with JObj.prems show ?case by auto
qed auto

section \<open>The contract of a codec\<close>

text \<open>
  What the two ends of the wire rely on: the decoder of a type reads back what its encoder prints.
  \<open>text_ok\<close> says that all strings of a value are valid UTF-8; Go replaces other bytes.
\<close>

locale json_codec =
  fixes encode :: "'a \<Rightarrow> json" and decode :: "'a decoder" and zero :: 'a and text_ok :: "'a \<Rightarrow> bool"
  assumes decode_encode: "text_ok x \<Longrightarrow> decode (encode x) zero = Some x"
    and encode_printable: "text_ok x \<Longrightarrow> printable 10 (encode x)"
begin

lemma parse_encode:
  "text_ok x \<Longrightarrow> delimited rest \<Longrightarrow> parse_value maxNestingDepth (print_json (encode x) @ rest) = Some (encode x, rest)"
  by (intro parse_print_json printable_mono [OF encode_printable]) (simp_all add: maxNestingDepth_def)

lemma Unmarshal_Marshal: "text_ok x \<Longrightarrow> Unmarshal msg decode zero (print_json (encode x)) = Inr x"
  using parse_encode [of x "[]"] by (simp add: Unmarshal_def decode_encode)

text \<open>\<open>Encoder.Encode\<close> ends a document with a newline.\<close>

lemma Unmarshal_Encode: "text_ok x \<Longrightarrow> Unmarshal msg decode zero (print_json (encode x) @ [CHR 0x0A]) = Inr x"
  using parse_encode [of x "[CHR 0x0A]"] by (simp add: Unmarshal_def decode_encode skip_ws_def)

lemma Decode_Marshal: "text_ok x \<Longrightarrow> Decode msg decode zero (print_json (encode x)) = Inr x"
  using parse_encode [of x "[]"] by (simp add: Decode_def decode_encode)

lemma encode_nonempty: "text_ok x \<Longrightarrow> print_json (encode x) \<noteq> []"
  using print_json_head [OF encode_printable [of x]] by fastforce

end

end
