(* ===== verification/Client_Json.thy ===== *)
theory Client_Json
  imports Smolvm_Client Go_Json
begin

text \<open>
  The JSON forms of the types of \<open>src/internal/smolvm/client.go\<close>, as their struct tags say.  For every
  type the encoder, the decoder and the zero value, and an interpretation of the contract
  \<open>json_codec\<close>: what one end prints the other reads back.  A slice without elements is printed as an
  empty array where it is not omitted (Go prints \<open>null\<close> for a nil slice); both are read as no elements.
\<close>

section \<open>Further types\<close>

record ExecRequest =
  exec_Command :: "string list"

record ExecResponse =
  exec_ExitCode :: int32
  exec_Stdout :: string
  exec_Stderr :: string

record ListMachinesResponse =
  list_Machines :: "MachineInfo list"

section \<open>Zero values\<close>

definition emptyPortSpec :: PortSpec where
  "emptyPortSpec = \<lparr>port_Host = 0, port_Guest = 0\<rparr>"

definition emptyMachineInfo :: MachineInfo where
  "emptyMachineInfo = \<lparr>mi_Name = [], mi_State = [], mi_CPUs = 0, mi_MemoryMiB = 0, mi_PID = None, mi_Ports = [],
     mi_Network = False, mi_StorageGB = None, mi_OverlayGB = None\<rparr>"

definition emptyIdentity :: Identity where
  "emptyIdentity = \<lparr>id_NodeName = [], id_NodeUID = []\<rparr>"

definition emptyHealth :: Health where
  "emptyHealth = \<lparr>health_OK = False, health_KVMAvailable = False, health_SocketReady = False,
     health_StateReady = False, health_Message = []\<rparr>"

definition emptyCapabilities :: Capabilities where
  "emptyCapabilities = \<lparr>cap_RuntimeVersion = [], cap_ProtocolVersion = [], cap_CPUs = 0, cap_MemoryMiB = 0,
     cap_StorageGiB = 0, cap_KVMAvailable = False\<rparr>"

definition emptyCreateMachineRequest :: CreateMachineRequest where
  "emptyCreateMachineRequest = \<lparr>create_Name = [], create_CPUs = 0, create_MemoryMiB = 0, create_Ports = [],
     create_Network = False, create_StorageGB = None, create_OverlayGB = None, create_AllowedCIDRs = [],
     create_Image = [], create_From = []\<rparr>"

definition emptyResizeRequest :: ResizeRequest where
  "emptyResizeRequest = \<lparr>resize_StorageGB = None, resize_OverlayGB = None\<rparr>"

definition emptyListMachinesResponse :: ListMachinesResponse where
  "emptyListMachinesResponse = \<lparr>list_Machines = []\<rparr>"

definition emptyExecResponse :: ExecResponse where
  "emptyExecResponse = \<lparr>exec_ExitCode = 0, exec_Stdout = [], exec_Stderr = []\<rparr>"

section \<open>Encoders\<close>

definition encode_PortSpec :: "PortSpec \<Rightarrow> json" where
  "encode_PortSpec p = JObj [(''host'', json_word (port_Host p)), (''guest'', json_word (port_Guest p))]"

definition encode_MachineInfo :: "MachineInfo \<Rightarrow> json" where
  "encode_MachineInfo m = JObj (
     [(''name'', JStr (mi_Name m)), (''state'', JStr (mi_State m)), (''cpus'', json_word (mi_CPUs m)),
      (''memoryMb'', json_word (mi_MemoryMiB m))] @
     omitempty (mi_PID m = None) ''pid'' (json_pointer json_word (mi_PID m)) @
     omitempty (mi_Ports m = []) ''ports'' (JArr (map encode_PortSpec (mi_Ports m))) @
     [(''network'', JBool (mi_Network m))] @
     omitempty (mi_StorageGB m = None) ''storageGb'' (json_pointer json_word (mi_StorageGB m)) @
     omitempty (mi_OverlayGB m = None) ''overlayGb'' (json_pointer json_word (mi_OverlayGB m)))"

definition encode_ListMachinesResponse :: "ListMachinesResponse \<Rightarrow> json" where
  "encode_ListMachinesResponse r = JObj [(''machines'', JArr (map encode_MachineInfo (list_Machines r)))]"

definition encode_Identity :: "Identity \<Rightarrow> json" where
  "encode_Identity i = JObj ((''nodeName'', JStr (id_NodeName i)) #
     omitempty (id_NodeUID i = []) ''nodeUID'' (JStr (id_NodeUID i)))"

definition encode_Health :: "Health \<Rightarrow> json" where
  "encode_Health h = JObj (
     [(''ok'', JBool (health_OK h)), (''kvmAvailable'', JBool (health_KVMAvailable h)),
      (''socketReady'', JBool (health_SocketReady h)), (''stateReady'', JBool (health_StateReady h))] @
     omitempty (health_Message h = []) ''message'' (JStr (health_Message h)))"

definition encode_Capabilities :: "Capabilities \<Rightarrow> json" where
  "encode_Capabilities c = JObj (
     omitempty (cap_RuntimeVersion c = []) ''runtimeVersion'' (JStr (cap_RuntimeVersion c)) @
     omitempty (cap_ProtocolVersion c = []) ''protocolVersion'' (JStr (cap_ProtocolVersion c)) @
     omitempty (cap_CPUs c = 0) ''cpus'' (json_word (cap_CPUs c)) @
     omitempty (cap_MemoryMiB c = 0) ''memoryMiB'' (json_word (cap_MemoryMiB c)) @
     omitempty (cap_StorageGiB c = 0) ''storageGiB'' (json_word (cap_StorageGiB c)) @
     [(''kvmAvailable'', JBool (cap_KVMAvailable c))])"

definition encode_CreateMachineRequest :: "CreateMachineRequest \<Rightarrow> json" where
  "encode_CreateMachineRequest r = JObj (
     omitempty (create_Name r = []) ''name'' (JStr (create_Name r)) @
     omitempty (create_CPUs r = 0) ''cpus'' (json_word (create_CPUs r)) @
     omitempty (create_MemoryMiB r = 0) ''memoryMb'' (json_word (create_MemoryMiB r)) @
     omitempty (create_Ports r = []) ''ports'' (JArr (map encode_PortSpec (create_Ports r))) @
     omitempty (\<not> create_Network r) ''network'' (JBool (create_Network r)) @
     omitempty (create_StorageGB r = None) ''storageGb'' (json_pointer json_word (create_StorageGB r)) @
     omitempty (create_OverlayGB r = None) ''overlayGb'' (json_pointer json_word (create_OverlayGB r)) @
     omitempty (create_AllowedCIDRs r = []) ''allowedCidrs'' (JArr (map JStr (create_AllowedCIDRs r))) @
     omitempty (create_Image r = []) ''image'' (JStr (create_Image r)) @
     omitempty (create_From r = []) ''from'' (JStr (create_From r)))"

definition encode_ResizeRequest :: "ResizeRequest \<Rightarrow> json" where
  "encode_ResizeRequest r = JObj (
     omitempty (resize_StorageGB r = None) ''storageGb'' (json_pointer json_word (resize_StorageGB r)) @
     omitempty (resize_OverlayGB r = None) ''overlayGb'' (json_pointer json_word (resize_OverlayGB r)))"

definition encode_ExecRequest :: "ExecRequest \<Rightarrow> json" where
  "encode_ExecRequest r = JObj [(''command'', JArr (map JStr (exec_Command r)))]"

definition encode_ExecResponse :: "ExecResponse \<Rightarrow> json" where
  "encode_ExecResponse r = JObj [(''exitCode'', json_word (exec_ExitCode r)), (''stdout'', JStr (exec_Stdout r)),
     (''stderr'', JStr (exec_Stderr r))]"

section \<open>Decoders\<close>

definition decode_PortSpec :: "PortSpec decoder" where
  "decode_PortSpec = decode_struct
     [(''host'', field decode_word port_Host port_Host_update),
      (''guest'', field decode_word port_Guest port_Guest_update)]"

definition decode_MachineInfo :: "MachineInfo decoder" where
  "decode_MachineInfo = decode_struct
     [(''name'', field decode_string mi_Name mi_Name_update),
      (''state'', field decode_string mi_State mi_State_update),
      (''cpus'', field decode_word mi_CPUs mi_CPUs_update),
      (''memoryMb'', field decode_word mi_MemoryMiB mi_MemoryMiB_update),
      (''pid'', field (decode_pointer decode_word 0) mi_PID mi_PID_update),
      (''ports'', field (decode_slice decode_PortSpec emptyPortSpec) mi_Ports mi_Ports_update),
      (''network'', field decode_bool mi_Network mi_Network_update),
      (''storageGb'', field (decode_pointer decode_word 0) mi_StorageGB mi_StorageGB_update),
      (''overlayGb'', field (decode_pointer decode_word 0) mi_OverlayGB mi_OverlayGB_update)]"

definition decode_ListMachinesResponse :: "ListMachinesResponse decoder" where
  "decode_ListMachinesResponse = decode_struct
     [(''machines'', field (decode_slice decode_MachineInfo emptyMachineInfo) list_Machines list_Machines_update)]"

definition decode_Identity :: "Identity decoder" where
  "decode_Identity = decode_struct
     [(''nodeName'', field decode_string id_NodeName id_NodeName_update),
      (''nodeUID'', field decode_string id_NodeUID id_NodeUID_update)]"

definition decode_Health :: "Health decoder" where
  "decode_Health = decode_struct
     [(''ok'', field decode_bool health_OK health_OK_update),
      (''kvmAvailable'', field decode_bool health_KVMAvailable health_KVMAvailable_update),
      (''socketReady'', field decode_bool health_SocketReady health_SocketReady_update),
      (''stateReady'', field decode_bool health_StateReady health_StateReady_update),
      (''message'', field decode_string health_Message health_Message_update)]"

definition decode_Capabilities :: "Capabilities decoder" where
  "decode_Capabilities = decode_struct
     [(''runtimeVersion'', field decode_string cap_RuntimeVersion cap_RuntimeVersion_update),
      (''protocolVersion'', field decode_string cap_ProtocolVersion cap_ProtocolVersion_update),
      (''cpus'', field decode_word cap_CPUs cap_CPUs_update),
      (''memoryMiB'', field decode_word cap_MemoryMiB cap_MemoryMiB_update),
      (''storageGiB'', field decode_word cap_StorageGiB cap_StorageGiB_update),
      (''kvmAvailable'', field decode_bool cap_KVMAvailable cap_KVMAvailable_update)]"

definition decode_CreateMachineRequest :: "CreateMachineRequest decoder" where
  "decode_CreateMachineRequest = decode_struct
     [(''name'', field decode_string create_Name create_Name_update),
      (''cpus'', field decode_word create_CPUs create_CPUs_update),
      (''memoryMb'', field decode_word create_MemoryMiB create_MemoryMiB_update),
      (''ports'', field (decode_slice decode_PortSpec emptyPortSpec) create_Ports create_Ports_update),
      (''network'', field decode_bool create_Network create_Network_update),
      (''storageGb'', field (decode_pointer decode_word 0) create_StorageGB create_StorageGB_update),
      (''overlayGb'', field (decode_pointer decode_word 0) create_OverlayGB create_OverlayGB_update),
      (''allowedCidrs'', field (decode_slice decode_string []) create_AllowedCIDRs create_AllowedCIDRs_update),
      (''image'', field decode_string create_Image create_Image_update),
      (''from'', field decode_string create_From create_From_update)]"

definition decode_ResizeRequest :: "ResizeRequest decoder" where
  "decode_ResizeRequest = decode_struct
     [(''storageGb'', field (decode_pointer decode_word 0) resize_StorageGB resize_StorageGB_update),
      (''overlayGb'', field (decode_pointer decode_word 0) resize_OverlayGB resize_OverlayGB_update)]"

definition decode_ExecResponse :: "ExecResponse decoder" where
  "decode_ExecResponse = decode_struct
     [(''exitCode'', field decode_word exec_ExitCode exec_ExitCode_update),
      (''stdout'', field decode_string exec_Stdout exec_Stdout_update),
      (''stderr'', field decode_string exec_Stderr exec_Stderr_update)]"

section \<open>Every type keeps the contract\<close>

lemma decode_scalar [simp]:
  "decode_string (JStr s) old = Some s" "decode_bool (JBool b) old' = Some b"
  by (simp_all add: decode_string_def decode_bool_def)

lemma decode_slice_map:
  "(\<And>x. x \<in> set xs \<Longrightarrow> dec (enc x) zero = Some x) \<Longrightarrow> decode_slice dec zero (JArr (map enc xs)) old = Some xs"
  by (simp add: decode_slice_def decode_elements_map)

lemma decode_strings [simp]: "decode_slice decode_string zero (JArr (map JStr xs)) old = Some xs"
  by (rule decode_slice_map) simp

lemmas codec_rules = find_field_def field_def omitempty_def json_pointer_def decode_struct_def

lemma decode_members_append:
  "decode_members fs (xs @ ys) r = Option.bind (decode_members fs xs r) (decode_members fs ys)"
  by (induction fs xs r rule: decode_members.induct) (auto split: option.splits)

lemma decode_struct_append:
  "decode_struct fs (JObj (xs @ ys)) r = Option.bind (decode_struct fs (JObj xs) r) (decode_struct fs (JObj ys))"
proof -
  have "decode_struct fs (JObj ms) = decode_members fs ms" for ms by (simp add: decode_struct_def fun_eq_iff)
  then show ?thesis by (simp add: decode_members_append)
qed

lemma decode_encode_PortSpec [simp]: "decode_PortSpec (encode_PortSpec p) emptyPortSpec = Some p"
  by (simp add: decode_PortSpec_def encode_PortSpec_def emptyPortSpec_def codec_rules)

lemma printable_PortSpec [simp]: "printable d (encode_PortSpec p) \<longleftrightarrow> 0 < d"
  by (simp add: encode_PortSpec_def valid_utf8_ascii)

lemma decode_ports [simp]:
  "decode_slice decode_PortSpec emptyPortSpec (JArr (map encode_PortSpec ps)) old = Some ps"
  by (rule decode_slice_map) simp

interpretation port_codec: json_codec encode_PortSpec decode_PortSpec emptyPortSpec "\<lambda>_. True"
  by unfold_locales (simp_all add: numeral_eq_Suc)

subsection \<open>Machines\<close>

definition text_MachineInfo :: "MachineInfo \<Rightarrow> bool" where
  "text_MachineInfo m \<longleftrightarrow> valid_utf8 (mi_Name m) \<and> valid_utf8 (mi_State m)"

lemma decode_encode_MachineInfo [simp]: "decode_MachineInfo (encode_MachineInfo m) emptyMachineInfo = Some m"
proof -
  obtain n st c me pid ports net sg og where m: "m = \<lparr>mi_Name = n, mi_State = st, mi_CPUs = c, mi_MemoryMiB = me,
    mi_PID = pid, mi_Ports = ports, mi_Network = net, mi_StorageGB = sg, mi_OverlayGB = og\<rparr>" by (cases m)
  show ?thesis unfolding m
    by (cases pid; cases ports; cases sg; cases og)
      (simp_all add: decode_MachineInfo_def encode_MachineInfo_def emptyMachineInfo_def codec_rules flip: list.map(2))
qed

lemma printable_pointer [simp]: "printable d (json_pointer json_word p)"
  by (simp add: json_pointer_def split: option.splits)

lemma printable_object:
  "printable (Suc d) (JObj (xs @ ys)) \<longleftrightarrow> printable (Suc d) (JObj xs) \<and> printable (Suc d) (JObj ys)"
  "printable (Suc d) (JObj ((k, v) # ms)) \<longleftrightarrow> valid_utf8 k \<and> printable d v \<and> printable (Suc d) (JObj ms)"
  "printable (Suc d) (JObj [])"
  "printable (Suc d) (JObj (omitempty e k v)) \<longleftrightarrow> (\<not> e \<longrightarrow> valid_utf8 k \<and> printable d v)"
  by (auto simp: omitempty_def)

lemma printable_MachineInfo: "text_MachineInfo m \<Longrightarrow> printable (Suc (Suc (Suc d))) (encode_MachineInfo m)"
  unfolding encode_MachineInfo_def printable_object text_MachineInfo_def by (auto simp: valid_utf8_ascii)

interpretation machine_codec: json_codec encode_MachineInfo decode_MachineInfo emptyMachineInfo text_MachineInfo
  by unfold_locales (simp_all add: numeral_eq_Suc printable_MachineInfo)

definition text_ListMachinesResponse :: "ListMachinesResponse \<Rightarrow> bool" where
  "text_ListMachinesResponse r \<longleftrightarrow> list_all text_MachineInfo (list_Machines r)"

interpretation machines_codec: json_codec encode_ListMachinesResponse decode_ListMachinesResponse
  emptyListMachinesResponse text_ListMachinesResponse
proof unfold_locales
  fix x assume "text_ListMachinesResponse x"
  then show "printable 10 (encode_ListMachinesResponse x)"
    by (auto simp: encode_ListMachinesResponse_def text_ListMachinesResponse_def numeral_eq_Suc valid_utf8_ascii
        list_all_iff printable_MachineInfo)
  show "decode_ListMachinesResponse (encode_ListMachinesResponse x) emptyListMachinesResponse = Some x"
    by (simp add: decode_ListMachinesResponse_def encode_ListMachinesResponse_def emptyListMachinesResponse_def
        codec_rules decode_slice_map)
qed

subsection \<open>Observations of the runtime\<close>

definition text_Identity :: "Identity \<Rightarrow> bool" where
  "text_Identity i \<longleftrightarrow> valid_utf8 (id_NodeName i) \<and> valid_utf8 (id_NodeUID i)"

interpretation identity_codec: json_codec encode_Identity decode_Identity emptyIdentity text_Identity
proof unfold_locales
  fix x :: Identity
  obtain n u where x: "x = \<lparr>id_NodeName = n, id_NodeUID = u\<rparr>" by (cases x)
  show "decode_Identity (encode_Identity x) emptyIdentity = Some x"
    unfolding x by (cases u) (simp_all add: decode_Identity_def encode_Identity_def emptyIdentity_def codec_rules)
qed (auto simp: encode_Identity_def text_Identity_def numeral_eq_Suc printable_object valid_utf8_ascii
    simp del: printable.simps(4))

definition text_Health :: "Health \<Rightarrow> bool" where
  "text_Health h \<longleftrightarrow> valid_utf8 (health_Message h)"

interpretation health_codec: json_codec encode_Health decode_Health emptyHealth text_Health
proof unfold_locales
  fix x :: Health
  obtain a b c d m where x: "x = \<lparr>health_OK = a, health_KVMAvailable = b, health_SocketReady = c,
     health_StateReady = d, health_Message = m\<rparr>" by (cases x)
  show "decode_Health (encode_Health x) emptyHealth = Some x"
    unfolding x by (cases m) (simp_all add: decode_Health_def encode_Health_def emptyHealth_def codec_rules)
qed (auto simp: encode_Health_def text_Health_def numeral_eq_Suc printable_object valid_utf8_ascii
    simp del: printable.simps(4))

definition text_Capabilities :: "Capabilities \<Rightarrow> bool" where
  "text_Capabilities c \<longleftrightarrow> valid_utf8 (cap_RuntimeVersion c) \<and> valid_utf8 (cap_ProtocolVersion c)"

interpretation capabilities_codec: json_codec encode_Capabilities decode_Capabilities emptyCapabilities text_Capabilities
proof unfold_locales
  fix x :: Capabilities
  obtain rv pv c m s k where x: "x = \<lparr>cap_RuntimeVersion = rv, cap_ProtocolVersion = pv, cap_CPUs = c, cap_MemoryMiB = m,
     cap_StorageGiB = s, cap_KVMAvailable = k\<rparr>" by (cases x)
  show "decode_Capabilities (encode_Capabilities x) emptyCapabilities = Some x"
    unfolding x by (cases rv; cases pv; cases "c = 0"; cases "m = 0"; cases "s = 0")
      (simp_all add: decode_Capabilities_def encode_Capabilities_def emptyCapabilities_def codec_rules)
qed (auto simp: encode_Capabilities_def text_Capabilities_def numeral_eq_Suc printable_object valid_utf8_ascii
    simp del: printable.simps(4))

subsection \<open>Requests\<close>

definition text_CreateMachineRequest :: "CreateMachineRequest \<Rightarrow> bool" where
  "text_CreateMachineRequest r \<longleftrightarrow> valid_utf8 (create_Name r) \<and> list_all valid_utf8 (create_AllowedCIDRs r) \<and>
     valid_utf8 (create_Image r) \<and> valid_utf8 (create_From r)"

lemma decode_encode_CreateMachineRequest:
  "decode_CreateMachineRequest (encode_CreateMachineRequest r) emptyCreateMachineRequest = Some r"
proof -
  obtain n c m ps net s ov ac im fr where r: "r = \<lparr>create_Name = n, create_CPUs = c, create_MemoryMiB = m,
    create_Ports = ps, create_Network = net, create_StorageGB = s, create_OverlayGB = ov, create_AllowedCIDRs = ac,
    create_Image = im, create_From = fr\<rparr>" by (cases r)
  let ?first = "omitempty (n = []) ''name'' (JStr n) @ omitempty (c = 0) ''cpus'' (json_word c) @
     omitempty (m = 0) ''memoryMb'' (json_word m) @
     omitempty (ps = []) ''ports'' (JArr (map encode_PortSpec ps)) @ omitempty (\<not> net) ''network'' (JBool net)"
  let ?second = "omitempty (s = None) ''storageGb'' (json_pointer json_word s) @
     omitempty (ov = None) ''overlayGb'' (json_pointer json_word ov) @
     omitempty (ac = []) ''allowedCidrs'' (JArr (map JStr ac)) @
     omitempty (im = []) ''image'' (JStr im) @ omitempty (fr = []) ''from'' (JStr fr)"
  have split: "encode_CreateMachineRequest r = JObj (?first @ ?second)" by (simp add: r encode_CreateMachineRequest_def)
  have "decode_CreateMachineRequest (JObj ?first) emptyCreateMachineRequest = Some (emptyCreateMachineRequest
      \<lparr>create_Name := n, create_CPUs := c, create_MemoryMiB := m, create_Ports := ps, create_Network := net\<rparr>)"
    by (cases n; cases "c = 0"; cases "m = 0"; cases ps; cases net)
      (simp_all add: decode_CreateMachineRequest_def emptyCreateMachineRequest_def codec_rules flip: list.map(2))
  moreover have "decode_CreateMachineRequest (JObj ?second) (emptyCreateMachineRequest
      \<lparr>create_Name := n, create_CPUs := c, create_MemoryMiB := m, create_Ports := ps, create_Network := net\<rparr>) = Some r"
    unfolding r
    by (cases s; cases ov; cases ac; cases im; cases fr)
      (simp_all add: decode_CreateMachineRequest_def emptyCreateMachineRequest_def codec_rules flip: list.map(2))
  moreover have "decode_CreateMachineRequest (JObj (?first @ ?second)) z =
      Option.bind (decode_CreateMachineRequest (JObj ?first) z) (decode_CreateMachineRequest (JObj ?second))" for z
    unfolding decode_CreateMachineRequest_def by (rule decode_struct_append)
  ultimately show ?thesis unfolding split by simp
qed

interpretation create_codec: json_codec encode_CreateMachineRequest decode_CreateMachineRequest
  emptyCreateMachineRequest text_CreateMachineRequest
proof unfold_locales
  fix x assume "text_CreateMachineRequest x"
  then show "printable 10 (encode_CreateMachineRequest x)"
    unfolding encode_CreateMachineRequest_def text_CreateMachineRequest_def numeral_eq_Suc printable_object
    by (auto simp: valid_utf8_ascii list_all_iff)
qed (rule decode_encode_CreateMachineRequest)

interpretation resize_codec: json_codec encode_ResizeRequest decode_ResizeRequest emptyResizeRequest "\<lambda>_. True"
proof unfold_locales
  fix x :: ResizeRequest
  obtain s ov where x: "x = \<lparr>resize_StorageGB = s, resize_OverlayGB = ov\<rparr>" by (cases x)
  show "decode_ResizeRequest (encode_ResizeRequest x) emptyResizeRequest = Some x"
    unfolding x by (cases s; cases ov)
      (simp_all add: decode_ResizeRequest_def encode_ResizeRequest_def emptyResizeRequest_def codec_rules)
qed (auto simp: encode_ResizeRequest_def numeral_eq_Suc printable_object valid_utf8_ascii simp del: printable.simps(4))

definition text_ExecResponse :: "ExecResponse \<Rightarrow> bool" where
  "text_ExecResponse r \<longleftrightarrow> valid_utf8 (exec_Stdout r) \<and> valid_utf8 (exec_Stderr r)"

interpretation exec_codec: json_codec encode_ExecResponse decode_ExecResponse emptyExecResponse text_ExecResponse
  by unfold_locales
    (auto simp: decode_ExecResponse_def encode_ExecResponse_def emptyExecResponse_def text_ExecResponse_def codec_rules
      numeral_eq_Suc valid_utf8_ascii)

end
