(* ===== verification/Runtime_Agent.thy ===== *)
theory Runtime_Agent
  imports Api_Types Client_Json Conditions "HOL-Library.Signed_Division"
begin

text \<open>
  The runtime agent, \<open>src/cmd/runtime-agent/main.go\<close>: one per node, it reports the node as a
  \<open>SmolVMNode\<close>, serves the runtime API to the controller on top of the local smolvm server, and can
  remove machines that no VM owns.  As for the controller, the Kubernetes client, the local smolvm
  server, the file system and the clock are an environment that answers calls; the wording of JSON
  errors is a parameter of it too.
\<close>

section \<open>The agent and its environment\<close>

record agent =
  ag_nodeName :: string
  ag_nodeUID :: string
  ag_podName :: string
  ag_podNS :: string
  ag_podIP :: string
  ag_version :: string
  ag_token :: string
  ag_listenPort :: int32

definition protocolVersion :: string where "protocolVersion = ''v1alpha1''"

record FileInfo =
  fi_IsDir :: bool
  fi_CharDevice :: bool

text \<open>\<open>syscall.Statfs_t\<close>: free blocks and the block size.\<close>

record Statfs_t =
  Bavail :: "64 word"
  Bsize :: int64

datatype agent_event =
    AgNow time
  | AgGetNode string "goerror + Node"
  | AgCreateOrUpdate SmolVMNode
  | AgGetSmolVMNode string "goerror + SmolVMNode"
  | AgUpdateNode SmolVMNode "goerror + SmolVMNode"
  | AgUpdateNodeStatus SmolVMNode "goerror option"
  | AgListVM "goerror + SmolVM list"
  | AgStat string "goerror + FileInfo"
  | AgCreateTemp string "goerror + string"
  | AgRemove string
  | AgStatfs string "goerror + Statfs_t"
  | AgListMachines "goerror + MachineInfo list"
  | AgGetMachine string "goerror + MachineInfo"
  | AgCreateMachine CreateMachineRequest "goerror + MachineInfo"
  | AgEnsureMachineRunning string "goerror option"
  | AgStopMachine string "goerror option"
  | AgDeleteMachine string "goerror option"
  | AgResizeMachine string ResizeRequest "goerror option"

type_synonym 'a agent_prog = "(agent_event list, 'a) state"

record agent_env =
  age_Now :: "agent_event list \<Rightarrow> time"
  age_GetNode :: "agent_event list \<Rightarrow> string \<Rightarrow> goerror + Node"
  age_GetSmolVMNode :: "agent_event list \<Rightarrow> string \<Rightarrow> goerror + SmolVMNode"
  age_UpdateNode :: "agent_event list \<Rightarrow> SmolVMNode \<Rightarrow> goerror + SmolVMNode"
  age_UpdateNodeStatus :: "agent_event list \<Rightarrow> SmolVMNode \<Rightarrow> goerror option"
  age_ListVM :: "agent_event list \<Rightarrow> goerror + SmolVM list"
  age_Stat :: "agent_event list \<Rightarrow> string \<Rightarrow> goerror + FileInfo"
  age_CreateTemp :: "agent_event list \<Rightarrow> string \<Rightarrow> goerror + string"
  age_Statfs :: "agent_event list \<Rightarrow> string \<Rightarrow> goerror + Statfs_t"
  age_ListMachines :: "agent_event list \<Rightarrow> goerror + MachineInfo list"
  age_GetMachine :: "agent_event list \<Rightarrow> string \<Rightarrow> goerror + MachineInfo"
  age_CreateMachine :: "agent_event list \<Rightarrow> CreateMachineRequest \<Rightarrow> goerror + MachineInfo"
  age_EnsureMachineRunning :: "agent_event list \<Rightarrow> string \<Rightarrow> goerror option"
  age_StopMachine :: "agent_event list \<Rightarrow> string \<Rightarrow> goerror option"
  age_DeleteMachine :: "agent_event list \<Rightarrow> string \<Rightarrow> goerror option"
  age_ResizeMachine :: "agent_event list \<Rightarrow> string \<Rightarrow> ResizeRequest \<Rightarrow> goerror option"
  age_json_error :: "string \<Rightarrow> string"

definition ag_Now :: "agent_env \<Rightarrow> time agent_prog" where
  "ag_Now E = call (age_Now E) AgNow"
definition ag_GetNode :: "agent_env \<Rightarrow> string \<Rightarrow> (goerror + Node) agent_prog" where
  "ag_GetNode E n = call (\<lambda>h. age_GetNode E h n) (AgGetNode n)"
definition ag_GetSmolVMNode :: "agent_env \<Rightarrow> string \<Rightarrow> (goerror + SmolVMNode) agent_prog" where
  "ag_GetSmolVMNode E n = call (\<lambda>h. age_GetSmolVMNode E h n) (AgGetSmolVMNode n)"
definition ag_UpdateNode :: "agent_env \<Rightarrow> SmolVMNode \<Rightarrow> (goerror + SmolVMNode) agent_prog" where
  "ag_UpdateNode E n = call (\<lambda>h. age_UpdateNode E h n) (AgUpdateNode n)"
definition ag_UpdateNodeStatus :: "agent_env \<Rightarrow> SmolVMNode \<Rightarrow> goerror option agent_prog" where
  "ag_UpdateNodeStatus E n = call (\<lambda>h. age_UpdateNodeStatus E h n) (AgUpdateNodeStatus n)"
definition ag_Stat :: "agent_env \<Rightarrow> string \<Rightarrow> (goerror + FileInfo) agent_prog" where
  "ag_Stat E p = call (\<lambda>h. age_Stat E h p) (AgStat p)"

section \<open>Local observations\<close>

definition isCharDevice :: "agent_env \<Rightarrow> string \<Rightarrow> bool agent_prog" where
  "isCharDevice E path = do {
     r \<leftarrow> ag_Stat E path;
     State_Monad.return (case r of Inl err \<Rightarrow> False | Inr info \<Rightarrow> fi_CharDevice info)
   }"

definition pathExists :: "agent_env \<Rightarrow> string \<Rightarrow> bool agent_prog" where
  "pathExists E path = do {
     r \<leftarrow> ag_Stat E path;
     State_Monad.return (case r of Inl err \<Rightarrow> False | Inr info \<Rightarrow> True)
   }"

definition dirWritable :: "agent_env \<Rightarrow> string \<Rightarrow> bool agent_prog" where
  "dirWritable E path = do {
     r \<leftarrow> ag_Stat E path;
     case r of
       Inl err \<Rightarrow> State_Monad.return False
     | Inr info \<Rightarrow>
       if \<not> fi_IsDir info then State_Monad.return False
       else do {
         f \<leftarrow> call (\<lambda>h. age_CreateTemp E h path) (AgCreateTemp path);
         case f of
           Inl err \<Rightarrow> State_Monad.return False
         | Inr name \<Rightarrow> do {
             _ \<leftarrow> call (\<lambda>_. ()) (\<lambda>_. AgRemove name);
             State_Monad.return True
           }
       }
   }"

text \<open>The product of blocks and block size is taken in 64 bits.\<close>

definition storageGiB :: "agent_env \<Rightarrow> string \<Rightarrow> int64 agent_prog" where
  "storageGiB E path = do {
     r \<leftarrow> call (\<lambda>h. age_Statfs E h path) (AgStatfs path);
     State_Monad.return (case r of
         Inl err \<Rightarrow> 0
       | Inr stat \<Rightarrow> let bytesAvailable = Bavail stat * Bsize stat in bytesAvailable div 1024 div 1024 div 1024)
   }"

definition healthMessage :: "bool \<Rightarrow> bool \<Rightarrow> bool \<Rightarrow> string" where
  "healthMessage socketReady stateReady kvmAvailable =
     (if socketReady \<and> stateReady \<and> kvmAvailable then ''runtime healthy''
      else Join ((if \<not> socketReady then [''smolvm socket unavailable''] else []) @
                 (if \<not> stateReady then [''state directory unavailable''] else []) @
                 (if \<not> kvmAvailable then [''KVM unavailable''] else [])) ''; '')"

definition health :: "agent_env \<Rightarrow> Health agent_prog" where
  "health E = do {
     socketReady \<leftarrow> pathExists E ''/var/run/smolvm/smolvm.sock'';
     stateReady \<leftarrow> dirWritable E ''/var/lib/smolvm'';
     kvmAvailable \<leftarrow> isCharDevice E ''/dev/kvm'';
     State_Monad.return \<lparr>health_OK = socketReady \<and> stateReady \<and> kvmAvailable,
       health_KVMAvailable = kvmAvailable, health_SocketReady = socketReady,
       health_StateReady = stateReady, health_Message = healthMessage socketReady stateReady kvmAvailable\<rparr>
   }"

definition capabilityReport :: "agent_env \<Rightarrow> agent \<Rightarrow> Capabilities agent_prog" where
  "capabilityReport E a = do {
     r \<leftarrow> ag_GetNode E (ag_nodeName a);
     let (cpus, memoryMiB) = (case r of
         Inl err \<Rightarrow> (0, 0)
       | Inr node \<Rightarrow> (signed (node_AllocCPU node),
                       word_of_int (sint (node_AllocMemory node) sdiv 1024 sdiv 1024)));
     storage \<leftarrow> storageGiB E ''/var/lib/smolvm'';
     kvm \<leftarrow> isCharDevice E ''/dev/kvm'';
     State_Monad.return \<lparr>cap_RuntimeVersion = ag_version a, cap_ProtocolVersion = protocolVersion,
       cap_CPUs = cpus, cap_MemoryMiB = memoryMiB, cap_StorageGiB = storage, cap_KVMAvailable = kvm\<rparr>
   }"

section \<open>The status report\<close>

fun agent_nodeConditionsReady :: "NodeCondition list \<Rightarrow> bool" where
  "agent_nodeConditionsReady [] \<longleftrightarrow> False"
| "agent_nodeConditionsReady (c # cs) \<longleftrightarrow>
     (if nc_Type c = ''Ready'' then nc_Status c = ConditionTrue else agent_nodeConditionsReady cs)"

definition agent_kubernetesNodeReady :: "Node \<Rightarrow> bool" where
  "agent_kubernetesNodeReady node = agent_nodeConditionsReady (node_Conditions node)"

definition conditionStatus :: "bool \<Rightarrow> ConditionStatus" where
  "conditionStatus ok = (if ok then ConditionTrue else ConditionFalse)"

text \<open>The status the report writes: \<open>t 0\<close> to \<open>t 3\<close> are the clock readings of the \<open>setCondition\<close> calls.\<close>

definition reportedConditions ::
  "(nat \<Rightarrow> time) \<Rightarrow> Node \<Rightarrow> Health \<Rightarrow> Condition list \<Rightarrow> Condition list" where
  "reportedConditions t k8sNode hl cs =
     (let cs = agent_setCondition (t 0) cs SmolVMNodeConditionReady
                 (conditionStatus (health_OK hl)) ''Reported'' (health_Message hl);
          cs = agent_setCondition (t 1) cs SmolVMNodeConditionKVMAvailable
                 (conditionStatus (health_KVMAvailable hl)) ''Observed'' ''KVM device availability observed'';
          cs = agent_setCondition (t 2) cs SmolVMNodeConditionRuntimeReady
                 (conditionStatus (health_SocketReady hl)) ''Reported'' (health_Message hl)
      in agent_setCondition (t 3) cs SmolVMNodeConditionSchedulable
           (conditionStatus (agent_kubernetesNodeReady k8sNode \<and> health_OK hl)) ''Reported''
           ''node is schedulable for SmolVM'')"

definition reportedStatus ::
  "(nat \<Rightarrow> time) \<Rightarrow> agent \<Rightarrow> time \<Rightarrow> Node \<Rightarrow> Capabilities \<Rightarrow> Health \<Rightarrow> SmolVMNodeStatus \<Rightarrow> SmolVMNodeStatus" where
  "reportedStatus t a now k8sNode cap hl st =
     \<lparr>ns_NodeUID = ag_nodeUID a, ns_RuntimeVersion = ag_version a, ns_ProtocolVersion = protocolVersion,
      ns_HeartbeatTime = Some now,
      ns_Endpoint = \<lparr>ep_PodName = ag_podName a, ep_PodNamespace = ag_podNS a, ep_PodIP = ag_podIP a,
                     ep_Port = ag_listenPort a\<rparr>,
      ns_Allocatable = \<lparr>alloc_CPUs = cap_CPUs cap, alloc_MemoryMiB = cap_MemoryMiB cap,
                        alloc_StorageGiB = cap_StorageGiB cap\<rparr>,
      ns_Conditions = reportedConditions t k8sNode hl (ns_Conditions st)\<rparr>"

text \<open>One clock reading for each \<open>setCondition\<close> call; a reading that no transition needs is not used.\<close>

definition clock4 :: "agent_env \<Rightarrow> (nat \<Rightarrow> time) agent_prog" where
  "clock4 E = do {
     t0 \<leftarrow> ag_Now E; t1 \<leftarrow> ag_Now E; t2 \<leftarrow> ag_Now E; t3 \<leftarrow> ag_Now E;
     State_Monad.return (\<lambda>i. [t0, t1, t2, t3] ! i)
   }"

text \<open>
  \<open>ctrl.CreateOrUpdate\<close> with a mutation that does nothing creates the object when it is missing; its
  result is ignored.  A successful \<open>Update\<close> replaces \<open>latest\<close> by the server's answer.
\<close>

definition report :: "agent_env \<Rightarrow> agent \<Rightarrow> agent agent_prog" where
  "report E a = do {
     r \<leftarrow> ag_GetNode E (ag_nodeName a);
     let (k8sNode, a) = (case r of
         Inl err \<Rightarrow> (emptyNode, a)
       | Inr node \<Rightarrow> (node, a\<lparr>ag_nodeUID := meta_UID (node_Meta node)\<rparr>));
     now \<leftarrow> ag_Now E;
     let node = emptySmolVMNode\<lparr>sn_Meta := emptyMeta\<lparr>meta_Name := ag_nodeName a,
                  meta_Labels := meta_Labels (node_Meta k8sNode)\<rparr>\<rparr>;
     _ \<leftarrow> call (\<lambda>_. ()) (\<lambda>_. AgCreateOrUpdate node);
     g \<leftarrow> ag_GetSmolVMNode E (ag_nodeName a);
     case g of
       Inl err \<Rightarrow> State_Monad.return a
     | Inr latest \<Rightarrow> do {
         let latest = latest\<lparr>sn_Meta := (sn_Meta latest)\<lparr>meta_Labels := meta_Labels (node_Meta k8sNode)\<rparr>\<rparr>;
         u \<leftarrow> ag_UpdateNode E latest;
         let latest = (case u of Inl err \<Rightarrow> latest | Inr updated \<Rightarrow> updated);
         cap \<leftarrow> capabilityReport E a;
         hl \<leftarrow> health E;
         t \<leftarrow> clock4 E;
         _ \<leftarrow> ag_UpdateNodeStatus E
               (latest\<lparr>sn_Status := reportedStatus t a now k8sNode cap hl (sn_Status latest)\<rparr>);
         State_Monad.return a
       }
   }"

section \<open>Orphans\<close>

fun ownedMachines :: "string \<Rightarrow> SmolVM list \<Rightarrow> string list" where
  "ownedMachines nodeName [] = []"
| "ownedMachines nodeName (vm # vms) =
     (if vm_NodeName vm \<noteq> nodeName \<or> status_MachineName (vm_Status vm) = [] \<or>
         meta_DeletionTimestamp (vm_Meta vm) \<noteq> None
      then ownedMachines nodeName vms
      else status_MachineName (vm_Status vm) # ownedMachines nodeName vms)"

fun deleteOrphans :: "agent_env \<Rightarrow> string list \<Rightarrow> MachineInfo list \<Rightarrow> unit agent_prog" where
  "deleteOrphans E owned [] = State_Monad.return ()"
| "deleteOrphans E owned (machine # machines) =
     (if \<not> HasPrefix (mi_Name machine) ''k8s-'' then deleteOrphans E owned machines
      else if mi_Name machine \<in> set owned then deleteOrphans E owned machines
      else do {
        _ \<leftarrow> call (\<lambda>h. age_DeleteMachine E h (mi_Name machine)) (AgDeleteMachine (mi_Name machine));
        deleteOrphans E owned machines
      })"

definition cleanupOrphans :: "agent_env \<Rightarrow> agent \<Rightarrow> unit agent_prog" where
  "cleanupOrphans E a = do {
     m \<leftarrow> call (age_ListMachines E) AgListMachines;
     case m of
       Inl err \<Rightarrow> State_Monad.return ()
     | Inr machines \<Rightarrow> do {
         v \<leftarrow> call (age_ListVM E) AgListVM;
         case v of
           Inl err \<Rightarrow> State_Monad.return ()
         | Inr vms \<Rightarrow> deleteOrphans E (ownedMachines (ag_nodeName a) vms) machines
       }
   }"

section \<open>Which machines the cleanup deletes\<close>

lemma set_ownedMachines:
  "set (ownedMachines n vms) = {status_MachineName (vm_Status vm) | vm. vm \<in> set vms \<and> vm_NodeName vm = n \<and>
     status_MachineName (vm_Status vm) \<noteq> [] \<and> meta_DeletionTimestamp (vm_Meta vm) = None}"
  by (induction vms) auto

definition deleted_names :: "agent_event list \<Rightarrow> string list" where
  "deleted_names es = concat (map (\<lambda>e. case e of AgDeleteMachine n _ \<Rightarrow> [n] | _ \<Rightarrow> []) es)"

lemma deleted_names_simps [simp]:
  "deleted_names [] = []"
  "deleted_names (e # es) = (case e of AgDeleteMachine n _ \<Rightarrow> [n] | _ \<Rightarrow> []) @ deleted_names es"
  by (simp_all add: deleted_names_def)

definition orphan :: "string list \<Rightarrow> MachineInfo \<Rightarrow> bool" where
  "orphan owned m \<longleftrightarrow> HasPrefix (mi_Name m) ''k8s-'' \<and> mi_Name m \<notin> set owned"

lemma deleteOrphans_ensures:
  "ensures (deleteOrphans E owned ms) (\<lambda>_ es. deleted_names es = map mi_Name (filter (orphan owned) ms) \<and>
     (\<forall>e \<in> set es. \<exists>n r. e = AgDeleteMachine n r))"
proof (induction ms)
  case (Cons m ms)
  show ?case
    unfolding deleteOrphans.simps
    by (intro ensures_rules) (rule ensures_mono [OF Cons.IH], auto simp: orphan_def)+
qed (simp add: ensures_return)

text \<open>The whole cleanup: what was listed decides, and nothing is deleted when a listing fails.\<close>

definition cleanup_result :: "agent \<Rightarrow> agent_event list \<Rightarrow> bool" where
  "cleanup_result a es \<longleftrightarrow>
     (\<exists>err. es = [AgListMachines (Inl err)]) \<or>
     (\<exists>machines err. es = [AgListMachines (Inr machines), AgListVM (Inl err)]) \<or>
     (\<exists>machines vms rest. es = AgListMachines (Inr machines) # AgListVM (Inr vms) # rest \<and>
        deleted_names rest = map mi_Name (filter (orphan (ownedMachines (ag_nodeName a) vms)) machines) \<and>
        (\<forall>e \<in> set rest. \<exists>n r. e = AgDeleteMachine n r))"

lemma cleanupOrphans_ensures: "ensures (cleanupOrphans E a) (\<lambda>_. cleanup_result a)"
  unfolding cleanupOrphans_def
  by (intro ensures_rules) (auto simp: cleanup_result_def intro!: ensures_mono [OF deleteOrphans_ensures])

section \<open>What a report says\<close>

lemma agent_kubernetesNodeReady_iff:
  "agent_kubernetesNodeReady node \<longleftrightarrow>
   (\<exists>c. find (\<lambda>c. nc_Type c = ''Ready'') (node_Conditions node) = Some c \<and> nc_Status c = ConditionTrue)"
proof -
  have "agent_nodeConditionsReady cs \<longleftrightarrow> (\<exists>c. find (\<lambda>c. nc_Type c = ''Ready'') cs = Some c \<and> nc_Status c = ConditionTrue)" for cs
    by (induction cs) auto
  then show ?thesis by (simp add: agent_kubernetesNodeReady_def)
qed

lemma conditionStatus_True [simp]: "ConditionTrue = conditionStatus b \<longleftrightarrow> b" "conditionStatus b = ConditionTrue \<longleftrightarrow> b"
  by (auto simp: conditionStatus_def condition_status)

lemma reportedConditions_has:
  assumes "distinct_types cs"
  shows "hasCondition (reportedConditions t k8sNode hl cs) SmolVMNodeConditionReady ConditionTrue \<longleftrightarrow> health_OK hl"
    "hasCondition (reportedConditions t k8sNode hl cs) SmolVMNodeConditionKVMAvailable ConditionTrue \<longleftrightarrow> health_KVMAvailable hl"
    "hasCondition (reportedConditions t k8sNode hl cs) SmolVMNodeConditionRuntimeReady ConditionTrue \<longleftrightarrow> health_SocketReady hl"
    "hasCondition (reportedConditions t k8sNode hl cs) SmolVMNodeConditionSchedulable ConditionTrue \<longleftrightarrow>
       agent_kubernetesNodeReady k8sNode \<and> health_OK hl"
  using assms unfolding reportedConditions_def Let_def
  by (simp_all add: agent.setc_has agent.setc_distinct node_condition_names)

text \<open>Observing changes nothing in the cluster and no machine.\<close>

definition observe_event :: "agent_event \<Rightarrow> bool" where
  "observe_event e \<longleftrightarrow>
     (case e of AgNow _ \<Rightarrow> True | AgGetNode _ _ \<Rightarrow> True | AgStat _ _ \<Rightarrow> True | AgCreateTemp _ _ \<Rightarrow> True
      | AgRemove _ \<Rightarrow> True | AgStatfs _ _ \<Rightarrow> True | _ \<Rightarrow> False)"

definition observes :: "'a agent_prog \<Rightarrow> bool" where
  "observes m \<longleftrightarrow> ensures m (\<lambda>_ es. \<forall>e \<in> set es. observe_event e)"

lemma observes_bind:
  assumes "observes m" and "\<And>a. observes (f a)"
  shows "observes (State_Monad.bind m f)"
  unfolding observes_def
  by (rule ensures_bind_of [OF assms(1) [unfolded observes_def]],
      rule ensures_mono [OF assms(2) [unfolded observes_def]]) auto

lemma observes_basic:
  "observes (State_Monad.return x)" "observes (ag_Stat E p)" "observes (ag_Now E)" "observes (ag_GetNode E n)"
  unfolding observes_def ag_Stat_def ag_Now_def ag_GetNode_def
  by (intro ensures_rules; simp add: observe_event_def)+

lemma observes_files:
  "observes (pathExists E p)" "observes (isCharDevice E p)" "observes (dirWritable E p)" "observes (storageGiB E p)"
  unfolding observes_def pathExists_def isCharDevice_def dirWritable_def storageGiB_def ag_Stat_def
  by (intro ensures_rules; simp add: observe_event_def)+

lemma capabilityReport_observes: "observes (capabilityReport E a)"
  unfolding capabilityReport_def Let_def
  by (intro observes_bind observes_basic observes_files) (auto split: prod.split intro!: observes_bind observes_basic observes_files)

lemma health_observes: "observes (health E)"
  unfolding health_def by (intro observes_bind observes_basic observes_files)

lemma clock4_observes: "observes (clock4 E)"
  unfolding clock4_def by (intro observes_bind observes_basic)

section \<open>What the file checks have seen\<close>

lemma pathExists_read: "ensures (pathExists E p) (\<lambda>b es. \<exists>s. es = [AgStat p s] \<and> (b \<longleftrightarrow> (\<exists>info. s = Inr info)))"
  and isCharDevice_read:
    "ensures (isCharDevice E p) (\<lambda>b es. \<exists>k. es = [AgStat p k] \<and> (b \<longleftrightarrow> (\<exists>info. k = Inr info \<and> fi_CharDevice info)))"
  unfolding pathExists_def isCharDevice_def ag_Stat_def by (intro ensures_rules; auto split: sum.splits)+

text \<open>A directory is writable when it is one and a file could be created in it, which is removed again.\<close>

definition writable :: "string \<Rightarrow> goerror + FileInfo \<Rightarrow> agent_event list \<Rightarrow> bool" where
  "writable p d tmp \<longleftrightarrow> (\<exists>info name. d = Inr info \<and> fi_IsDir info \<and> tmp = [AgCreateTemp p (Inr name), AgRemove name])"

lemma dirWritable_read:
  "ensures (dirWritable E p) (\<lambda>b es. \<exists>d tmp. es = AgStat p d # tmp \<and> (\<forall>e \<in> set tmp. observe_event e) \<and> (b \<longleftrightarrow> writable p d tmp))"
  unfolding dirWritable_def ag_Stat_def by (intro ensures_rules) (auto simp: writable_def observe_event_def)

text \<open>The events of \<open>health\<close>, and how its answer follows from them.\<close>

definition health_read :: "agent_event list \<Rightarrow> Health \<Rightarrow> bool" where
  "health_read ps hl \<longleftrightarrow>
     (\<exists>s d tmp k. ps = AgStat ''/var/run/smolvm/smolvm.sock'' s # AgStat ''/var/lib/smolvm'' d # tmp @ [AgStat ''/dev/kvm'' k] \<and>
        (\<forall>e \<in> set tmp. observe_event e) \<and>
        health_SocketReady hl = (\<exists>info. s = Inr info) \<and>
        health_StateReady hl = writable ''/var/lib/smolvm'' d tmp \<and>
        health_KVMAvailable hl = (\<exists>info. k = Inr info \<and> fi_CharDevice info) \<and>
        health_OK hl = (health_SocketReady hl \<and> health_StateReady hl \<and> health_KVMAvailable hl))"

lemma health_ensures: "ensures (health E) (\<lambda>hl es. health_read es hl)"
  unfolding health_def
  by (rule ensures_bind_of [OF pathExists_read], rule ensures_bind_of [OF dirWritable_read],
      rule ensures_bind_of [OF isCharDevice_read], rule ensures_return)
    (auto simp: health_read_def)

lemma health_read_observes: "health_read ps hl \<Longrightarrow> \<forall>e \<in> set ps. observe_event e"
  by (auto simp: health_read_def observe_event_def)

lemma clock4_readings: "ensures (clock4 E) (\<lambda>_ es. \<exists>ts. es = map AgNow ts)"
proof -
  have "\<exists>ts. [AgNow t0, AgNow t1, AgNow t2, AgNow t3] = map AgNow ts" for t0 t1 t2 t3
    by (rule exI [of _ "[t0, t1, t2, t3]"]) simp
  then show ?thesis unfolding clock4_def ag_Now_def by (intro ensures_rules) simp
qed

text \<open>What the report writes, from what it has read.\<close>

definition node_read :: "goerror + Node \<Rightarrow> Node" where
  "node_read r = (case r of Inl err \<Rightarrow> emptyNode | Inr node \<Rightarrow> node)"

definition report_writes :: "agent \<Rightarrow> agent_event list \<Rightarrow> bool" where
  "report_writes a es \<longleftrightarrow>
     (\<exists>r. hd es = AgGetNode (ag_nodeName a) r \<and>
        (\<forall>v x. AgUpdateNode v x \<in> set es \<longrightarrow>
           meta_Labels (sn_Meta v) = meta_Labels (node_Meta (node_read r))) \<and>
        (\<forall>v x. AgUpdateNodeStatus v x \<in> set es \<longrightarrow>
           (\<exists>t uid now cap hl st pre ps ts.
              es = AgGetNode (ag_nodeName a) r # AgNow now # pre @ ps @ map AgNow ts @ [AgUpdateNodeStatus v x] \<and>
              health_read ps hl \<and>
              sn_Status v = reportedStatus t (a\<lparr>ag_nodeUID := uid\<rparr>) now (node_read r) cap hl st \<and>
              (\<exists>l. st = sn_Status l \<and> (AgGetSmolVMNode (ag_nodeName a) (Inr l) \<in> set es \<or>
                                  (\<exists>w. AgUpdateNode w (Inr l) \<in> set es))))))"

lemma report_tail:
  assumes "\<And>cap hl t x es ps ts. health_read ps hl \<Longrightarrow> \<forall>e \<in> set es. observe_event e \<Longrightarrow>
      Q b (es @ ps @ map AgNow ts @
        [AgUpdateNodeStatus (latest\<lparr>sn_Status := reportedStatus t b now k8sNode cap hl (sn_Status latest)\<rparr>) x])"
  shows "ensures (do {
         cap \<leftarrow> capabilityReport E b;
         hl \<leftarrow> health E;
         t \<leftarrow> clock4 E;
         _ \<leftarrow> ag_UpdateNodeStatus E
               (latest\<lparr>sn_Status := reportedStatus t b now k8sNode cap hl (sn_Status latest)\<rparr>);
         State_Monad.return b
       }) Q"
  unfolding ag_UpdateNodeStatus_def
  apply (rule ensures_bind_of [OF capabilityReport_observes [unfolded observes_def]])
  apply (rule ensures_bind_of [OF health_ensures])
  apply (rule ensures_bind_of [OF clock4_readings])
  apply (intro ensures_rules)
  apply (elim exE, hypsubst)
  apply (rule assms, assumption, assumption)
  done

lemma node_read_split:
  assumes "(case r of Inl err \<Rightarrow> (emptyNode, a)
    | Inr node \<Rightarrow> (node, a\<lparr>ag_nodeUID := meta_UID (node_Meta node)\<rparr>)) = (k8sNode, b)"
  obtains uid where "k8sNode = node_read r" and "b = a\<lparr>ag_nodeUID := uid\<rparr>"
proof (cases r)
  case (Inl err)
  with assms have "k8sNode = node_read r" "b = a\<lparr>ag_nodeUID := ag_nodeUID a\<rparr>" by (auto simp: node_read_def)
  then show ?thesis by (rule that)
next
  case (Inr node)
  with assms that show ?thesis by (auto simp: node_read_def)
qed

lemma observed_no_write:
  "\<forall>e \<in> set es. observe_event e \<Longrightarrow> AgUpdateNode v x \<notin> set es \<and> AgUpdateNodeStatus v y \<notin> set es"
  by (auto simp: observe_event_def)

lemma observed_tail_no_write:
  assumes "\<forall>e \<in> set es. observe_event e" and "health_read ps hl"
  shows "AgUpdateNode v x \<notin> set (es @ ps @ map AgNow ts)" and "AgUpdateNodeStatus v y \<notin> set (es @ ps @ map AgNow ts)"
  using observed_no_write [OF assms(1)] observed_no_write [OF health_read_observes [OF assms(2)]] by auto

lemma report_writesI:
  assumes es: "\<forall>e \<in> set es. observe_event e" and hl: "health_read ps hl" and b: "b = a\<lparr>ag_nodeUID := uid\<rparr>"
    and w: "meta_Labels (sn_Meta w) = meta_Labels (node_Meta (node_read r))" "sn_Status w = sn_Status latest"
    and l: "l = (case u of Inl err \<Rightarrow> w | Inr updated \<Rightarrow> updated)"
  shows "report_writes a (AgGetNode (ag_nodeName a) r # AgNow now # AgCreateOrUpdate n #
    AgGetSmolVMNode (ag_nodeName b) (Inr latest) # AgUpdateNode w u # es @ ps @ map AgNow ts @
    [AgUpdateNodeStatus (l\<lparr>sn_Status := reportedStatus t b now (node_read r) cap hl (sn_Status l)\<rparr>) x])"
    (is "report_writes a (_ # _ # ?e3 # ?e4 # ?e5 # es @ ps @ _ @ [AgUpdateNodeStatus ?v x])" is "report_writes a ?es")
proof -
  have "\<exists>l'. sn_Status l = sn_Status l' \<and>
      (AgGetSmolVMNode (ag_nodeName a) (Inr l') \<in> set ?es \<or> (\<exists>w. AgUpdateNode w (Inr l') \<in> set ?es))"
    using b w(2) l by (cases u) auto
  moreover have "?es = AgGetNode (ag_nodeName a) r # AgNow now # (?e3 # ?e4 # ?e5 # es) @ ps @ map AgNow ts @ [AgUpdateNodeStatus ?v x]"
    by simp
  moreover have "sn_Status ?v = reportedStatus t (a\<lparr>ag_nodeUID := uid\<rparr>) now (node_read r) cap hl (sn_Status l)" using b by simp
  moreover have "v = ?v \<and> y = x" if "AgUpdateNodeStatus v y \<in> set ?es" for v y
    using that observed_tail_no_write(2) [OF es hl] by auto
  moreover have "meta_Labels (sn_Meta v) = meta_Labels (node_Meta (node_read r))" if "AgUpdateNode v y \<in> set ?es" for v y
    using that w(1) observed_tail_no_write(1) [OF es hl] by auto
  ultimately show ?thesis using hl unfolding report_writes_def list.sel by blast
qed

lemma report_ensures: "ensures (report E a) (\<lambda>_. report_writes a)"
  unfolding report_def ag_GetNode_def ag_Now_def ag_GetSmolVMNode_def ag_UpdateNode_def Let_def
proof (intro ensures_bind_call ensures_case_prod ensures_case_sum ensures_return report_tail, goal_cases)
  case (1 h k8sNode b h1 h2 h3 err)
  then show ?case by (auto simp: report_writes_def)
next
  case (2 h k8sNode b h1 h2 h3 latest h4 cap hl t x es ps ts)
  obtain uid where k8s: "k8sNode = node_read (age_GetNode E h (ag_nodeName a))" and b: "b = a\<lparr>ag_nodeUID := uid\<rparr>"
    by (rule node_read_split [OF 2(1)])
  show ?case
    unfolding 2(2) k8s by (rule report_writesI [OF 2(4,3) b]) simp_all
qed

text \<open>A report changes nothing of the agent but the UID of its node, and writes the agent's identity.\<close>

lemma report_identity:
  "ensures (report E a) (\<lambda>b es. (\<exists>uid. b = a\<lparr>ag_nodeUID := uid\<rparr>) \<and>
     (\<forall>v x. AgUpdateNodeStatus v x \<in> set es \<longrightarrow>
        ns_NodeUID (sn_Status v) = ag_nodeUID b \<and> ns_ProtocolVersion (sn_Status v) = protocolVersion))"
  unfolding report_def ag_GetNode_def ag_Now_def ag_GetSmolVMNode_def ag_UpdateNode_def Let_def
proof (intro ensures_bind_call ensures_case_prod ensures_case_sum ensures_return report_tail, goal_cases)
  case (1 h k8sNode b h1 h2 h3 err)
  then show ?case by (auto elim: node_read_split)
next
  case (2 h k8sNode b h1 h2 h3 latest h4 cap hl t x es ps ts)
  then show ?case using observed_tail_no_write(2) [OF 2(4,3)]
    by (auto simp: reportedStatus_def elim: node_read_split)
qed

end
