(* ===== verification/Agent_Http.thy ===== *)
theory Agent_Http
  imports Runtime_Agent
begin

text \<open>
  The HTTP side of the runtime agent (\<open>src/cmd/runtime-agent/main.go\<close>): the handlers, the
  authentication wrapper and the routes of \<open>main\<close>, and the configuration helpers \<open>getenv\<close> and
  \<open>portFromAddr\<close>.  A response is its status code and its content; a JSON body is kept as the value that
  is encoded.
\<close>

section \<open>Requests and responses\<close>

record Request =
  Method :: string
  Path :: string
  Authorization :: string
  ReqBody :: string

datatype content =
    NoBody
  | Text string
  | JHealth Health
  | JIdentity Identity
  | JCapabilities Capabilities
  | JMachines "MachineInfo list"
  | JMachine MachineInfo

record Response =
  Code :: int
  Content :: content

text \<open>\<open>http.Error\<close>, \<open>http.NotFound\<close>, and a JSON body written with the default status.\<close>

definition httpError :: "string \<Rightarrow> int \<Rightarrow> Response" where
  "httpError msg code = \<lparr>Code = code, Content = Text (msg @ [CHR 0x0A])\<rparr>"

definition httpNotFound :: Response where
  "httpNotFound = httpError ''404 page not found'' 404"

definition writeJSON :: "content \<Rightarrow> Response" where
  "writeJSON out = \<lparr>Code = 200, Content = out\<rparr>"

text \<open>\<open>out\<close> is \<open>None\<close> for Go's nil.\<close>

definition writeResult :: "content option \<Rightarrow> goerror option \<Rightarrow> Response" where
  "writeResult out err =
     (case err of
        Some e \<Rightarrow> httpError (Error e) (if IsNotFound e \<or> apierrors_IsNotFound e then 404 else 500)
      | None \<Rightarrow> (case out of None \<Rightarrow> \<lparr>Code = 204, Content = NoBody\<rparr> | Some c \<Rightarrow> writeJSON c))"

section \<open>Handlers\<close>

definition withAuth :: "agent \<Rightarrow> Request \<Rightarrow> Response agent_prog \<Rightarrow> Response agent_prog" where
  "withAuth a r next =
     (if ag_token a \<noteq> [] \<and> Authorization r \<noteq> ''Bearer '' @ ag_token a
      then State_Monad.return (httpError ''unauthorized'' 401)
      else next)"

definition healthz :: "agent_env \<Rightarrow> Response agent_prog" where
  "healthz E = do {
     hl \<leftarrow> health E;
     State_Monad.return \<lparr>Code = (if \<not> health_OK hl then 503 else 200), Content = JHealth hl\<rparr>
   }"

definition identity :: "agent \<Rightarrow> Response agent_prog" where
  "identity a = State_Monad.return (writeJSON (JIdentity \<lparr>id_NodeName = ag_nodeName a, id_NodeUID = ag_nodeUID a\<rparr>))"

definition capabilities :: "agent_env \<Rightarrow> agent \<Rightarrow> Response agent_prog" where
  "capabilities E a = do {
     cap \<leftarrow> capabilityReport E a;
     State_Monad.return (writeJSON (JCapabilities cap))
   }"

definition methodNotAllowed :: Response where
  "methodNotAllowed = httpError ''method not allowed'' 405"

text \<open>An answer with a value: \<open>writeResult(w, v, err)\<close>.\<close>

definition resultOf :: "('a \<Rightarrow> content) \<Rightarrow> goerror + 'a \<Rightarrow> Response" where
  "resultOf f r = (case r of Inl err \<Rightarrow> writeResult None (Some err) | Inr x \<Rightarrow> writeResult (Some (f x)) None)"

definition machines :: "agent_env \<Rightarrow> Request \<Rightarrow> Response agent_prog" where
  "machines E r =
     (if Method r = ''GET'' then do {
        res \<leftarrow> call (age_ListMachines E) AgListMachines;
        State_Monad.return (resultOf JMachines res)
      }
      else if Method r \<noteq> ''POST'' then State_Monad.return methodNotAllowed
      else case Decode (age_json_error E) decode_CreateMachineRequest emptyCreateMachineRequest (ReqBody r) of
        Inl err \<Rightarrow> State_Monad.return (httpError (Error err) 400)
      | Inr req \<Rightarrow> do {
          res \<leftarrow> call (\<lambda>h. age_CreateMachine E h req) (AgCreateMachine req);
          State_Monad.return (resultOf JMachine res)
        })"

text \<open>The operations below a machine: \<open>POST /api/v1/machines/NAME/OP\<close>.\<close>

definition machineOperation :: "agent_env \<Rightarrow> string \<Rightarrow> string \<Rightarrow> string \<Rightarrow> Response agent_prog" where
  "machineOperation E name opn body =
     (if opn = ''exec'' \<or> opn = ''start'' then do {
        err \<leftarrow> call (\<lambda>h. age_EnsureMachineRunning E h name) (AgEnsureMachineRunning name);
        State_Monad.return (writeResult None err)
      }
      else if opn = ''stop'' then do {
        err \<leftarrow> call (\<lambda>h. age_StopMachine E h name) (AgStopMachine name);
        State_Monad.return (writeResult None err)
      }
      else if opn = ''resize'' then
        (case Decode (age_json_error E) decode_ResizeRequest emptyResizeRequest body of
           Inl err \<Rightarrow> State_Monad.return (httpError (Error err) 400)
         | Inr req \<Rightarrow> do {
             err \<leftarrow> call (\<lambda>h. age_ResizeMachine E h name req) (AgResizeMachine name req);
             State_Monad.return (writeResult None err)
           })
      else State_Monad.return httpNotFound)"

definition machine :: "agent_env \<Rightarrow> Request \<Rightarrow> Response agent_prog" where
  "machine E r =
     (let parts = Split CHR ''/'' (TrimPrefix (Path r) ''/api/v1/machines/'') in
      if parts = [] \<or> parts ! 0 = [] then State_Monad.return httpNotFound
      else
        let name = parts ! 0 in
        if length parts = 1 then
          if Method r = ''GET'' then do {
            res \<leftarrow> call (\<lambda>h. age_GetMachine E h name) (AgGetMachine name);
            State_Monad.return (resultOf JMachine res)
          }
          else if Method r = ''DELETE'' then do {
            err \<leftarrow> call (\<lambda>h. age_DeleteMachine E h name) (AgDeleteMachine name);
            State_Monad.return (writeResult None err)
          }
          else State_Monad.return methodNotAllowed
        else if Method r \<noteq> ''POST'' then State_Monad.return methodNotAllowed
        else machineOperation E name (parts ! 1) (ReqBody r))"

section \<open>Routes\<close>

text \<open>
  \<open>http.ServeMux\<close>: a path that is not clean is redirected to its clean form; otherwise an exact pattern
  wins, then the pattern that ends in a slash and is a prefix.
\<close>

fun cleanElements :: "string list \<Rightarrow> string list \<Rightarrow> string list" where
  "cleanElements [] out = rev out"
| "cleanElements (p # ps) out =
     (if p = [] \<or> p = ''.'' then cleanElements ps out
      else if p = ''..'' then cleanElements ps (tl out)
      else cleanElements ps (p # out))"

definition cleanPath :: "string \<Rightarrow> string" where
  "cleanPath p =
     (if p = [] then ''/''
      else
        let p = (if hd p \<noteq> CHR ''/'' then CHR ''/'' # p else p);
            np = CHR ''/'' # Join (cleanElements (Split CHR ''/'' (tl p)) []) ''/''
        in if last p = CHR ''/'' \<and> np \<noteq> ''/'' then np @ ''/'' else np)"

definition serve :: "agent_env \<Rightarrow> agent \<Rightarrow> Request \<Rightarrow> Response agent_prog" where
  "serve E a r =
     (if cleanPath (Path r) \<noteq> Path r then State_Monad.return \<lparr>Code = 301, Content = NoBody\<rparr>
      else if Path r = ''/healthz'' then healthz E
      else if Path r = ''/api/v1/identity'' then withAuth a r (identity a)
      else if Path r = ''/api/v1/capabilities'' then withAuth a r (capabilities E a)
      else if Path r = ''/api/v1/machines'' then withAuth a r (machines E r)
      else if HasPrefix (Path r) ''/api/v1/machines/'' then withAuth a r (machine E r)
      else State_Monad.return httpNotFound)"

section \<open>Configuration\<close>

definition getenv :: "(string \<Rightarrow> string) \<Rightarrow> string \<Rightarrow> string \<Rightarrow> string" where
  "getenv environ key fallback = (let val = environ key in if val \<noteq> [] then val else fallback)"

text \<open>\<open>addr[idx+1:]\<close> after \<open>strings.LastIndex(addr, ":")\<close>; \<open>int32\<close> keeps the low 32 bits.\<close>

definition portFromAddr :: "string \<Rightarrow> int32" where
  "portFromAddr addr =
     (if CHR '':'' \<notin> set addr then 0
      else word_of_int (fst (Atoi (rev (takeWhile (\<lambda>c. c \<noteq> CHR '':'') (rev addr))))))"

definition newAgent :: "(string \<Rightarrow> string) \<Rightarrow> string \<Rightarrow> goerror + agent" where
  "newAgent environ bindAddr =
     (let a = \<lparr>ag_nodeName = getenv environ ''NODE_NAME'' [], ag_nodeUID = [],
               ag_podName = getenv environ ''POD_NAME'' [], ag_podNS = getenv environ ''POD_NAMESPACE'' ''default'',
               ag_podIP = getenv environ ''POD_IP'' [],
               ag_version = getenv environ ''SMOLVM_RUNTIME_VERSION'' ''unknown'',
               ag_token = getenv environ ''SMOLVM_RUNTIME_TOKEN'' [],
               ag_listenPort = portFromAddr bindAddr\<rparr>
      in if ag_nodeName a = [] then Inl (ErrorString ''NODE_NAME is required'') else Inr a)"

section \<open>Facts\<close>

lemma portFromAddr_host:
  assumes "sint p \<ge> 0"
  shows "portFromAddr (host @ '':'' @ int_dec (sint p)) = p"
proof -
  have "takeWhile (\<lambda>c. c \<noteq> CHR '':'') (rev (int_dec (sint p)) @ CHR '':'' # rev host) = rev (int_dec (sint p))"
    using colon_not_in_int_dec [of "sint p"] by (subst takeWhile_append2) auto
  moreover have "sint p < 2 ^ 63" "- (2 ^ 63) \<le> sint p"
    using sint_lt [of p] assms by (simp_all add: less_le_trans)
  then have "Atoi (int_dec (sint p)) = (sint p, None)" by (intro Atoi_int_dec) auto
  ultimately show ?thesis by (simp add: portFromAddr_def)
qed

lemma unauthorized_ensures:
  assumes "ag_token a \<noteq> []" and "Authorization r \<noteq> ''Bearer '' @ ag_token a"
  shows "ensures (serve E a r) (\<lambda>res es. (\<forall>e \<in> set es. observe_event e) \<and>
    (Path r \<noteq> ''/healthz'' \<longrightarrow> es = [] \<and> Code res \<in> {301, 401, 404}))"
proof -
  have "ensures (healthz E) (\<lambda>res es. (\<forall>e \<in> set es. observe_event e))"
    unfolding healthz_def
    by (rule ensures_bind_of [OF health_observes [unfolded observes_def]], intro ensures_rules) simp
  then show ?thesis
    using assms unfolding serve_def withAuth_def
    by (auto simp: httpError_def httpNotFound_def intro!: ensures_return elim!: ensures_mono)
qed

text \<open>Paths below \<open>/api/v1/machines/\<close> whose elements are plain are clean, and split into those elements.\<close>

definition plain :: "string \<Rightarrow> bool" where
  "plain s \<longleftrightarrow> s \<noteq> [] \<and> s \<noteq> ''.'' \<and> s \<noteq> ''..'' \<and> CHR ''/'' \<notin> set s"

lemma cleanElements_plain: "list_all plain ps \<Longrightarrow> cleanElements ps out = rev out @ ps"
  by (induction ps arbitrary: out) (auto simp: plain_def)

lemma Split_Join_plain: "ps \<noteq> [] \<Longrightarrow> list_all plain ps \<Longrightarrow> Split CHR ''/'' (Join ps ''/'') = ps"
  by (induction ps "''/''" rule: Join.induct) (auto simp: plain_def Split_no_sep Split_append_sep)

lemma last_Join_plain: "ps \<noteq> [] \<Longrightarrow> list_all plain ps \<Longrightarrow> Join ps ''/'' \<noteq> [] \<and> last (Join ps ''/'') \<noteq> CHR ''/''"
  by (induction ps "''/''" rule: Join.induct) (auto simp: plain_def dest: last_in_set)

lemma cleanPath_plain:
  assumes "ps \<noteq> []" and "list_all plain ps"
  shows "cleanPath (CHR ''/'' # Join ps ''/'') = CHR ''/'' # Join ps ''/''"
  using assms last_Join_plain [OF assms]
  by (simp add: cleanPath_def Split_Join_plain cleanElements_plain)

lemma machine_path:
  "list_all plain ps \<Longrightarrow> ps \<noteq> [] \<Longrightarrow>
   ''/api/v1/machines/'' @ Join ps ''/'' = CHR ''/'' # Join (''api'' # ''v1'' # ''machines'' # ps) ''/''"
  by (cases ps) simp_all

lemma machine_path_clean:
  assumes "list_all plain ps" and "ps \<noteq> []"
  shows "cleanPath (''/api/v1/machines/'' @ Join ps ''/'') = ''/api/v1/machines/'' @ Join ps ''/''"
  unfolding machine_path [OF assms] by (rule cleanPath_plain) (use assms in \<open>simp_all add: plain_def\<close>)

lemma machine_path_parts:
  assumes "list_all plain ps" and "ps \<noteq> []"
  shows "Split CHR ''/'' (TrimPrefix (''/api/v1/machines/'' @ Join ps ''/'') ''/api/v1/machines/'') = ps"
  using assms by (simp add: TrimPrefix_def HasPrefix_def Split_Join_plain)

text \<open>An authorised request to such a path reaches the machine handler.\<close>

lemma serve_machine:
  assumes "list_all plain ps" and "ps \<noteq> []" and "Path r = ''/api/v1/machines/'' @ Join ps ''/''"
    and "ag_token a = [] \<or> Authorization r = ''Bearer '' @ ag_token a"
  shows "serve E a r = machine E r"
  using assms machine_path_clean [OF assms(1,2)]
  by (auto simp: serve_def withAuth_def HasPrefix_def)

end
