(* ===== verification/Agent_Spec.thy ===== *)
theory Agent_Spec
  imports Agent_Http Scheduler
begin

text \<open>
  The properties of the runtime agent, among them the one that ties it to the scheduler: what a report
  says decides whether the controller considers the node.
\<close>

section \<open>Orphan cleanup\<close>

text \<open>
  C31: the cleanup deletes exactly the listed machines that carry the operator's prefix and that no live
  VM bound to this node names, once each and in the order of the list.
\<close>

theorem cleanup_deletes_exactly_orphans:
  assumes "run_state (cleanupOrphans E a) h = (u, h @ es)"
    and "AgListMachines (Inr ms) \<in> set es" and "AgListVM (Inr vms) \<in> set es"
  shows "deleted_names es = map mi_Name (filter (\<lambda>m. HasPrefix (mi_Name m) ''k8s-'' \<and>
    \<not> (\<exists>vm \<in> set vms. vm_NodeName vm = ag_nodeName a \<and> status_MachineName (vm_Status vm) = mi_Name m \<and>
        meta_DeletionTimestamp (vm_Meta vm) = None)) ms)"
proof -
  obtain rest where es: "es = AgListMachines (Inr ms) # AgListVM (Inr vms) # rest"
    and del: "deleted_names rest = map mi_Name (filter (orphan (ownedMachines (ag_nodeName a) vms)) ms)"
    using ensuresD [OF cleanupOrphans_ensures assms(1)] assms(2,3) by (auto simp: cleanup_result_def)
  have "orphan (ownedMachines (ag_nodeName a) vms) = (\<lambda>m. HasPrefix (mi_Name m) ''k8s-'' \<and>
    \<not> (\<exists>vm \<in> set vms. vm_NodeName vm = ag_nodeName a \<and> status_MachineName (vm_Status vm) = mi_Name m \<and>
        meta_DeletionTimestamp (vm_Meta vm) = None))"
    by (auto simp: orphan_def set_ownedMachines HasPrefix_iff fun_eq_iff)
  with es del show ?thesis by simp
qed

definition quiet_node :: "string \<Rightarrow> Node" where
  "quiet_node n = emptyNode\<lparr>node_Meta := emptyMeta\<lparr>meta_Name := n, meta_UID := ''nu1'', meta_Labels := [(''zone'', ''a'')]\<rparr>,
     node_Conditions := [\<lparr>nc_Type = ''Ready'', nc_Status = ConditionTrue\<rparr>]\<rparr>"

definition quiet_agent_env :: agent_env where
  "quiet_agent_env = \<lparr>
     age_Now = (\<lambda>_. 50),
     age_GetNode = (\<lambda>_ n. Inr (quiet_node n)),
     age_GetSmolVMNode = (\<lambda>_ n. Inr (emptySmolVMNode\<lparr>sn_Meta := emptyMeta\<lparr>meta_Name := n\<rparr>\<rparr>)),
     age_UpdateNode = (\<lambda>_ n. Inr n), age_UpdateNodeStatus = (\<lambda>_ _. None),
     age_ListVM = (\<lambda>_. Inr [emptyVM\<lparr>vm_Status := emptyStatus\<lparr>status_NodeName := ''n1'', status_MachineName := ''k8s-a''\<rparr>\<rparr>]),
     age_Stat = (\<lambda>_ _. Inr \<lparr>fi_IsDir = True, fi_CharDevice = True\<rparr>), age_CreateTemp = (\<lambda>_ _. Inr ''tmp''),
     age_Statfs = (\<lambda>_ _. Inr \<lparr>Bavail = 1048576, Bsize = 4096\<rparr>),
     age_ListMachines = (\<lambda>_. Inr (map (\<lambda>n. \<lparr>mi_Name = n, mi_State = ''running'', mi_CPUs = 1, mi_MemoryMiB = 64,
        mi_PID = None, mi_Ports = [], mi_Network = False, mi_StorageGB = None, mi_OverlayGB = None\<rparr>)
        [''k8s-a'', ''k8s-b'', ''other''])),
     age_GetMachine = (\<lambda>_ _. Inl (APIError 404 [])), age_CreateMachine = (\<lambda>_ _. Inl (ErrorString ''x'')),
     age_EnsureMachineRunning = (\<lambda>_ _. None), age_StopMachine = (\<lambda>_ _. None),
     age_DeleteMachine = (\<lambda>_ _. None), age_ResizeMachine = (\<lambda>_ _ _. None),
     age_json_error = (\<lambda>_. ''EOF'')\<rparr>"

definition example_agent :: agent where
  "example_agent = \<lparr>ag_nodeName = ''n1'', ag_nodeUID = [], ag_podName = ''p'', ag_podNS = ''s'', ag_podIP = ''10.0.0.1'',
     ag_version = ''1'', ag_token = ''secret'', ag_listenPort = 9443\<rparr>"

theorem cleanup_deletes_exactly_orphans_witness:
  "deleted_names (snd (run_state (cleanupOrphans quiet_agent_env example_agent) [])) = [''k8s-b'']"
proof -
  let ?m = "\<lambda>n. \<lparr>mi_Name = n, mi_State = ''running'', mi_CPUs = 1, mi_MemoryMiB = 64, mi_PID = None, mi_Ports = [],
     mi_Network = False, mi_StorageGB = None, mi_OverlayGB = None\<rparr>"
  let ?ms = "[?m ''k8s-a'', ?m ''k8s-b'', ?m ''other'']"
  let ?vms = "[emptyVM\<lparr>vm_Status := emptyStatus\<lparr>status_NodeName := ''n1'', status_MachineName := ''k8s-a''\<rparr>\<rparr>]"
  obtain es where run: "run_state (cleanupOrphans quiet_agent_env example_agent) [] = ((), [] @ es)"
    and es: "AgListMachines (Inr ?ms) \<in> set es" "AgListVM (Inr ?vms) \<in> set es"
    by (simp add: cleanupOrphans_def quiet_agent_env_def example_agent_def HasPrefix_def zero_values)
  show ?thesis
    using cleanup_deletes_exactly_orphans [OF run es] run
    by (simp add: example_agent_def HasPrefix_def zero_values)
qed

text \<open>
  When the machines or the VMs cannot be listed, the cleanup deletes nothing.
\<close>

lemma cleanup_needs_both_lists:
  assumes "run_state (cleanupOrphans E a) h = (u, h @ es)"
    and "(\<forall>ms. AgListMachines (Inr ms) \<notin> set es) \<or> (\<forall>vms. AgListVM (Inr vms) \<notin> set es)"
  shows "deleted_names es = []"
  using ensuresD [OF cleanupOrphans_ensures assms(1)] assms(2) by (auto simp: cleanup_result_def)

section \<open>Reports\<close>

text \<open>Both binaries have their own copy of \<open>kubernetesNodeReady\<close>.\<close>

lemma agent_kubernetesNodeReady_same: "agent_kubernetesNodeReady = kubernetesNodeReady"
proof -
  have "agent_nodeConditionsReady cs = nodeConditionsReady cs" for cs
    by (induction cs) auto
  then show ?thesis by (simp add: agent_kubernetesNodeReady_def kubernetesNodeReady_def fun_eq_iff)
qed

lemma kubernetesNodeReady_emptyNode: "\<not> kubernetesNodeReady emptyNode"
  by (simp add: kubernetesNodeReady_def emptyNode_def)

text \<open>
  C32: a report decides, together with the clock, whether the controller takes the node for eligible: up to two
  minutes after the report's clock reading the node is eligible exactly when the file checks of that report
  found the smolvm socket, a state directory in which a file could be created and \<open>/dev/kvm\<close> as a character
  device, the Kubernetes node it has read was ready, and the agent knows an address and a port; after that it
  never is.  The checks are the last thing the report does before it writes, apart from reading the clock.
\<close>

theorem report_decides_eligibility:
  assumes "run_state (report E a) h = (b, h @ es)" and "AgUpdateNodeStatus v x \<in> set es"
    and "\<And>l. AgGetSmolVMNode (ag_nodeName a) (Inr l) \<in> set es \<or> (\<exists>w. AgUpdateNode w (Inr l) \<in> set es) \<Longrightarrow>
      distinct_types (ns_Conditions (sn_Status l))"
  shows "\<exists>r now pre sock dir tmp kvm ts.
    es = AgGetNode (ag_nodeName a) r # AgNow now # pre @
      (AgStat ''/var/run/smolvm/smolvm.sock'' sock # AgStat ''/var/lib/smolvm'' dir # tmp @ [AgStat ''/dev/kvm'' kvm]) @
      map AgNow ts @ [AgUpdateNodeStatus v x] \<and>
    (\<forall>later. smolVMNodeEligible later v \<longleftrightarrow>
       later - now \<le> 2 * 60 * 10 ^ 9 \<and>
       (\<exists>info. sock = Inr info) \<and>
       (\<exists>info name. dir = Inr info \<and> fi_IsDir info \<and> tmp = [AgCreateTemp ''/var/lib/smolvm'' (Inr name), AgRemove name]) \<and>
       (\<exists>info. kvm = Inr info \<and> fi_CharDevice info) \<and>
       (case r of Inl err \<Rightarrow> False | Inr node \<Rightarrow> kubernetesNodeReady node) \<and>
       ag_podIP a \<noteq> [] \<and> 0 < sint (ag_listenPort a))"
proof -
  have "report_writes a es" by (rule ensuresD [OF report_ensures assms(1)])
  then obtain r t uid now cap hl l pre ps ts where hl: "health_read ps hl"
    and es: "es = AgGetNode (ag_nodeName a) r # AgNow now # pre @ ps @ map AgNow ts @ [AgUpdateNodeStatus v x]"
    and v: "sn_Status v = reportedStatus t (a\<lparr>ag_nodeUID := uid\<rparr>) now (node_read r) cap hl (sn_Status l)"
    and l: "AgGetSmolVMNode (ag_nodeName a) (Inr l) \<in> set es \<or> (\<exists>w. AgUpdateNode w (Inr l) \<in> set es)"
    using assms(2) unfolding report_writes_def by metis
  from hl obtain sock dir tmp kvm where ps: "ps = AgStat ''/var/run/smolvm/smolvm.sock'' sock # AgStat ''/var/lib/smolvm'' dir #
      tmp @ [AgStat ''/dev/kvm'' kvm]"
    and checks: "health_SocketReady hl = (\<exists>info. sock = Inr info)" "health_StateReady hl = writable ''/var/lib/smolvm'' dir tmp"
      "health_KVMAvailable hl = (\<exists>info. kvm = Inr info \<and> fi_CharDevice info)"
      "health_OK hl = (health_SocketReady hl \<and> health_StateReady hl \<and> health_KVMAvailable hl)"
    unfolding health_read_def by metis
  have ready: "agent_kubernetesNodeReady (node_read r) \<longleftrightarrow>
      (case r of Inl err \<Rightarrow> False | Inr node \<Rightarrow> kubernetesNodeReady node)"
    by (cases r) (simp_all add: agent_kubernetesNodeReady_same node_read_def kubernetesNodeReady_emptyNode)
  have "smolVMNodeEligible later v \<longleftrightarrow> later - now \<le> 2 * 60 * 10 ^ 9 \<and> health_OK hl \<and>
       (case r of Inl err \<Rightarrow> False | Inr node \<Rightarrow> kubernetesNodeReady node) \<and>
       ag_podIP a \<noteq> [] \<and> 0 < sint (ag_listenPort a)" for later
    using reportedConditions_has [OF assms(3) [OF l], of t "node_read r" hl] ready checks(4)
    unfolding smolVMNodeEligible_def v reportedStatus_def Let_def
    by (auto simp: protocolVersion_def)
  then show ?thesis
    unfolding checks writable_def
    by (intro exI [of _ r] exI [of _ now] exI [of _ pre] exI [of _ sock] exI [of _ dir] exI [of _ tmp] exI [of _ kvm] exI [of _ ts])
      (use es ps in simp)
qed

lemma quiet_answers [simp]:
  "age_Now quiet_agent_env h = 50" "age_GetNode quiet_agent_env h n = Inr (quiet_node n)"
  "age_GetSmolVMNode quiet_agent_env h n = Inr (emptySmolVMNode\<lparr>sn_Meta := emptyMeta\<lparr>meta_Name := n\<rparr>\<rparr>)"
  "age_UpdateNode quiet_agent_env h v = Inr v" "age_UpdateNodeStatus quiet_agent_env h v = None"
  "age_Stat quiet_agent_env h p = Inr \<lparr>fi_IsDir = True, fi_CharDevice = True\<rparr>"
  "age_CreateTemp quiet_agent_env h p = Inr ''tmp''"
  "age_Statfs quiet_agent_env h p = Inr \<lparr>Bavail = 1048576, Bsize = 4096\<rparr>"
  by (simp_all add: quiet_agent_env_def)

lemma example_report:
  obtains n w v where "run_state (report quiet_agent_env example_agent) [] =
      (example_agent\<lparr>ag_nodeUID := ''nu1''\<rparr>, [] @
       [AgGetNode ''n1'' (Inr (quiet_node ''n1'')), AgNow 50, AgCreateOrUpdate n,
        AgGetSmolVMNode ''n1'' (Inr (emptySmolVMNode\<lparr>sn_Meta := emptyMeta\<lparr>meta_Name := ''n1''\<rparr>\<rparr>)),
        AgUpdateNode w (Inr w), AgGetNode ''n1'' (Inr (quiet_node ''n1'')),
        AgStatfs ''/var/lib/smolvm'' (Inr \<lparr>Bavail = 1048576, Bsize = 4096\<rparr>),
        AgStat ''/dev/kvm'' (Inr \<lparr>fi_IsDir = True, fi_CharDevice = True\<rparr>),
        AgStat ''/var/run/smolvm/smolvm.sock'' (Inr \<lparr>fi_IsDir = True, fi_CharDevice = True\<rparr>),
        AgStat ''/var/lib/smolvm'' (Inr \<lparr>fi_IsDir = True, fi_CharDevice = True\<rparr>),
        AgCreateTemp ''/var/lib/smolvm'' (Inr ''tmp''), AgRemove ''tmp'',
        AgStat ''/dev/kvm'' (Inr \<lparr>fi_IsDir = True, fi_CharDevice = True\<rparr>),
        AgNow 50, AgNow 50, AgNow 50, AgNow 50, AgUpdateNodeStatus v None])"
    and "ns_Conditions (sn_Status w) = []"
proof -
  have agent: "ag_nodeName example_agent = ''n1''" "meta_UID (node_Meta (quiet_node n)) = ''nu1''" for n
    by (simp_all add: example_agent_def quiet_node_def)
  show ?thesis
    by (rule that)
      (simp add: report_def capabilityReport_def health_def pathExists_def dirWritable_def isCharDevice_def
        storageGiB_def clock4_def ag_GetNode_def ag_Now_def ag_GetSmolVMNode_def ag_UpdateNode_def ag_UpdateNodeStatus_def
        ag_Stat_def Let_def agent, simp add: zero_values)
qed

lemma example_report_facts:
  obtains es v where "run_state (report quiet_agent_env example_agent) [] = (example_agent\<lparr>ag_nodeUID := ''nu1''\<rparr>, [] @ es)"
    and "AgUpdateNodeStatus v None \<in> set es" and "hd es = AgGetNode ''n1'' (Inr (quiet_node ''n1''))"
    and "\<And>t. AgNow t \<in> set es \<Longrightarrow> t = 50"
    and "\<And>l. AgGetSmolVMNode ''n1'' (Inr l) \<in> set es \<or> (\<exists>w. AgUpdateNode w (Inr l) \<in> set es) \<Longrightarrow>
      distinct_types (ns_Conditions (sn_Status l))"
    and "\<exists>w x. AgUpdateNode w x \<in> set es"
proof (rule example_report)
  fix n w v
  let ?es = "[AgGetNode ''n1'' (Inr (quiet_node ''n1'')), AgNow 50, AgCreateOrUpdate n,
        AgGetSmolVMNode ''n1'' (Inr (emptySmolVMNode\<lparr>sn_Meta := emptyMeta\<lparr>meta_Name := ''n1''\<rparr>\<rparr>)),
        AgUpdateNode w (Inr w), AgGetNode ''n1'' (Inr (quiet_node ''n1'')),
        AgStatfs ''/var/lib/smolvm'' (Inr \<lparr>Bavail = 1048576, Bsize = 4096\<rparr>),
        AgStat ''/dev/kvm'' (Inr \<lparr>fi_IsDir = True, fi_CharDevice = True\<rparr>),
        AgStat ''/var/run/smolvm/smolvm.sock'' (Inr \<lparr>fi_IsDir = True, fi_CharDevice = True\<rparr>),
        AgStat ''/var/lib/smolvm'' (Inr \<lparr>fi_IsDir = True, fi_CharDevice = True\<rparr>),
        AgCreateTemp ''/var/lib/smolvm'' (Inr ''tmp''), AgRemove ''tmp'',
        AgStat ''/dev/kvm'' (Inr \<lparr>fi_IsDir = True, fi_CharDevice = True\<rparr>),
        AgNow 50, AgNow 50, AgNow 50, AgNow 50, AgUpdateNodeStatus v None]"
  assume run: "run_state (report quiet_agent_env example_agent) [] = (example_agent\<lparr>ag_nodeUID := ''nu1''\<rparr>, [] @ ?es)"
    and w: "ns_Conditions (sn_Status w) = []"
  show thesis
  proof (rule that [OF run])
    fix l assume "AgGetSmolVMNode ''n1'' (Inr l) \<in> set ?es \<or> (\<exists>w. AgUpdateNode w (Inr l) \<in> set ?es)"
    then show "distinct_types (ns_Conditions (sn_Status l))"
      using w by (auto simp: distinct_types_def emptySmolVMNode_def emptyNodeStatus_def)
  qed auto
qed

theorem report_decides_eligibility_witness:
  "\<exists>v es. run_state (report quiet_agent_env example_agent) [] = (example_agent\<lparr>ag_nodeUID := ''nu1''\<rparr>, es) \<and>
     AgUpdateNodeStatus v None \<in> set es \<and> \<not> smolVMNodeEligible (50 + 3 * 60 * 10 ^ 9) v"
proof -
  obtain es v where run: "run_state (report quiet_agent_env example_agent) [] =
      (example_agent\<lparr>ag_nodeUID := ''nu1''\<rparr>, [] @ es)"
    and es: "AgUpdateNodeStatus v None \<in> set es"
    and now: "\<And>t. AgNow t \<in> set es \<Longrightarrow> t = 50"
    and dist: "\<And>l. AgGetSmolVMNode ''n1'' (Inr l) \<in> set es \<or> (\<exists>w. AgUpdateNode w (Inr l) \<in> set es) \<Longrightarrow>
      distinct_types (ns_Conditions (sn_Status l))"
    by (rule example_report_facts) blast
  have name: "ag_nodeName example_agent = ''n1''" by (simp add: example_agent_def)
  obtain r t rest where "es = AgGetNode ''n1'' r # AgNow t # rest" and "\<forall>later. smolVMNodeEligible later v \<longrightarrow> later - t \<le> 2 * 60 * 10 ^ 9"
    using report_decides_eligibility [OF run es, unfolded name, OF dist] by blast
  with now [of t] have "\<not> smolVMNodeEligible (50 + 3 * 60 * 10 ^ 9) v" by fastforce
  with run es show ?thesis by auto
qed

text \<open>
  The labels a report writes are those of the Kubernetes node it has read; when that read failed
  they are empty.
\<close>

lemma report_mirrors_labels:
  assumes "run_state (report E a) h = (b, h @ es)" and "hd es = AgGetNode (ag_nodeName a) r"
    and "AgUpdateNode v x \<in> set es"
  shows "meta_Labels (sn_Meta v) = (case r of Inl err \<Rightarrow> [] | Inr node \<Rightarrow> meta_Labels (node_Meta node))"
  using ensuresD [OF report_ensures assms(1)] assms(2,3)
  by (auto simp: report_writes_def node_read_def zero_values split: sum.splits)

section \<open>The API\<close>

text \<open>
  C34: a request without the agent's token reads and changes nothing but what \<open>/healthz\<close> shows: no machine
  is touched, and every other path is answered without any call, with 401, 404 or a redirect.
\<close>

theorem token_protects_machines:
  assumes "run_state (serve E a r) h = (res, h @ es)"
    and "ag_token a \<noteq> []" and "Authorization r \<noteq> ''Bearer '' @ ag_token a"
  shows "(\<forall>e \<in> set es. observe_event e) \<and> (Path r \<noteq> ''/healthz'' \<longrightarrow> es = [] \<and> Code res \<in> {301, 401, 404})"
  by (rule ensuresD [OF unauthorized_ensures [OF assms(2,3)] assms(1)])

theorem token_protects_machines_witness:
  "let r = \<lparr>Method = ''DELETE'', Path = ''/api/v1/machines/k8s-a'', Authorization = ''Bearer guess'', ReqBody = []\<rparr> in
   \<exists>res. run_state (serve quiet_agent_env example_agent r) [] = (res, []) \<and> Code res = 401"
proof -
  let ?r = "\<lparr>Method = ''DELETE'', Path = ''/api/v1/machines/k8s-a'', Authorization = ''Bearer guess'', ReqBody = []\<rparr>"
  have "run_state (serve quiet_agent_env example_agent ?r) [] = (httpError ''unauthorized'' 401, [] @ [])"
    using machine_path_clean [of "[''k8s-a'']"]
    by (simp add: serve_def withAuth_def plain_def HasPrefix_def example_agent_def)
  from token_protects_machines [OF this] this show ?thesis
    by (simp add: example_agent_def httpError_def)
qed

text \<open>
  The routes are the ones the client uses: for a plain machine name an authorised request makes
  exactly the one call on the local server that it names, on that machine.
\<close>

lemma routes_reach_the_machine:
  assumes "plain name" and "ag_token a = [] \<or> Authorization r = ''Bearer '' @ ag_token a"
    and "run_state (serve E a r) h = (res, h @ es)"
  shows "(Path r = ''/api/v1/machines/'' @ name \<longrightarrow>
      (Method r = ''GET'' \<longrightarrow> (\<exists>g. es = [AgGetMachine name g] \<and> res = resultOf JMachine g)) \<and>
      (Method r = ''DELETE'' \<longrightarrow> (\<exists>err. es = [AgDeleteMachine name err] \<and> res = writeResult None err))) \<and>
    (Path r = ''/api/v1/machines/'' @ name @ ''/stop'' \<and> Method r = ''POST'' \<longrightarrow>
      (\<exists>err. es = [AgStopMachine name err] \<and> res = writeResult None err)) \<and>
    (Path r = ''/api/v1/machines/'' @ name @ ''/exec'' \<and> Method r = ''POST'' \<longrightarrow>
      (\<exists>err. es = [AgEnsureMachineRunning name err] \<and> res = writeResult None err))"
proof -
  have ops: "plain ''stop''" "plain ''exec''" by (simp_all add: plain_def)
  have path: "run_state (machine E r) h = (res, h @ es)" if "Path r = ''/api/v1/machines/'' @ Join ps ''/''"
    "list_all plain ps" "ps \<noteq> []" for ps
    using serve_machine [OF that(2,3,1) assms(2)] assms(3) by simp
  have parts: "Split CHR ''/'' (TrimPrefix (''/api/v1/machines/'' @ Join ps ''/'') ''/api/v1/machines/'') = ps"
    if "list_all plain ps" "ps \<noteq> []" for ps using machine_path_parts [OF that] .
  show ?thesis
    using path [of "[name]"] path [of "[name, ''stop'']"] path [of "[name, ''exec'']"]
      parts [of "[name]"] parts [of "[name, ''stop'']"] parts [of "[name, ''exec'']"] assms(1) ops
    by (auto simp: machine_def machineOperation_def Let_def plain_def)
qed

section \<open>Numbers\<close>

text \<open>
  The storage an agent reports is never negative and below 2 to the 34th, although the byte count is
  a product that may wrap around in 64 bits.
\<close>

lemma reported_storage_is_bounded:
  "0 \<le> sint (fst (run_state (storageGiB E path) h)) \<and> sint (fst (run_state (storageGiB E path) h)) < 2 ^ 34"
proof -
  have "uint (x div 1024 div 1024 div 1024) < 2 ^ 34" for x :: "64 word"
  proof -
    have "uint x < 2 ^ 64" using uint_lt2p [of x] by simp
    then show ?thesis by (simp add: uint_div)
  qed
  moreover have "sint y = uint y" if "uint y < 2 ^ 34" for y :: "64 word"
  proof -
    have "- (2 ^ 63) \<le> uint y" by (rule order_trans [OF _ uint_ge_0]) simp
    moreover have "uint y < 2 ^ 63" using that by simp
    ultimately show ?thesis by (simp add: sint_uint signed_take_bit_int_eq_self)
  qed
  ultimately show ?thesis
    by (auto simp: storageGiB_def Let_def split: sum.splits)
qed

text \<open>
  The port an agent announces is the one it listens on: the number after the last colon of the bind
  address.
\<close>

lemma announced_port_is_the_bound_one:
  assumes "0 \<le> sint p"
  shows "portFromAddr (host @ '':'' @ int_dec (sint p)) = p"
  by (rule portFromAddr_host [OF assms])

end
