(* ===== verification/Cluster_Runs.thy ===== *)
theory Cluster_Runs
  imports Convergence
begin

text \<open>
  The cluster over time: reconciliations of any VM in any order (\<open>reconcile_step\<close>), interleaved with what
  users, agents and the clock do (\<open>outside_step\<close>), which may edit the spec of a bound VM and report any
  capacity of a node.  The invariant is that the VMs assigned to a node fit it and do not claim a host port
  twice: a reconciliation never breaks it, and every binding establishes it for the VM that is bound.
\<close>

section \<open>What one reconciliation changes\<close>

text \<open>The two states agree in all but the machines.\<close>

definition same_objects :: "cluster \<Rightarrow> cluster \<Rightarrow> bool" where
  "same_objects c c' \<longleftrightarrow> cl_vms c' = cl_vms c \<and> cl_smolvmnodes c' = cl_smolvmnodes c \<and> cl_nodes c' = cl_nodes c \<and>
     cl_now c' = cl_now c"

lemma same_objects_simps [simp]:
  "same_objects c c" "same_objects c (change_machine api n f c') \<longleftrightarrow> same_objects c c'"
  by (simp_all add: same_objects_def)

text \<open>
  The object \<open>vm\<close> under the key \<open>req\<close> is removed, or replaced by one with the same identity and spec whose
  node is the same or one that the scheduler accepted.
\<close>

definition keeps_claim :: "cluster \<Rightarrow> SmolVM \<Rightarrow> SmolVM \<Rightarrow> bool" where
  "keeps_claim c vm vm' \<longleftrightarrow> vm_key vm' = vm_key vm \<and> vm_UID vm' = vm_UID vm \<and> vm_Spec vm' = vm_Spec vm \<and>
     meta_DeletionTimestamp (vm_Meta vm') = meta_DeletionTimestamp (vm_Meta vm) \<and>
     (vm_NodeName vm' = vm_NodeName vm \<or>
      (vm_NodeName vm = [] \<and> (\<exists>node \<in> set (cl_smolvmnodes c). accepts c vm node \<and> sn_Name node = vm_NodeName vm')))"

definition reconcile_change :: "NamespacedName \<Rightarrow> SmolVM \<Rightarrow> cluster \<Rightarrow> cluster \<Rightarrow> bool" where
  "reconcile_change req vm c c' \<longleftrightarrow> cl_smolvmnodes c' = cl_smolvmnodes c \<and>
     (cl_vms c' = filter (\<lambda>v. vm_key v \<noteq> req) (cl_vms c) \<or>
      (\<exists>vm'. keeps_claim c vm vm' \<and> cl_vms c' = map (\<lambda>v. if vm_key v = req then vm' else v) (cl_vms c)))"

text \<open>The object under its key, and everything around it.\<close>

lemma find_vm_split:
  assumes "find_vm req vms = Some vm" and "distinct (map vm_key vms)"
  obtains xs ys where "vms = xs @ vm # ys" and "\<forall>v \<in> set xs \<union> set ys. vm_key v \<noteq> req" and "vm_key vm = req"
proof -
  have "vm \<in> set vms" and key: "vm_key vm = req" using assms(1) by (auto simp: find_vm_def find_Some_iff)
  then obtain xs ys where "vms = xs @ vm # ys" using split_list by metis
  moreover from this have "\<forall>v \<in> set xs \<union> set ys. vm_key v \<noteq> req" using assms(2) key by (auto simp: image_iff)
  ultimately show thesis using that key by blast
qed

lemma map_key_same:
  assumes "find_vm req vms = Some vm" and "distinct (map vm_key vms)"
  shows "map (\<lambda>v. if vm_key v = req then f v else v) vms = map (\<lambda>v. if vm_key v = req then f vm else v) vms"
    and "map (\<lambda>v. if vm_key v = req then vm else v) vms = vms"
proof -
  obtain xs ys where s: "vms = xs @ vm # ys" "\<forall>v \<in> set xs \<union> set ys. vm_key v \<noteq> req" "vm_key vm = req"
    by (rule find_vm_split [OF assms])
  then show "map (\<lambda>v. if vm_key v = req then f v else v) vms = map (\<lambda>v. if vm_key v = req then f vm else v) vms"
    and "map (\<lambda>v. if vm_key v = req then vm else v) vms = vms" by (auto intro: map_idI)
qed

text \<open>The situation of a run: the state differs from \<open>c\<close> in the machines only, and \<open>vm\<close> is the object.\<close>

definition at_work :: "cluster \<Rightarrow> SmolVM \<Rightarrow> cluster \<Rightarrow> bool" where
  "at_work c vm c' \<longleftrightarrow> same_objects c c' \<and> find_vm (vm_key vm) (cl_vms c) = Some vm \<and> distinct (map vm_key (cl_vms c))"

lemma at_work_machine [simp]: "at_work c vm (change_machine api n f c') \<longleftrightarrow> at_work c vm c'"
  by (simp add: at_work_def)

lemma at_work_change: "at_work c vm c' \<Longrightarrow> reconcile_change (vm_key vm) vm c c'"
  using map_key_same(2) [of "vm_key vm" "cl_vms c" vm]
  by (auto simp: at_work_def same_objects_def reconcile_change_def keeps_claim_def intro!: exI [of _ vm])

abbreviation changes :: "cluster \<Rightarrow> event list \<Rightarrow> SmolVM \<Rightarrow> cluster \<Rightarrow> 'a prog \<Rightarrow> bool" where
  "changes s h vm c m \<equiv> settles s h m (\<lambda>_ c'. reconcile_change (vm_key vm) vm c c')"

lemma machine_calls_keep_objects:
  "same_objects (replay s h) (replay s (h @ [EvResizeMachine api n q x]))"
  "same_objects (replay s h) (replay s (h @ [EvEnsureMachineRunning api n x]))"
  "same_objects (replay s h) (replay s (h @ [EvStopMachine api n x]))"
  "same_objects (replay s h) (replay s (h @ [EvCreateMachine api r y]))"
  by (cases x; cases y; simp)+

text \<open>The runtimes may answer what they like.\<close>

context api_server
begin

lemma updateStatus_changes:
  assumes "at_work c vm (replay s h)"
    and "in_NodeName inp = vm_NodeName vm \<or> (vm_NodeName vm = [] \<and>
      (\<exists>node \<in> set (cl_smolvmnodes c). accepts c vm node \<and> sn_Name node = in_NodeName inp))"
  shows "changes s h vm c (updateStatus E vm inp)"
proof -
  have found: "find_vm (vm_key vm) (cl_vms (replay s h)) = Some vm" "find_vm (vm_key vm) (cl_vms c) = Some vm"
    and c: "distinct (map vm_key (cl_vms c))" "cl_vms (replay s h) = cl_vms c" "cl_smolvmnodes (replay s h) = cl_smolvmnodes c"
    using assms(1) by (auto simp: at_work_def same_objects_def)
  let ?vm = "vm\<lparr>vm_Status := nextStatus (frozen (cl_now (replay s h))) vm inp\<rparr>"
  have "keeps_claim c vm ?vm" using assms(2) by (auto simp: keeps_claim_def)
  then have "reconcile_change (vm_key vm) vm c (change_vm (vm_key vm) (\<lambda>old. old\<lparr>vm_Status := vm_Status ?vm\<rparr>) (replay s h))"
    using map_key_same(1) [OF found(2) c(1), of "\<lambda>old. old\<lparr>vm_Status := vm_Status ?vm\<rparr>"] c
    unfolding reconcile_change_def change_vm_def by (intro conjI disjI2 exI [of _ ?vm]) simp_all
  then show ?thesis
    using at_work_change [OF assms(1)] found(1)
    by (simp add: updateStatus_def clock6_def call_defs Let_def frozen_def [abs_def])
qed

lemma updateStatusThenRequeue_changes:
  assumes "at_work c vm (replay s h)"
    and "in_NodeName inp = vm_NodeName vm \<or> (vm_NodeName vm = [] \<and>
      (\<exists>node \<in> set (cl_smolvmnodes c). accepts c vm node \<and> sn_Name node = in_NodeName inp))"
  shows "changes s h vm c (updateStatusThenRequeue E vm inp)"
  unfolding updateStatusThenRequeue_def
  by (rule settles_bind [OF updateStatus_changes [OF assms]]) (auto split: option.splits)

text \<open>Statuses that name the node of the VM.\<close>

lemma runtimeUnavailable_changes:
  assumes "at_work c vm (replay s h)"
  shows "changes s h vm c (runtimeUnavailable E R vm (vm_NodeName vm) machineName err)"
  unfolding runtimeUnavailable_def
  by (rule settles_record, rule updateStatusThenRequeue_changes) (use assms in \<open>simp_all add: unavailableInput_def\<close>)

lemma UpdateVM_changes:
  assumes "at_work c vm (replay s h)" and "keeps_claim c vm (v\<lparr>vm_Status := vm_Status vm\<rparr>)"
  shows "changes s h vm c (UpdateVM E v \<bind> (\<lambda>err. State_Monad.return (noRequeue, err)))"
proof -
  have found: "find_vm (vm_key vm) (cl_vms c) = Some vm" "distinct (map vm_key (cl_vms c))"
    and c: "cl_vms (replay s h) = cl_vms c" "cl_smolvmnodes (replay s h) = cl_smolvmnodes c"
    using assms by (auto simp: at_work_def same_objects_def)
  have "vm_key v = vm_key vm" using assms(2) by (simp add: keeps_claim_def)
  then have "reconcile_change (vm_key vm) vm c (store_vm v (replay s h))"
    using map_key_same(1) [OF found, of "\<lambda>old. v\<lparr>vm_Status := vm_Status old\<rparr>"] c assms(2)
    by (auto simp: reconcile_change_def store_vm_def change_vm_def)
  then show ?thesis by (simp add: call_defs)
qed

lemma finishDelete_changes:
  assumes "at_work c vm (replay s h)"
  shows "changes s h vm c (finishDelete E vm)"
  unfolding finishDelete_def
  by (rule UpdateVM_changes [OF assms]) (simp add: keeps_claim_def removeFinalizer_def vm_key_def)

lemma runtimeForNode_quiet:
  "settles s h (runtimeForNode E R n) (\<lambda>_ c'. c' = replay s h)"
proof -
  obtain r es where "run_state (runtimeForNode E R n) h = (r, h @ es)" "\<forall>e \<in> set es. probe_event e"
    using ensures_runs [OF runtimeForNode_ensures] by (metis lookup_result_def)
  then show ?thesis by (simp add: settles_def replay_quiet)
qed

lemma reconcileDelete_changes:
  assumes "at_work c vm (replay s h)"
  shows "changes s h vm c (reconcileDelete E R vm machineName (vm_NodeName vm))"
proof (cases "vm_NodeName vm = [] \<or> machineName = []")
  case True
  then show ?thesis using finishDelete_changes [OF assms] by (simp add: reconcileDelete_def)
next
  case False
  show ?thesis
    unfolding reconcileDelete_def if_not_P [OF False]
  proof (rule settles_bind [OF runtimeForNode_quiet], goal_cases)
    case (1 r h')
    then have w: "at_work c vm (replay s h')" using assms by simp
    show ?case
    proof (cases r)
      case (Inl err)
      with w show ?thesis
        by (auto intro!: settles_record finishDelete_changes updateStatusThenRequeue_changes simp: blockedInput_def)
    next
      case (Inr api)
      show ?thesis
        unfolding Inr sum.case
      proof (rule settles_record)
        fix h'' assume h'': "replay s h'' = replay s h'"
        show "changes s h'' vm c (DeleteMachine E api machineName \<bind> (\<lambda>err. case err of
            Some e \<Rightarrow> if \<not> IsNotFound e then runtimeUnavailable E R vm (vm_NodeName vm) machineName e
              else finishDelete E vm
          | None \<Rightarrow> finishDelete E vm))"
          using w h'' by (cases "env_DeleteMachine E h'' api machineName")
            (auto simp: call_defs intro!: runtimeUnavailable_changes finishDelete_changes)
      qed
    qed
  qed
qed

text \<open>A call to the runtime of the machine, and what its error leads to.\<close>

lemma runtime_call_changes:
  assumes "at_work c vm (replay s h)" and "\<And>h' err. at_work c vm (replay s h') \<Longrightarrow> changes s h' vm c (k err)"
    and "\<And>h'. same_objects (replay s h') (replay s (h' @ [ev (f h')]))"
  shows "changes s h vm c (record_event R vm ty reason msg \<bind> (\<lambda>_. call f ev \<bind> k))"
proof (rule settles_record)
  fix h' assume "replay s h' = replay s h"
  then have "at_work c vm (replay s (h' @ [ev (f h')]))"
    using assms(1) assms(3) [of h'] by (simp add: at_work_def same_objects_def)
  from assms(2) [OF this] show "changes s h' vm c (call f ev \<bind> k)" by simp
qed

lemma requeue_or_unavailable_changes:
  assumes "at_work c vm (replay s h)"
  shows "changes s h vm c (case err of
     Some e \<Rightarrow> runtimeUnavailable E R vm (vm_NodeName vm) machineName e
   | None \<Rightarrow> State_Monad.return (requeue, None))"
  using assms by (cases err) (simp_all add: at_work_change runtimeUnavailable_changes)

lemma reconcileMachine_changes:
  assumes "at_work c vm (replay s h)"
  shows "changes s h vm c (reconcileMachine E R vm machineName (vm_NodeName vm) api machine)"
proof -
  note status = updateStatus_changes [OF _ disjI1]
  have last: "changes s h vm c (updateStatus E vm inp \<bind> (\<lambda>(result, err). case err of
      Some e \<Rightarrow> State_Monad.return (result, Some e) | None \<Rightarrow> State_Monad.return (requeue, None)))"
    if "in_NodeName inp = vm_NodeName vm" for inp
    by (rule settles_bind [OF status [OF assms that]]) (auto split: option.splits)
  have calls:
    "changes s h vm c (record_event R vm ty reason msg \<bind> (\<lambda>_. ResizeMachine E api machineName q \<bind> (\<lambda>err. case err of
       Some e \<Rightarrow> runtimeUnavailable E R vm (vm_NodeName vm) machineName e | None \<Rightarrow> State_Monad.return (requeue, None))))"
    "changes s h vm c (record_event R vm ty reason msg \<bind> (\<lambda>_. EnsureMachineRunning E api machineName \<bind> (\<lambda>err. case err of
       Some e \<Rightarrow> runtimeUnavailable E R vm (vm_NodeName vm) machineName e | None \<Rightarrow> State_Monad.return (requeue, None))))"
    "changes s h vm c (record_event R vm ty reason msg \<bind> (\<lambda>_. StopMachine E api machineName \<bind> (\<lambda>err. case err of
       Some e \<Rightarrow> runtimeUnavailable E R vm (vm_NodeName vm) machineName e | None \<Rightarrow> State_Monad.return (requeue, None))))"
    for ty reason msg q
    unfolding call_defs
    by (rule runtime_call_changes [OF assms requeue_or_unavailable_changes], assumption, rule machine_calls_keep_objects)+
  show ?thesis
    unfolding reconcileMachine_def
    using assms by (auto intro!: settles_record status last calls simp: observedInput_def split: option.splits)
qed

lemma reconcileRuntime_changes:
  assumes "at_work c vm (replay s h)"
  shows "changes s h vm c (reconcileRuntime E R vm machineName (vm_NodeName vm) api)"
proof -
  have create: "changes s h' vm c (record_event R vm ty reason msg \<bind> (\<lambda>_. CreateMachine E api q \<bind> (\<lambda>x. case x of
       Inl err \<Rightarrow> runtimeUnavailable E R vm (vm_NodeName vm) machineName err
     | Inr machine \<Rightarrow> updateStatusThenRequeue E vm (createdInput (vm_NodeName vm) machineName machine))))"
    if "at_work c vm (replay s h')" for h' ty reason msg q
    unfolding CreateMachine_def
  proof (rule runtime_call_changes [OF that])
    fix h' :: "event list" and x :: "goerror + MachineInfo" assume "at_work c vm (replay s h')"
    then show "changes s h' vm c (case x of
       Inl err \<Rightarrow> runtimeUnavailable E R vm (vm_NodeName vm) machineName err
     | Inr machine \<Rightarrow> updateStatusThenRequeue E vm (createdInput (vm_NodeName vm) machineName machine))"
      by (cases x) (auto intro!: runtimeUnavailable_changes updateStatusThenRequeue_changes simp: createdInput_def)
  qed (rule machine_calls_keep_objects)
  show ?thesis
    unfolding reconcileRuntime_def GetMachine_def
    using assms by (auto intro!: create runtimeUnavailable_changes reconcileMachine_changes split: sum.splits)
qed

lemma reconcileBound_changes:
  assumes "at_work c vm (replay s h)"
  shows "changes s h vm c (reconcileBound E R vm machineName (vm_NodeName vm))"
  unfolding reconcileBound_def
  by (rule settles_bind [OF runtimeForNode_quiet])
    (use assms in \<open>auto intro!: runtimeUnavailable_changes reconcileRuntime_changes split: sum.splits\<close>)

text \<open>The scheduler returns a node it accepted in the current state.\<close>

lemma schedule_accepts:
  "settles s h (schedule E vm) (\<lambda>r c'. c' = replay s h \<and> (\<forall>n msg. r = Inr (n, msg) \<and> n \<noteq> [] \<longrightarrow>
     (\<exists>node \<in> set (cl_smolvmnodes (replay s h)). accepts (replay s h) vm node \<and> sn_Name node = n)))"
proof -
  obtain r es where run: "run_state (schedule E vm) h = (r, h @ es)" and es: "\<forall>e \<in> set es. schedule_event e"
    using ensures_runs [OF schedule_reads] by metis
  have "\<exists>node \<in> set (cl_smolvmnodes (replay s h)). accepts (replay s h) vm node \<and> sn_Name node = n"
    if "r = Inr (n, msg)" "n \<noteq> []" for n msg
  proof (cases "spec_NodeName (vm_Spec vm) = []")
    case True
    from schedule_quiet_unpinned [OF quiet_from_cluster True, of h "cl_vms (replay s h)" "cl_smolvmnodes (replay s h)"]
      run that have "name_of (find (accepts (replay s h) vm) (cl_smolvmnodes (replay s h))) = n" by (auto simp: node_ok_accepts)
    then show ?thesis
      using that(2) by (cases "find (accepts (replay s h) vm) (cl_smolvmnodes (replay s h))") (auto simp: name_of_def find_Some_iff)
  next
    case False
    show ?thesis
    proof (cases "find (\<lambda>node. sn_Name node = spec_NodeName (vm_Spec vm)) (cl_smolvmnodes (replay s h))")
      case None
      then have "fst (run_state (schedule E vm) h) = Inr ([], ''pinned node '' @ spec_NodeName (vm_Spec vm) @
          '' has no SmolVMNode runtime status'')"
        using False by (simp add: schedule_def boundVMs_run call_defs Let_def)
      with run that show ?thesis by simp
    next
      case (Some node)
      from schedule_quiet_pinned [OF quiet_from_cluster False, of h "cl_vms (replay s h)" node] Some run that
      show ?thesis by (auto simp: node_ok_accepts find_Some_iff split: if_splits)
    qed
  qed
  then show ?thesis using run es by (auto simp: settles_def replay_quiet)
qed

lemma reconcileUnbound_changes:
  assumes "at_work c vm (replay s h)" and "vm_NodeName vm = []"
  shows "changes s h vm c (reconcileUnbound E vm machineName)"
  unfolding reconcileUnbound_def
proof (rule settles_bind [OF schedule_accepts], goal_cases)
  case (1 r h')
  then have w: "at_work c vm (replay s h')" using assms(1) by simp
  have acc: "accepts (replay s h) = accepts c" "cl_smolvmnodes (replay s h) = cl_smolvmnodes c"
    using assms(1) by (simp_all add: at_work_def same_objects_def accepts_def fun_eq_iff)
  show ?case
  proof (cases r)
    case (Inr p)
    obtain n msg where p: "p = (n, msg)" by (cases p)
    show ?thesis
    proof (cases "n = []")
      case True
      with Inr p show ?thesis
        using updateStatus_changes [OF w, of "pendingInput machineName msg"] assms(2) by (simp add: pendingInput_def)
    next
      case False
      then have "\<exists>node \<in> set (cl_smolvmnodes c). accepts c vm node \<and> sn_Name node = in_NodeName (scheduledInput n machineName)"
        using 1 Inr p acc by (simp add: scheduledInput_def)
      with Inr p False show ?thesis
        using updateStatusThenRequeue_changes [OF w disjI2] assms(2) by simp
    qed
  qed (use w in \<open>simp add: at_work_change\<close>)
qed

lemma reconcileVM_changes:
  assumes "at_work c vm (replay s h)"
  shows "changes s h vm c (reconcileVM E R vm)"
proof -
  have "keeps_claim c vm ((addFinalizer E vm)\<lparr>vm_Status := vm_Status vm\<rparr>)"
    by (simp add: keeps_claim_def addFinalizer_def vm_key_def)
  note UpdateVM_changes [OF assms this]
  moreover have "changes s h vm c (record_event R vm ty reason msg \<bind> (\<lambda>_. updateStatus E vm
      (invalidInput (vm_NodeName vm) machineName err)))" for ty reason msg machineName err
    by (rule settles_record, rule updateStatus_changes) (use assms in \<open>simp_all add: invalidInput_def\<close>)
  ultimately show ?thesis
    using assms reconcileUnbound_changes [OF assms] reconcileBound_changes [OF assms] reconcileDelete_changes [OF assms]
    by (auto simp: reconcileVM_def Let_def split: option.splits)
qed

text \<open>One reconciliation, from any state.\<close>

lemma Reconcile_changes:
  assumes "distinct (map vm_key (cl_vms s))"
  shows "settles s [] (Reconcile E R req) (\<lambda>_ c'. case find_vm req (cl_vms s) of
    None \<Rightarrow> c' = s | Some vm \<Rightarrow> vm_key vm = req \<and> reconcile_change req vm s c')"
proof (cases "find_vm req (cl_vms s)")
  case (Some vm)
  then have key: "vm_key vm = req" by (rule find_vm_key)
  have "at_work s vm (replay s h')" if "replay s h' = replay s []" for h'
    using that Some assms key by (simp add: at_work_def)
  from Reconcile_settles [of req "[]" vm, OF _ reconcileVM_changes [OF this]] show ?thesis using Some key by simp
qed (simp add: Reconcile_def call_defs)

end

section \<open>The steps of the cluster\<close>

text \<open>
  Requests are not negative, as the schema of the custom resource demands, and their sums stay within the
  integers of the scheduler.
\<close>

definition demand_sane :: "SmolVM list \<Rightarrow> bool" where
  "demand_sane vms \<longleftrightarrow> (\<forall>v \<in> set vms. 0 \<le> sint (vm_CPUs v) \<and> 0 \<le> sint (vm_MemoryMiB v) \<and>
       0 \<le> sint (vm_StorageGiB v) \<and> 0 \<le> sint (vm_OverlayGiB v)) \<and>
     cpu_demand vms < 2 ^ 31 \<and> memory_demand vms < 2 ^ 63 \<and> storage_demand vms < 2 ^ 63"

text \<open>What the API server guarantees of its objects: keys, UIDs and node names are unique.\<close>

definition well_formed :: "cluster \<Rightarrow> bool" where
  "well_formed c \<longleftrightarrow> distinct (map vm_key (cl_vms c)) \<and> distinct (map vm_UID (cl_vms c)) \<and>
     distinct (map sn_Name (cl_smolvmnodes c)) \<and> demand_sane (cl_vms c)"

text \<open>
  A reconciliation of some VM, against an API server that shows and stores the current objects and
  runtimes that answer anything, failures included.
\<close>

inductive reconcile_step :: "SmolVMReconciler \<Rightarrow> cluster \<Rightarrow> cluster \<Rightarrow> bool" for R where
  reconciled: "api_server E c \<Longrightarrow> run_state (Reconcile E R req) [] = (r, es) \<Longrightarrow> reconcile_step R c (replay c es)"

text \<open>
  What others do: a new VM; any change of a VM, of its spec and of its labels, bound or not, that keeps its
  identity and its binding (a deletion request is one, and it is not taken back); the removal of an object; and any
  news of the nodes, with any capacities, of the machines and of the clock.
\<close>

inductive outside_step :: "cluster \<Rightarrow> cluster \<Rightarrow> bool" where
  created: "vm_NodeName vm = [] \<Longrightarrow> vm_key vm \<notin> vm_key ` set (cl_vms c) \<Longrightarrow> vm_UID vm \<notin> vm_UID ` set (cl_vms c) \<Longrightarrow>
    demand_sane (vm # cl_vms c) \<Longrightarrow> outside_step c (c\<lparr>cl_vms := cl_vms c @ [vm]\<rparr>)"
| edited: "find_vm k (cl_vms c) = Some vm \<Longrightarrow> vm_key vm' = vm_key vm \<Longrightarrow> vm_UID vm' = vm_UID vm \<Longrightarrow>
    vm_NodeName vm' = vm_NodeName vm \<Longrightarrow>
    (meta_DeletionTimestamp (vm_Meta vm) \<noteq> None \<Longrightarrow> meta_DeletionTimestamp (vm_Meta vm') \<noteq> None) \<Longrightarrow>
    demand_sane (cl_vms (change_vm k (\<lambda>_. vm') c)) \<Longrightarrow> outside_step c (change_vm k (\<lambda>_. vm') c)"
| removed: "outside_step c (c\<lparr>cl_vms := filter (\<lambda>v. vm_key v \<noteq> k) (cl_vms c)\<rparr>)"
| observed: "cl_vms c' = cl_vms c \<Longrightarrow> distinct (map sn_Name (cl_smolvmnodes c')) \<Longrightarrow> outside_step c c'"

inductive cluster_step :: "SmolVMReconciler \<Rightarrow> cluster \<Rightarrow> cluster \<Rightarrow> bool" for R where
  controller: "reconcile_step R c c' \<Longrightarrow> cluster_step R c c'"
| others: "outside_step c c' \<Longrightarrow> cluster_step R c c'"

section \<open>The invariant\<close>

definition host_ports :: "SmolVM \<Rightarrow> int32 set" where
  "host_ports v = HostPort ` set (vm_Ports v)"

text \<open>The VMs that count for node \<open>n\<close>: assigned to it and not being deleted.\<close>

definition claims :: "string \<Rightarrow> SmolVM \<Rightarrow> bool" where
  "claims n v \<longleftrightarrow> vm_NodeName v = n \<and> meta_DeletionTimestamp (vm_Meta v) = None"

abbreviation claiming :: "string \<Rightarrow> cluster \<Rightarrow> SmolVM list" where
  "claiming n c \<equiv> filter (claims n) (cl_vms c)"

definition fits :: "string \<Rightarrow> cluster \<Rightarrow> bool" where
  "fits n c \<longleftrightarrow> (\<forall>node \<in> set (cl_smolvmnodes c). sn_Name node = n \<longrightarrow> within_capacity node (claiming n c))"

definition placed :: "string \<Rightarrow> cluster \<Rightarrow> bool" where
  "placed n c \<longleftrightarrow> fits n c \<and>
     (\<forall>v \<in> set (claiming n c). \<forall>w \<in> set (claiming n c). v \<noteq> w \<longrightarrow> host_ports v \<inter> host_ports w = {})"

text \<open>
  When others leave a node alone: no VM bound to it is made larger or gets another host port, and no report
  declares less capacity for it.
\<close>

definition no_larger :: "SmolVM \<Rightarrow> SmolVM \<Rightarrow> bool" where
  "no_larger v' v \<longleftrightarrow> sint (vm_CPUs v') \<le> sint (vm_CPUs v) \<and> sint (vm_MemoryMiB v') \<le> sint (vm_MemoryMiB v) \<and>
     sint (vm_StorageGiB v') \<le> sint (vm_StorageGiB v) \<and> sint (vm_OverlayGiB v') \<le> sint (vm_OverlayGiB v) \<and>
     host_ports v' \<subseteq> host_ports v"

definition declares_no_less :: "SmolVMNode \<Rightarrow> SmolVMNode \<Rightarrow> bool" where
  "declares_no_less node' node \<longleftrightarrow> (let a' = ns_Allocatable (sn_Status node'); a = ns_Allocatable (sn_Status node) in
     (0 < sint (alloc_CPUs a') \<longrightarrow> 0 < sint (alloc_CPUs a) \<and> sint (alloc_CPUs a) \<le> sint (alloc_CPUs a')) \<and>
     (0 < sint (alloc_MemoryMiB a') \<longrightarrow> 0 < sint (alloc_MemoryMiB a) \<and> sint (alloc_MemoryMiB a) \<le> sint (alloc_MemoryMiB a')) \<and>
     (0 < sint (alloc_StorageGiB a') \<longrightarrow> 0 < sint (alloc_StorageGiB a) \<and> sint (alloc_StorageGiB a) \<le> sint (alloc_StorageGiB a')))"

definition leaves_alone :: "string \<Rightarrow> cluster \<Rightarrow> cluster \<Rightarrow> bool" where
  "leaves_alone n c c' \<longleftrightarrow>
     (\<forall>v' \<in> set (claiming n c'). \<exists>v \<in> set (claiming n c). vm_key v = vm_key v' \<and> no_larger v' v) \<and>
     (\<forall>node' \<in> set (cl_smolvmnodes c'). sn_Name node' = n \<longrightarrow>
        (\<exists>node \<in> set (cl_smolvmnodes c). sn_Name node = n \<and> declares_no_less node' node))"

inductive gentle_step :: "SmolVMReconciler \<Rightarrow> string \<Rightarrow> cluster \<Rightarrow> cluster \<Rightarrow> bool" for R n where
  controller: "reconcile_step R c c' \<Longrightarrow> gentle_step R n c c'"
| others: "outside_step c c' \<Longrightarrow> leaves_alone n c c' \<Longrightarrow> gentle_step R n c c'"

section \<open>Demand\<close>

lemma demand_append [simp]:
  "cpu_demand (xs @ ys) = cpu_demand xs + cpu_demand ys" "memory_demand (xs @ ys) = memory_demand xs + memory_demand ys"
  "storage_demand (xs @ ys) = storage_demand xs + storage_demand ys"
  "cpu_demand (v # ys) = sint (vm_CPUs v) + cpu_demand ys" "memory_demand (v # ys) = sint (vm_MemoryMiB v) + memory_demand ys"
  "storage_demand (v # ys) = sint (vm_StorageGiB v) + sint (vm_OverlayGiB v) + storage_demand ys"
  by (simp_all add: demand_defs)

text \<open>A sum over a list bounds the sum over one whose elements have larger counterparts there.\<close>

lemma sum_by_key_le:
  fixes f :: "'a \<Rightarrow> int"
  assumes "distinct (map key xs')" and "\<And>x'. x' \<in> set xs' \<Longrightarrow> \<exists>x \<in> set xs. key x = key x' \<and> f x' \<le> f x"
    and "\<And>x. x \<in> set xs \<Longrightarrow> 0 \<le> f x"
  shows "sum_list (map f xs') \<le> sum_list (map f xs)"
  using assms
proof (induction xs' arbitrary: xs)
  case Nil
  have "0 \<le> sum_list (map f xs)" by (rule sum_list_nonneg) (use Nil.prems(3) in auto)
  then show ?case by simp
next
  case (Cons x' xs')
  obtain x where x: "x \<in> set xs" "key x = key x'" "f x' \<le> f x" using Cons.prems(2) by auto
  obtain us vs where xs: "xs = us @ x # vs" using split_list [OF x(1)] by blast
  have "sum_list (map f xs') \<le> sum_list (map f (us @ vs))"
  proof (rule Cons.IH)
    show "\<exists>y \<in> set (us @ vs). key y = key y' \<and> f y' \<le> f y" if later: "y' \<in> set xs'" for y'
    proof -
      obtain y where y: "y \<in> set xs" "key y = key y'" "f y' \<le> f y"
        using Cons.prems(2) [of y'] later by auto
      have "key y' \<noteq> key x'" using Cons.prems(1) imageI [OF later, of key] by auto
      with y x(2) xs show ?thesis by auto
    qed
  qed (use Cons.prems xs in auto)
  with x(3) xs show ?case by simp
qed

lemma within_capacity_le:
  assumes "within_capacity node vms" and "declares_no_less node' node" and "distinct (map vm_key vms')"
    and "\<forall>v' \<in> set vms'. \<exists>v \<in> set vms. vm_key v = vm_key v' \<and> no_larger v' v"
    and "\<forall>v \<in> set vms. 0 \<le> sint (vm_CPUs v) \<and> 0 \<le> sint (vm_MemoryMiB v) \<and> 0 \<le> sint (vm_StorageGiB v) \<and> 0 \<le> sint (vm_OverlayGiB v)"
  shows "within_capacity node' vms'"
proof -
  have "cpu_demand vms' \<le> cpu_demand vms" "memory_demand vms' \<le> memory_demand vms" "storage_demand vms' \<le> storage_demand vms"
    unfolding demand_defs
    by (rule sum_by_key_le [where key = vm_key]; use assms(3-5) in \<open>fastforce simp: no_larger_def intro: add_mono\<close>)+
  then show ?thesis using assms(1,2) by (auto simp: within_capacity_def declares_no_less_def Let_def)
qed

text \<open>A part of a sane list is within the range of the integers.\<close>

lemma demand_sane_part:
  assumes "demand_sane vms"
  shows "cpu_demand (filter P vms) \<in> {0..cpu_demand vms} \<and> memory_demand (filter P vms) \<in> {0..memory_demand vms} \<and>
    storage_demand (filter P vms) \<in> {0..storage_demand vms}"
proof -
  have "\<forall>v \<in> set vms. 0 \<le> sint (vm_CPUs v) \<and> 0 \<le> sint (vm_MemoryMiB v) \<and> 0 \<le> sint (vm_StorageGiB v) \<and> 0 \<le> sint (vm_OverlayGiB v)"
    using assms by (simp add: demand_sane_def)
  then show ?thesis by (induction vms) (auto simp: demand_defs)
qed

section \<open>Who counts on the chosen node\<close>

text \<open>The scheduler of \<open>vm\<close> counts exactly the others that claim the node.\<close>

lemma counted_others:
  assumes "cl_vms c = xs @ vm # ys" and "distinct (map vm_UID (cl_vms c))" and "n \<noteq> []"
  shows "on_node n (bound_of vm (cl_vms c)) = filter (claims n) (xs @ ys)"
proof -
  have part: "on_node n (bound_of vm zs) = filter (claims n) zs" if "\<forall>z \<in> set zs. vm_UID z \<noteq> vm_UID vm" for zs
    using that assms(3) by (auto simp: bound_of_def claims_def intro!: filter_cong)
  have "\<forall>z \<in> set xs. vm_UID z \<noteq> vm_UID vm" "\<forall>z \<in> set ys. vm_UID z \<noteq> vm_UID vm" using assms(1,2) by (auto simp: image_iff)
  with part [of xs] part [of ys] show ?thesis using assms(1) by (simp add: bound_of_def)
qed

lemma accepted_has_room:
  assumes "cl_vms c = xs @ vm # ys" and "well_formed c" and "accepts c vm node" and "sn_Name node = n" and "n \<noteq> []"
  shows "within_capacity node (vm # filter (claims n) (xs @ ys))"
    and "w \<in> set (filter (claims n) (xs @ ys)) \<Longrightarrow> host_ports w \<inter> host_ports vm = {}"
proof -
  have sane: "demand_sane (cl_vms c)" and others: "on_node n (bound_of vm (cl_vms c)) = filter (claims n) (xs @ ys)"
    using assms(2) counted_others [OF assms(1) _ assms(5)] by (simp_all add: well_formed_def)
  have "demand_in_range (vm # filter (claims n) (xs @ ys))"
  proof -
    have "demand_sane (xs @ ys)" using assms(1) sane by (auto simp: demand_sane_def)
    from demand_sane_part [OF this, of "claims n"] assms(1) sane show ?thesis by (auto simp: demand_in_range_def demand_sane_def)
  qed
  then show "within_capacity node (vm # filter (claims n) (xs @ ys))"
    using resourceFitReason_Nil [of vm node "bound_of vm (cl_vms c)"] assms(3,4) others
    by (auto simp: accepts_def acceptable_def)
  show "host_ports w \<inter> host_ports vm = {}" if "w \<in> set (filter (claims n) (xs @ ys))"
  proof -
    have "w \<in> set (on_node n (bound_of vm (cl_vms c)))" using that unfolding others .
    then show ?thesis using assms(3,4) by (auto simp: accepts_def acceptable_def no_port_conflict_def host_ports_def)
  qed
qed

section \<open>A reconciliation\<close>

lemma replace_key [simp]:
  assumes "\<forall>v \<in> set xs \<union> set ys. vm_key v \<noteq> req" and "vm_key vm = req"
  shows "map (\<lambda>v. if vm_key v = req then vm' else v) (xs @ vm # ys) = xs @ vm' # ys"
    and "filter (\<lambda>v. vm_key v \<noteq> req) (xs @ vm # ys) = xs @ ys"
  using assms by (auto intro: map_idI simp: filter_id_conv)

lemma reconcile_change_cases:
  assumes "reconcile_change req vm c c'" and "find_vm req (cl_vms c) = Some vm" and "distinct (map vm_key (cl_vms c))"
  obtains (removed) xs ys where "cl_vms c = xs @ vm # ys" "cl_vms c' = xs @ ys" "cl_smolvmnodes c' = cl_smolvmnodes c"
      "req \<notin> vm_key ` set (cl_vms c')"
  | (replaced) xs vm' ys where "cl_vms c = xs @ vm # ys" "cl_vms c' = xs @ vm' # ys" "cl_smolvmnodes c' = cl_smolvmnodes c"
      "keeps_claim c vm vm'" "find_vm req (cl_vms c') = Some vm'"
proof -
  obtain xs ys where vms: "cl_vms c = xs @ vm # ys" and keys: "\<forall>v \<in> set xs \<union> set ys. vm_key v \<noteq> req" "vm_key vm = req"
    by (rule find_vm_split [OF assms(2,3)])
  have nodes: "cl_smolvmnodes c' = cl_smolvmnodes c" using assms(1) by (simp add: reconcile_change_def)
  from assms(1) [unfolded reconcile_change_def vms replace_key [OF keys]]
  consider "cl_vms c' = xs @ ys" | vm' where "keeps_claim c vm vm'" "cl_vms c' = xs @ vm' # ys" by blast
  then show thesis
  proof cases
    case 1
    then have "req \<notin> vm_key ` set (cl_vms c')" using keys(1) by auto
    then show thesis by (rule removed [OF vms 1 nodes])
  next
    case 2
    have "find_vm req (xs @ vm' # ys) = Some vm'"
      using keys 2(1) unfolding find_vm_def by (induction xs) (auto simp: keeps_claim_def)
    then show thesis using replaced [OF vms 2(2) nodes 2(1)] 2(2) by simp
  qed
qed

text \<open>
  It leaves the objects as they are, removes one, or replaces one by an object with the same identity and spec.
\<close>

lemma reconcile_step_cases:
  assumes "reconcile_step R c c'" and "well_formed c"
  obtains (same) "cl_vms c' = cl_vms c" "cl_smolvmnodes c' = cl_smolvmnodes c"
  | (removed) xs vm ys where "cl_vms c = xs @ vm # ys" "cl_vms c' = xs @ ys" "cl_smolvmnodes c' = cl_smolvmnodes c"
  | (replaced) xs vm vm' ys where "cl_vms c = xs @ vm # ys" "cl_vms c' = xs @ vm' # ys" "cl_smolvmnodes c' = cl_smolvmnodes c"
      "keeps_claim c vm vm'"
  using assms(1)
proof cases
  case (reconciled E req r es)
  have keys: "distinct (map vm_key (cl_vms c))" using assms(2) by (simp add: well_formed_def)
  note ch = api_server.Reconcile_changes [OF reconciled(2) keys, of R req]
  show ?thesis
  proof (cases "find_vm req (cl_vms c)")
    case None
    then have "c' = c" using ch reconciled by (simp add: settles_def)
    then show ?thesis using same by simp
  next
    case (Some vm)
    then have "reconcile_change req vm c c'" using ch reconciled by (simp add: settles_def)
    then show ?thesis
      using Some keys by (cases rule: reconcile_change_cases) (use removed replaced in blast)+
  qed
qed

lemma reconcile_step_well_formed:
  assumes "reconcile_step R c c'" and "well_formed c"
  shows "well_formed c'"
  using assms
proof (cases rule: reconcile_step_cases)
  case (replaced xs vm vm' ys)
  then show ?thesis using assms(2) by (auto simp: well_formed_def keeps_claim_def demand_sane_def)
qed (use assms(2) in \<open>auto simp: well_formed_def demand_sane_def\<close>)

lemma no_larger_refl [simp]: "no_larger v v" "vm_Spec v' = vm_Spec v \<Longrightarrow> no_larger v' v"
  by (simp_all add: no_larger_def host_ports_def)

lemma declares_no_less_refl [simp]: "declares_no_less node node"
  by (simp add: declares_no_less_def Let_def)

text \<open>A VM that claims a node after the reconciliation has claimed it before, or has been accepted.\<close>

lemma reconcile_step_claims:
  assumes "reconcile_step R c c'" and "well_formed c" and "n \<noteq> []"
  obtains "leaves_alone n c c'"
  | xs vm vm' ys node where "cl_vms c = xs @ vm # ys" "cl_vms c' = xs @ vm' # ys" "cl_smolvmnodes c' = cl_smolvmnodes c"
      "vm_Spec vm' = vm_Spec vm" "vm_key vm' = vm_key vm" "claims n vm'" "vm_NodeName vm = []"
      "node \<in> set (cl_smolvmnodes c)" "accepts c vm node" "sn_Name node = n"
  using assms(1,2)
proof (cases rule: reconcile_step_cases)
  case same
  then have "leaves_alone n c c'" unfolding leaves_alone_def by (auto intro: bexI [of _ x for x])
  then show ?thesis by (rule that(1))
next
  case (removed xs vm ys)
  then have "leaves_alone n c c'" unfolding leaves_alone_def by (auto intro: bexI [of _ x for x])
  then show ?thesis by (rule that(1))
next
  case (replaced xs vm vm' ys)
  show ?thesis
  proof (cases "claims n vm' \<and> vm_NodeName vm = []")
    case True
    then obtain node where "node \<in> set (cl_smolvmnodes c)" "accepts c vm node" "sn_Name node = n"
      using replaced(4) assms(3) by (auto simp: keeps_claim_def claims_def)
    then show ?thesis using that(2) [OF replaced(1-3)] True replaced(4) by (simp add: keeps_claim_def)
  next
    case False
    then have "claims n vm' \<Longrightarrow> claims n vm" and "no_larger vm' vm" and "vm_key vm = vm_key vm'"
      using replaced(4) by (auto simp: keeps_claim_def claims_def)
    then have "leaves_alone n c c'" unfolding leaves_alone_def using replaced(1-3) by (auto intro: bexI [of _ x for x])
    then show ?thesis by (rule that(1))
  qed
qed

section \<open>The steps keep the invariant\<close>

lemma leaves_alone_placed:
  assumes "well_formed c" and "well_formed c'" and "placed n c" and "leaves_alone n c c'"
  shows "placed n c'"
  unfolding placed_def
proof (intro conjI ballI impI)
  have keys: "distinct (map vm_key (claiming n c'))" using assms(2) by (auto simp: well_formed_def distinct_map_filter)
  have pos: "\<forall>v \<in> set (claiming n c). 0 \<le> sint (vm_CPUs v) \<and> 0 \<le> sint (vm_MemoryMiB v) \<and> 0 \<le> sint (vm_StorageGiB v) \<and>
      0 \<le> sint (vm_OverlayGiB v)" using assms(1) by (auto simp: well_formed_def demand_sane_def)
  have old: "\<forall>v' \<in> set (claiming n c'). \<exists>v \<in> set (claiming n c). vm_key v = vm_key v' \<and> no_larger v' v"
    using assms(4) unfolding leaves_alone_def by blast
  show "fits n c'"
    unfolding fits_def
  proof (intro ballI impI)
    fix node' assume "node' \<in> set (cl_smolvmnodes c')" "sn_Name node' = n"
    then obtain node where "node \<in> set (cl_smolvmnodes c)" "sn_Name node = n" "declares_no_less node' node"
      using assms(4) unfolding leaves_alone_def by blast
    then show "within_capacity node' (claiming n c')"
      using within_capacity_le [OF _ _ keys old pos] assms(3) unfolding placed_def fits_def by blast
  qed
  fix v' w' assume vw: "v' \<in> set (claiming n c')" "w' \<in> set (claiming n c')" "v' \<noteq> w'"
  obtain v w where v: "v \<in> set (claiming n c)" "vm_key v = vm_key v'" "no_larger v' v"
    and w: "w \<in> set (claiming n c)" "vm_key w = vm_key w'" "no_larger w' w" using old vw by meson
  have "vm_key v' \<noteq> vm_key w'" using keys vw by (auto simp: distinct_map inj_on_def)
  then have "v \<noteq> w" using v(2) w(2) by auto
  then have "host_ports v \<inter> host_ports w = {}" using assms(3) v(1) w(1) unfolding placed_def by blast
  then show "host_ports v' \<inter> host_ports w' = {}" using v(3) w(3) by (auto simp: no_larger_def)
qed

text \<open>A VM that a reconciliation binds fits its new node and conflicts with no VM there.\<close>

lemma bound_fits:
  assumes "well_formed c" and "cl_vms c = xs @ vm # ys" and "cl_vms c' = xs @ vm' # ys"
    and "cl_smolvmnodes c' = cl_smolvmnodes c" and "vm_Spec vm' = vm_Spec vm" and "claims n vm'" and "n \<noteq> []"
    and "node \<in> set (cl_smolvmnodes c)" and "accepts c vm node" and "sn_Name node = n"
  shows "fits n c'" and "w \<in> set (filter (claims n) (xs @ ys)) \<Longrightarrow> host_ports w \<inter> host_ports vm' = {}"
proof -
  note room = accepted_has_room [OF assms(2,1,9,10,7)]
  have "nd = node" if "nd \<in> set (cl_smolvmnodes c)" "sn_Name nd = n" for nd
    using that assms(1,8,10) by (auto simp: well_formed_def distinct_map inj_on_def)
  then show "fits n c'"
    using room(1) assms(3-6) by (auto simp: fits_def within_capacity_def Let_def algebra_simps)
  show "host_ports w \<inter> host_ports vm' = {}" if "w \<in> set (filter (claims n) (xs @ ys))"
    using room(2) [OF that] assms(5) by (simp add: host_ports_def)
qed

lemma reconcile_step_placed:
  assumes "reconcile_step R c c'" and "well_formed c" and "n \<noteq> []" and "placed n c"
  shows "placed n c'"
  using assms(1-3)
proof (cases rule: reconcile_step_claims)
  case 1
  then show ?thesis by (rule leaves_alone_placed [OF assms(2) reconcile_step_well_formed [OF assms(1,2)] assms(4)])
next
  case (2 xs vm vm' ys node)
  note new = bound_fits [OF assms(2) 2(1-4,6) assms(3) 2(8-10)]
  have "set (claiming n c') \<subseteq> insert vm' (set (filter (claims n) (xs @ ys)))" using 2(2) by auto
  moreover have "set (filter (claims n) (xs @ ys)) \<subseteq> set (claiming n c)" using 2(1) by auto
  then have "host_ports v \<inter> host_ports w = {}" if "v \<in> set (filter (claims n) (xs @ ys))" "w \<in> set (filter (claims n) (xs @ ys))" "v \<noteq> w" for v w
    using that assms(4) unfolding placed_def by blast
  ultimately show ?thesis
    using new(1) new(2) unfolding placed_def by (blast dest: subsetD)
qed

lemma outside_step_well_formed:
  assumes "outside_step c c'" and "well_formed c"
  shows "well_formed c'"
  using assms
proof cases
  case (created vm)
  then show ?thesis using assms(2) by (auto simp: well_formed_def demand_sane_def demand_defs)
next
  case (edited k vm vm')
  obtain xs ys where vms: "cl_vms c = xs @ vm # ys" and keys: "\<forall>v \<in> set xs \<union> set ys. vm_key v \<noteq> k" "vm_key vm = k"
    using find_vm_split [OF edited(2)] assms(2) unfolding well_formed_def by metis
  have "cl_vms c' = xs @ vm' # ys" using replace_key(1) [OF keys, of vm'] vms edited(1) by (simp add: change_vm_def)
  then show ?thesis using assms(2) vms edited by (auto simp: well_formed_def)
next
  case (removed k)
  have "demand_sane (cl_vms c')"
    using demand_sane_part [of "cl_vms c" "\<lambda>v. vm_key v \<noteq> k"] assms(2) removed by (auto simp: well_formed_def demand_sane_def)
  then show ?thesis using assms(2) removed by (auto simp: well_formed_def distinct_map_filter)
qed (simp add: well_formed_def)

lemma cluster_steps_well_formed: "(cluster_step R)\<^sup>*\<^sup>* c c' \<Longrightarrow> well_formed c \<Longrightarrow> well_formed c'"
  by (induction rule: rtranclp_induct)
    (auto elim!: cluster_step.cases intro: reconcile_step_well_formed outside_step_well_formed)

lemma gentle_steps_placed:
  assumes "(gentle_step R n)\<^sup>*\<^sup>* c c'" and "well_formed c" and "n \<noteq> []" and "placed n c"
  shows "well_formed c' \<and> placed n c'"
  using assms(1)
proof (induction rule: rtranclp_induct)
  case (step c' c'')
  from step(2) show ?case
  proof cases
    case controller
    then show ?thesis using step.IH reconcile_step_placed [OF _ _ assms(3)] reconcile_step_well_formed by blast
  next
    case others
    then show ?thesis using step.IH leaves_alone_placed outside_step_well_formed by blast
  qed
qed (use assms in simp)

text \<open>A VM that claims a node after a reconciliation, and did not before.\<close>

lemma newly_bound_fits:
  assumes "reconcile_step R c c'" and "well_formed c" and "n \<noteq> []" and "v \<in> set (claiming n c')"
    and "\<And>w. w \<in> set (claiming n c) \<Longrightarrow> vm_key w \<noteq> vm_key v"
  shows "n \<in> sn_Name ` set (cl_smolvmnodes c')" and "fits n c'"
    and "w \<in> set (claiming n c') \<Longrightarrow> w \<noteq> v \<Longrightarrow> host_ports v \<inter> host_ports w = {}"
  using assms(1-3)
proof (atomize (full), cases rule: reconcile_step_claims)
  case 1
  then show "n \<in> sn_Name ` set (cl_smolvmnodes c') \<and> fits n c' \<and>
      (w \<in> set (claiming n c') \<longrightarrow> w \<noteq> v \<longrightarrow> host_ports v \<inter> host_ports w = {})"
    using assms(4,5) unfolding leaves_alone_def by metis
next
  case (2 xs vm vm' ys node)
  have "v \<notin> set (claiming n c)" using assms(5) by blast
  then have "v \<notin> set (xs @ ys)" using assms(4) 2(1) by (auto split: if_splits)
  then have "v = vm'" using assms(4) 2(2) by (auto split: if_splits)
  then show "n \<in> sn_Name ` set (cl_smolvmnodes c') \<and> fits n c' \<and>
      (w \<in> set (claiming n c') \<longrightarrow> w \<noteq> v \<longrightarrow> host_ports v \<inter> host_ports w = {})"
    using bound_fits [OF assms(2) 2(1-4,6) assms(3) 2(8-10)] 2(2,3,8,10) by (auto simp: Int_commute)
qed

lemma empty_cluster_well_formed: "cl_vms c = [] \<Longrightarrow> distinct (map sn_Name (cl_smolvmnodes c)) \<Longrightarrow> well_formed c"
  by (simp add: well_formed_def demand_sane_def demand_defs)

lemma empty_cluster_placed: "cl_vms c = [] \<Longrightarrow> placed n c"
  by (simp add: placed_def fits_def within_capacity_def demand_defs Let_def)

end
