(* ===== verification/Cluster_Spec.thy ===== *)
theory Cluster_Spec
  imports Cluster_Runs Example_Runs
begin

text \<open>The properties of the cluster as a whole, over any sequence of steps.\<close>

section \<open>Placement\<close>

text \<open>
  C5: in every state that a cluster reaches, by reconciliations of any VMs in any order, each against current
  objects, interleaved with any new VMs, edits of specs, deletions and reports of the nodes, as long as the
  requests are not negative and their sums stay within the integers of the scheduler:
  (1) when a reconciliation binds a VM, the VMs assigned to the node and not being deleted fit its
  allocatable CPUs, memory and storage, the new VM included, whatever was edited or reported before, and the new
  VM shares no host port with one of them; (2) a node whose VMs fit and share no host port stays so over all
  further steps, as long as nobody but the controller disturbs it: no bound VM on it is made larger or gets
  another host port, and no report declares less capacity for it.  The runtimes may answer or fail as they like.
\<close>

theorem placement_is_invariant:
  assumes "well_formed c0" and "(cluster_step R)\<^sup>*\<^sup>* c0 c" and "n \<noteq> []"
  shows "(\<forall>c' v. reconcile_step R c c' \<and> v \<in> set (claiming n c') \<and> (\<forall>w \<in> set (claiming n c). vm_key w \<noteq> vm_key v) \<longrightarrow>
      (\<exists>node \<in> set (cl_smolvmnodes c'). sn_Name node = n \<and> within_capacity node (claiming n c')) \<and>
      (\<forall>w \<in> set (claiming n c'). w \<noteq> v \<longrightarrow> host_ports v \<inter> host_ports w = {})) \<and>
    (\<forall>c'. placed n c \<and> (gentle_step R n)\<^sup>*\<^sup>* c c' \<longrightarrow> placed n c')"
proof (intro conjI allI impI, goal_cases)
  case (1 c' v)
  have ok: "well_formed c" by (rule cluster_steps_well_formed [OF assms(2,1)])
  note new = newly_bound_fits [OF _ ok assms(3), of R c' v]
  from new(1,2) 1 show ?case unfolding fits_def by blast
next
  case (2 c' v)
  have ok: "well_formed c" by (rule cluster_steps_well_formed [OF assms(2,1)])
  from newly_bound_fits(3) [OF _ ok assms(3), of R c' v] 2 show ?case by blast
next
  case (3 c')
  then show ?case using gentle_steps_placed [OF _ cluster_steps_well_formed [OF assms(2,1)] assms(3)] by blast
qed

text \<open>A VM is created in an empty cluster and reconciled.\<close>

theorem placement_is_invariant_witness:
  "\<exists>c' vm. (gentle_step example_reconciler ''n1'')\<^sup>*\<^sup>* ((example_cluster example_vm None)\<lparr>cl_vms := []\<rparr>) c' \<and>
     find_vm example_key (cl_vms c') = Some vm \<and> vm_NodeName vm = ''n1'' \<and>
     cl_smolvmnodes c' = [example_smolvmnode] \<and> within_capacity example_smolvmnode (claiming ''n1'' c')"
proof -
  let ?start = "(example_cluster example_vm None)\<lparr>cl_vms := []\<rparr>" and ?c = "example_cluster example_vm None"
  have "?start\<lparr>cl_vms := cl_vms ?start @ [example_vm]\<rparr> = ?c" "cl_vms ?start = []" by (simp_all add: example_cluster_def)
  moreover have "demand_sane [example_vm]" "vm_NodeName example_vm = []" by (simp_all add: example_defs demand_sane_def demand_defs)
  ultimately have new: "outside_step ?start ?c"
    using outside_step.created [of example_vm ?start] by (simp only:) simp
  moreover have "leaves_alone ''n1'' ?start ?c"
    using \<open>vm_NodeName example_vm = []\<close> by (simp add: leaves_alone_def claims_def example_cluster_def)
  ultimately have one: "gentle_step example_reconciler ''n1'' ?start ?c" by (rule gentle_step.others)
  obtain r es where run: "run_state (Reconcile (cluster_env ?c) example_reconciler example_key) [] = (r, es)" by fastforce
  have "find_vm example_key (cl_vms ?c) = Some example_vm" "admitted (cluster_env ?c) example_vm" "vm_NodeName example_vm = []"
    "spec_NodeName (vm_Spec example_vm) = []" "sn_Name example_smolvmnode = ''n1''"
    using example_spec_valid(1) by (simp_all add: find_vm_def admitted_def example_defs)
  note bind = ref.Reconcile_bind [of example_key ?c "[]", simplified, OF this(1-4)]
  have vm: "\<exists>vm. find_vm example_key (cl_vms (replay ?c es)) = Some vm \<and> vm_NodeName vm = ''n1''"
    and nodes: "cl_smolvmnodes (replay ?c es) = [example_smolvmnode]"
    using bind [of example_smolvmnode example_reconciler] example_accepts [of None] run \<open>sn_Name example_smolvmnode = ''n1''\<close>
    by (auto simp: settles_def only_vm_def example_cluster_def scheduledInput_def)
  have steps: "(gentle_step example_reconciler ''n1'')\<^sup>*\<^sup>* ?start (replay ?c es)"
    using one gentle_step.controller [OF reconcile_step.reconciled [OF ref.api_server_axioms run]]
    by (meson converse_rtranclp_into_rtranclp r_into_rtranclp)
  have start: "well_formed ?start" "placed ''n1'' ?start"
    by (rule empty_cluster_well_formed empty_cluster_placed; simp add: example_cluster_def)+
  have "placed ''n1'' (replay ?c es)"
    using placement_is_invariant [OF start(1) rtranclp.rtrancl_refl, of "''n1''" example_reconciler] start(2) steps by blast
  then have "within_capacity example_smolvmnode (claiming ''n1'' (replay ?c es))"
    using nodes \<open>sn_Name example_smolvmnode = ''n1''\<close> by (simp add: placed_def fits_def)
  with vm nodes steps show ?thesis by blast
qed

section \<open>Sums that wrap around\<close>

text \<open>The capacity check where the CPUs, summed as 32-bit integers, wrap around.\<close>

lemma sint_wrapped:
  assumes "2 ^ 31 \<le> k" and "k < 2 ^ 32 + 2 ^ 31"
  shows "sint (word_of_int k :: 32 word) = k - 2 ^ 32"
proof -
  have "(word_of_int k :: 32 word) = word_of_int (k - 2 ^ 32)" by (simp add: word_of_int_eq_iff take_bit_eq_mod)
  moreover have "sint (word_of_int (k - 2 ^ 32) :: 32 word) = k - 2 ^ 32"
    using sint_of_int_in_range [where 'a = 32, of "k - 2 ^ 32"] assms by simp
  ultimately show ?thesis by metis
qed

lemma resourceFitReason_wraps:
  assumes "vms = vm # on_node (sn_Name node) bound" and "a = ns_Allocatable (sn_Status node)"
    and "0 < sint (alloc_CPUs a)" and "2 ^ 31 \<le> cpu_demand vms" and "cpu_demand vms \<le> 2 ^ 32 + sint (alloc_CPUs a)"
    and "memory_demand vms \<in> {- (2 ^ 63)..<2 ^ 63}" and "0 < sint (alloc_MemoryMiB a) \<longrightarrow> memory_demand vms \<le> sint (alloc_MemoryMiB a)"
    and "storage_demand vms \<in> {- (2 ^ 63)..<2 ^ 63}" and "0 < sint (alloc_StorageGiB a) \<longrightarrow> storage_demand vms \<le> sint (alloc_StorageGiB a)"
  shows "resourceFitReason node vm bound = []"
proof -
  let ?used = "on_node (sn_Name node) bound"
  have top: "sint (alloc_CPUs a) < 2 ^ 31" using sint_lt [of "alloc_CPUs a"] by simp
  have "sint (of_int (cpu_demand ?used) + vm_CPUs vm) = cpu_demand vms - 2 ^ 32"
    using sint_wrapped [of "cpu_demand vms"] assms(1,4,5) top by (simp add: demand_defs add.commute)
  moreover have "sint (of_int (memory_demand ?used) + (signed (vm_MemoryMiB vm) :: int64)) = memory_demand vms"
    using sint_of_int_in_range [where 'a = 64, of "memory_demand vms"] assms(1,6) by (simp add: demand_defs add.commute)
  moreover have "sint (of_int (storage_demand ?used) + (vm_StorageGiB vm + vm_OverlayGiB vm)) = storage_demand vms"
    using sint_of_int_in_range [where 'a = 64, of "storage_demand vms"] assms(1,8) by (simp add: demand_defs add.commute)
  ultimately show ?thesis
    using assms(2-9) by (auto simp: resourceFitReason_def usedResources_eq Let_def)
qed

text \<open>
  C40: the bound on the sums of requests is needed: the sum of CPUs is a 32-bit integer.  In a cluster that stores what it
  is given, let the first node be eligible, ready and free of port conflicts for a new VM, with memory and
  storage enough and a positive number of allocatable CPUs.  If the CPUs of the VMs on it and of the new one add
  up to anything from 2 to the 31st to 2 to the 32nd plus the allocatable CPUs, one reconciliation binds the VM
  there, and the node is overcommitted.
\<close>

theorem cpu_sum_wraps:
  assumes "find_vm req (cl_vms c) = Some vm" and "distinct (map vm_key (cl_vms c))" and "distinct (map vm_UID (cl_vms c))"
    and "meta_DeletionTimestamp (vm_Meta vm) = None" and "SmolVMFinalizer \<in> set (vm_Finalizers vm)" and "spec_valid vm"
    and "vm_NodeName vm = []" and "spec_NodeName (vm_Spec vm) = []"
    and "cl_smolvmnodes c = node # nodes" and "sn_Name node = n" and "n \<noteq> []"
    and "smolVMNodeEligible (cl_now c) node" and "matchesNodeSelector node (spec_NodeSelector (vm_Spec vm))"
    and "find (\<lambda>k. meta_Name (node_Meta k) = n) (cl_nodes c) = Some k8sNode"
    and "\<not> node_Unschedulable k8sNode" and "kubernetesNodeReady k8sNode"
    and "no_port_conflict n vm (bound_of vm (cl_vms c))"
    and "vms = vm # on_node n (bound_of vm (cl_vms c))" and "a = ns_Allocatable (sn_Status node)"
    and "0 < sint (alloc_CPUs a)" and "2 ^ 31 \<le> cpu_demand vms" and "cpu_demand vms \<le> 2 ^ 32 + sint (alloc_CPUs a)"
    and "memory_demand vms \<in> {- (2 ^ 63)..<2 ^ 63}" and "0 < sint (alloc_MemoryMiB a) \<longrightarrow> memory_demand vms \<le> sint (alloc_MemoryMiB a)"
    and "storage_demand vms \<in> {- (2 ^ 63)..<2 ^ 63}" and "0 < sint (alloc_StorageGiB a) \<longrightarrow> storage_demand vms \<le> sint (alloc_StorageGiB a)"
  shows "let c' = replay c (snd (run_state (Reconcile (cluster_env c) R req) [])) in
    (\<exists>vm'. find_vm req (cl_vms c') = Some vm' \<and> vm_NodeName vm' = n) \<and> sint (alloc_CPUs a) < cpu_demand (claiming n c')"
proof -
  have "accepts c vm node"
    using assms(10,12-17) resourceFitReason_wraps [OF assms(18) [folded assms(10)] assms(19-26)]
    by (auto simp: accepts_def acceptable_def)
  then have node: "find (accepts c vm) (cl_smolvmnodes c) = Some node" using assms(9) by simp
  have adm: "admitted (cluster_env c) vm" using assms(4-6) by (simp add: admitted_def)
  obtain r es where run: "run_state (Reconcile (cluster_env c) R req) [] = (r, es)" by fastforce
  let ?c = "replay c es"
  obtain vm' where vm': "find_vm req (cl_vms ?c) = Some vm'" "vm_NodeName vm' = n"
    using ref.Reconcile_bind [of req c "[]" vm node R] assms(1,7,8,10,11) adm node run
    by (auto simp: settles_def only_vm_def scheduledInput_def)
  have "reconcile_change req vm c ?c"
    using ref.Reconcile_changes [OF assms(2), of R req] assms(1) run by (simp add: settles_def)
  then have "cpu_demand (claiming n ?c) = cpu_demand vms"
    using assms(1,2)
  proof (cases rule: reconcile_change_cases)
    case removed
    have "vm' \<in> set (cl_vms ?c)" "vm_key vm' = req" using vm'(1) by (auto simp: find_vm_def find_Some_iff)
    then show ?thesis using removed(4) by blast
  next
    case (replaced xs w ys)
    have "claims n w" "vm_CPUs w = vm_CPUs vm"
      using replaced(4,5) vm' assms(4) by (auto simp: keeps_claim_def claims_def)
    then show ?thesis
      using counted_others [OF replaced(1) assms(3,11)] replaced(2) assms(18) by simp
  qed
  moreover have "sint (alloc_CPUs a) < 2 ^ 31" using sint_lt [of "alloc_CPUs a"] by simp
  ultimately show ?thesis using vm' run assms(21) by (auto simp: Let_def)
qed

text \<open>On a node with 8 CPUs, of which one VM uses a part, a VM that asks for 2147483647 CPUs.\<close>

definition greedy_vm :: SmolVM where
  "greedy_vm = example_vm\<lparr>vm_Meta := (vm_Meta example_vm)\<lparr>meta_UID := ''u2'', meta_Name := ''greedy''\<rparr>,
     vm_Spec := (vm_Spec example_vm)\<lparr>spec_Resources := \<lparr>res_CPUs = 2147483647, res_MemoryMiB = 512\<rparr>,
       spec_Network := (spec_Network (vm_Spec example_vm))\<lparr>net_Ports := []\<rparr>\<rparr>\<rparr>"

theorem cpu_sum_wraps_witness:
  "let c = (example_cluster example_bound_vm None)\<lparr>cl_vms := [example_bound_vm, greedy_vm]\<rparr>;
       c' = replay c (snd (run_state (Reconcile (cluster_env c) example_reconciler
         \<lparr>nn_Namespace = ''default'', nn_Name = ''greedy''\<rparr>) []))
   in 8 < cpu_demand (claiming ''n1'' c')"
proof -
  let ?c = "(example_cluster example_bound_vm None)\<lparr>cl_vms := [example_bound_vm, greedy_vm]\<rparr>"
    and ?req = "\<lparr>nn_Namespace = ''default'', nn_Name = ''greedy''\<rparr>"
    and ?a = "ns_Allocatable (sn_Status example_smolvmnode)"
  let ?vms = "greedy_vm # on_node ''n1'' (bound_of greedy_vm (cl_vms ?c))"
  have vms: "?vms = [greedy_vm, example_bound_vm]"
    by (simp add: bound_of_def greedy_vm_def example_defs)
  have "find_vm ?req (cl_vms ?c) = Some greedy_vm" "distinct (map vm_key (cl_vms ?c))" "distinct (map vm_UID (cl_vms ?c))"
    "meta_DeletionTimestamp (vm_Meta greedy_vm) = None" "SmolVMFinalizer \<in> set (vm_Finalizers greedy_vm)" "spec_valid greedy_vm"
    "vm_NodeName greedy_vm = []" "spec_NodeName (vm_Spec greedy_vm) = []"
    "cl_smolvmnodes ?c = [example_smolvmnode]" "sn_Name example_smolvmnode = ''n1''" "''n1'' \<noteq> ([] :: string)"
    "smolVMNodeEligible (cl_now ?c) example_smolvmnode" "matchesNodeSelector example_smolvmnode (spec_NodeSelector (vm_Spec greedy_vm))"
    "find (\<lambda>k. meta_Name (node_Meta k) = ''n1'') (cl_nodes ?c) = Some example_node"
    "\<not> node_Unschedulable example_node" "kubernetesNodeReady example_node"
    "no_port_conflict ''n1'' greedy_vm (bound_of greedy_vm (cl_vms ?c))"
    by (simp_all add: find_vm_def vm_key_def greedy_vm_def spec_valid_def example_defs smolVMNodeEligible_def
        matchesNodeSelector_def kubernetesNodeReady_def no_port_conflict_def)
  note * = cpu_sum_wraps [OF this refl refl, of example_reconciler, unfolded vms]
  show ?thesis
    using * by (simp add: Let_def greedy_vm_def demand_defs example_defs)
qed

end
