(* ===== verification/Client_Http.thy ===== *)
theory Client_Http
  imports Client_Json
begin

text \<open>
  The HTTP exchange of \<open>src/internal/smolvm/client.go\<close>: \<open>Client.request\<close> and the methods on top of it.
  What carries a request to a server and brings the response back is a \<open>transport\<close>, a parameter: it may
  refuse the URL (\<open>http.NewRequestWithContext\<close>), fail (\<open>http.Client.Do\<close>) or break off while the body is
  read; it runs in a state monad of its own, so that a server can be put behind it.  \<open>tr_json_error\<close> is
  the wording of JSON errors.
\<close>

section \<open>Requests, responses, transports\<close>

record HttpRequest =
  req_Method :: string
  req_URL :: string
  req_ContentType :: string
  req_Authorization :: string
  req_Body :: string

record HttpResponse =
  resp_StatusCode :: int
  resp_Body :: "goerror + string"

record 's transport =
  tr_NewRequest :: "string \<Rightarrow> string \<Rightarrow> goerror option"
  tr_Do :: "HttpRequest \<Rightarrow> ('s, goerror + HttpResponse) state"
  tr_json_error :: "string \<Rightarrow> string"

section \<open>The exchange\<close>

text \<open>
  \<open>body\<close> is the marshalled argument, if there is one (marshalling these types never fails), and \<open>out\<close> the
  decoder into the result, if there is one, with the zero value it starts from.
\<close>

definition makeRequest :: "Client \<Rightarrow> string \<Rightarrow> string \<Rightarrow> string option \<Rightarrow> HttpRequest" where
  "makeRequest c method path body =
     \<lparr>req_Method = method, req_URL = client_baseURL c @ path,
      req_ContentType = (if body \<noteq> None then ''application/json'' else []),
      req_Authorization = (if client_token c \<noteq> [] then ''Bearer '' @ client_token c else []),
      req_Body = (case body of Some b \<Rightarrow> b | None \<Rightarrow> [])\<rparr>"

definition readResponse :: "(string \<Rightarrow> string) \<Rightarrow> 'a decoder option \<Rightarrow> 'a \<Rightarrow> HttpResponse \<Rightarrow> goerror + 'a" where
  "readResponse msg out zero resp =
     (case resp_Body resp of
        Inl err \<Rightarrow> Inl err
      | Inr data \<Rightarrow>
          if 400 \<le> resp_StatusCode resp then Inl (APIError (resp_StatusCode resp) (TrimSpace data))
          else (case out of
              None \<Rightarrow> Inr zero
            | Some dec \<Rightarrow>
                if data = [] then Inr zero
                else (case Unmarshal msg dec zero data of
                    Inl err \<Rightarrow> Inl (WrapError ''decode smolvm response'' err)
                  | Inr x \<Rightarrow> Inr x)))"

definition request ::
  "'s transport \<Rightarrow> Client \<Rightarrow> string \<Rightarrow> string \<Rightarrow> json option \<Rightarrow> 'a decoder option \<Rightarrow> 'a \<Rightarrow> ('s, goerror + 'a) state" where
  "request T c method path inp out zero =
     (let body = map_option print_json inp in
      case tr_NewRequest T method (client_baseURL c @ path) of
        Some err \<Rightarrow> State_Monad.return (Inl err)
      | None \<Rightarrow> do {
          r \<leftarrow> tr_Do T (makeRequest c method path body);
          State_Monad.return (case r of
              Inl err \<Rightarrow> Inl err
            | Inr resp \<Rightarrow> readResponse (tr_json_error T) out zero resp)
        })"

section \<open>The methods\<close>

definition errorOf :: "goerror + 'a \<Rightarrow> goerror option" where
  "errorOf r = (case r of Inl err \<Rightarrow> Some err | Inr _ \<Rightarrow> None)"

definition machinePath :: "string \<Rightarrow> string" where
  "machinePath name = ''/api/v1/machines/'' @ PathEscape name"

definition client_Health :: "'s transport \<Rightarrow> Client \<Rightarrow> ('s, goerror + Health) state" where
  "client_Health T c = request T c ''GET'' ''/healthz'' None (Some decode_Health) emptyHealth"

definition client_GetIdentity :: "'s transport \<Rightarrow> Client \<Rightarrow> ('s, goerror + Identity) state" where
  "client_GetIdentity T c = request T c ''GET'' ''/api/v1/identity'' None (Some decode_Identity) emptyIdentity"

definition client_Capabilities :: "'s transport \<Rightarrow> Client \<Rightarrow> ('s, goerror + Capabilities) state" where
  "client_Capabilities T c =
     request T c ''GET'' ''/api/v1/capabilities'' None (Some decode_Capabilities) emptyCapabilities"

definition client_ListMachines :: "'s transport \<Rightarrow> Client \<Rightarrow> ('s, goerror + MachineInfo list) state" where
  "client_ListMachines T c = do {
     r \<leftarrow> request T c ''GET'' ''/api/v1/machines'' None (Some decode_ListMachinesResponse) emptyListMachinesResponse;
     State_Monad.return (map_sum id list_Machines r)
   }"

definition client_GetMachine :: "'s transport \<Rightarrow> Client \<Rightarrow> string \<Rightarrow> ('s, goerror + MachineInfo) state" where
  "client_GetMachine T c name =
     request T c ''GET'' (machinePath name) None (Some decode_MachineInfo) emptyMachineInfo"

definition client_CreateMachine ::
  "'s transport \<Rightarrow> Client \<Rightarrow> CreateMachineRequest \<Rightarrow> ('s, goerror + MachineInfo) state" where
  "client_CreateMachine T c req =
     request T c ''POST'' ''/api/v1/machines'' (Some (encode_CreateMachineRequest req)) (Some decode_MachineInfo)
       emptyMachineInfo"

definition client_StartMachine :: "'s transport \<Rightarrow> Client \<Rightarrow> string \<Rightarrow> ('s, goerror option) state" where
  "client_StartMachine T c name = do {
     r \<leftarrow> request T c ''POST'' (machinePath name @ ''/start'') None (None :: unit decoder option) ();
     State_Monad.return (errorOf r)
   }"

definition client_EnsureMachineRunning :: "'s transport \<Rightarrow> Client \<Rightarrow> string \<Rightarrow> ('s, goerror option) state" where
  "client_EnsureMachineRunning T c name = do {
     r \<leftarrow> request T c ''POST'' (machinePath name @ ''/exec'')
           (Some (encode_ExecRequest \<lparr>exec_Command = [''true'']\<rparr>)) (Some decode_ExecResponse) emptyExecResponse;
     State_Monad.return (case r of
         Inl err \<Rightarrow> Some err
       | Inr result \<Rightarrow>
           if exec_ExitCode result \<noteq> 0
           then Some (ErrorString (''ensure running command exited '' @ int_dec (sint (exec_ExitCode result)) @ '': '' @
             exec_Stderr result))
           else None)
   }"

definition client_StopMachine :: "'s transport \<Rightarrow> Client \<Rightarrow> string \<Rightarrow> ('s, goerror option) state" where
  "client_StopMachine T c name = do {
     r \<leftarrow> request T c ''POST'' (machinePath name @ ''/stop'') None (None :: unit decoder option) ();
     State_Monad.return (errorOf r)
   }"

definition client_DeleteMachine :: "'s transport \<Rightarrow> Client \<Rightarrow> string \<Rightarrow> ('s, goerror option) state" where
  "client_DeleteMachine T c name = do {
     r \<leftarrow> request T c ''DELETE'' (machinePath name) None (None :: unit decoder option) ();
     State_Monad.return (errorOf r)
   }"

definition client_ResizeMachine ::
  "'s transport \<Rightarrow> Client \<Rightarrow> string \<Rightarrow> ResizeRequest \<Rightarrow> ('s, goerror option) state" where
  "client_ResizeMachine T c name req = do {
     r \<leftarrow> request T c ''POST'' (machinePath name @ ''/resize'') (Some (encode_ResizeRequest req))
           (None :: unit decoder option) ();
     State_Monad.return (errorOf r)
   }"

section \<open>What a response means\<close>

lemma readResponse_error:
  "resp_Body resp = Inr data \<Longrightarrow> 400 \<le> resp_StatusCode resp \<Longrightarrow>
   readResponse msg out zero resp = Inl (APIError (resp_StatusCode resp) (TrimSpace data))"
  by (simp add: readResponse_def)

lemma readResponse_empty:
  "resp_Body resp = Inr [] \<Longrightarrow> resp_StatusCode resp < 400 \<Longrightarrow> readResponse msg out zero resp = Inr zero"
  by (auto simp: readResponse_def split: option.splits)

lemma readResponse_nil_out:
  "resp_Body resp = Inr data \<Longrightarrow> resp_StatusCode resp < 400 \<Longrightarrow> readResponse msg None zero resp = Inr zero"
  by (simp add: readResponse_def)

text \<open>A body that is to be decoded: success is exactly a document that the decoder accepts.\<close>

definition decodes_to :: "'a decoder \<Rightarrow> 'a \<Rightarrow> string \<Rightarrow> 'a \<Rightarrow> bool" where
  "decodes_to dec zero data x \<longleftrightarrow>
     (\<exists>v rest. parse_value maxNestingDepth data = Some (v, rest) \<and> skip_ws rest = [] \<and> dec v zero = Some x)"

lemma readResponse_outcome:
  assumes "res = readResponse msg out zero resp"
  shows "case resp_Body resp of
      Inl e \<Rightarrow> res = Inl e
    | Inr data \<Rightarrow>
        if 400 \<le> resp_StatusCode resp then res = Inl (APIError (resp_StatusCode resp) (TrimSpace data))
        else case out of
            None \<Rightarrow> res = Inr zero
          | Some dec \<Rightarrow>
              if data = [] then res = Inr zero
              else (\<forall>x. res = Inr x \<longleftrightarrow> decodes_to dec zero data x) \<and>
                (\<forall>e. res = Inl e \<longrightarrow> (\<exists>cause. e = WrapError ''decode smolvm response'' cause) \<and>
                   (\<nexists>x. decodes_to dec zero data x))"
  by (simp add: assms readResponse_def Unmarshal_def decodes_to_def split: sum.split option.split prod.split)

text \<open>Only the status code 404 of a complete response is reported as not found.\<close>

lemma readResponse_NotFound:
  assumes "readResponse msg out zero resp = Inl err" and "\<And>e. resp_Body resp = Inl e \<Longrightarrow> \<not> IsNotFound e"
  shows "IsNotFound err \<longleftrightarrow> resp_StatusCode resp = 404 \<and> (\<exists>data. resp_Body resp = Inr data)"
  using assms
  by (auto simp: readResponse_def Unmarshal_def split: sum.splits if_splits option.splits)

context json_codec
begin

text \<open>The answer of a server that encodes a value.\<close>

lemma readResponse_encoded:
  assumes "text_ok x" and "resp_Body resp = Inr (print_json (encode x) @ [CHR 0x0A])" and "resp_StatusCode resp < 400"
  shows "readResponse msg (Some decode) zero resp = Inr x"
  using assms by (simp add: readResponse_def Unmarshal_Encode)

end

end
