(* ===== verification/Runtime_Api.thy ===== *)
theory Runtime_Api
  imports Client_Http Agent_Http
begin

text \<open>
  The runtime API end to end: the client of \<open>src/internal/smolvm/client.go\<close> in the controller talks to the
  handlers of \<open>src/cmd/runtime-agent/main.go\<close>.  \<open>agent_transport\<close> puts the agent behind the client: the
  path of the URL is unescaped as \<open>net/http\<close> does for a server, and the response is rendered to bytes.
  The lemmas show that a call through the client is the call on the node's own smolvm server, with its
  arguments and its result, and that not found stays not found.
\<close>

section \<open>The agent behind the client\<close>

definition body_bytes :: "content \<Rightarrow> string" where
  "body_bytes c =
     (let document = (\<lambda>v. print_json v @ [CHR 0x0A]) in
      case c of
        NoBody \<Rightarrow> []
      | Text s \<Rightarrow> s
      | JHealth x \<Rightarrow> document (encode_Health x)
      | JIdentity x \<Rightarrow> document (encode_Identity x)
      | JCapabilities x \<Rightarrow> document (encode_Capabilities x)
      | JMachines xs \<Rightarrow> document (encode_ListMachinesResponse \<lparr>list_Machines = xs\<rparr>)
      | JMachine x \<Rightarrow> document (encode_MachineInfo x))"

definition render :: "Response \<Rightarrow> HttpResponse" where
  "render res = \<lparr>resp_StatusCode = Code res, resp_Body = Inr (body_bytes (Content res))\<rparr>"

definition agent_transport :: "agent_env \<Rightarrow> agent \<Rightarrow> string \<Rightarrow> agent_event list transport" where
  "agent_transport E a base =
     \<lparr>tr_NewRequest = (\<lambda>_ _. None),
      tr_Do = (\<lambda>r.
        case unescape (drop (length base) (req_URL r)) of
          None \<Rightarrow> State_Monad.return (Inr (render (httpError ''400 Bad Request'' 400)))
        | Some path \<Rightarrow> do {
            res \<leftarrow> serve E a \<lparr>Method = req_Method r, Path = path, Authorization = req_Authorization r,
                             ReqBody = req_Body r\<rparr>;
            State_Monad.return (Inr (render res))
          }),
      tr_json_error = age_json_error E\<rparr>"

definition authorised :: "Client \<Rightarrow> agent \<Rightarrow> bool" where
  "authorised c a \<longleftrightarrow> ag_token a = [] \<or> client_token c = ag_token a"

text \<open>The agent as the client \<open>c\<close> of the controller reaches it.\<close>

abbreviation link :: "agent_env \<Rightarrow> agent \<Rightarrow> Client \<Rightarrow> agent_event list transport" where
  "link E a c \<equiv> agent_transport E a (client_baseURL c)"

section \<open>Relaying\<close>

definition not_found :: "goerror \<Rightarrow> bool" where
  "not_found e \<longleftrightarrow> IsNotFound e \<or> apierrors_IsNotFound e"

text \<open>How the result of a call through the agent relates to the result of the call on the node.\<close>

definition relays :: "('a \<Rightarrow> bool) \<Rightarrow> goerror + 'a \<Rightarrow> goerror + 'a \<Rightarrow> bool" where
  "relays ok near far \<longleftrightarrow>
     (case near of
        Inr x \<Rightarrow> ok x \<longrightarrow> far = Inr x
      | Inl e \<Rightarrow> (\<exists>e'. far = Inl e' \<and> (IsNotFound e' \<longleftrightarrow> not_found e)))"

definition relays_error :: "goerror option \<Rightarrow> goerror option \<Rightarrow> bool" where
  "relays_error near far \<longleftrightarrow>
     (case near of
        None \<Rightarrow> far = None
      | Some e \<Rightarrow> (\<exists>e'. far = Some e' \<and> (IsNotFound e' \<longleftrightarrow> not_found e)))"

lemma readResponse_writeResult_error:
  "readResponse msg out zero (render (writeResult v (Some e))) =
   Inl (APIError (if not_found e then 404 else 500) (TrimSpace (Error e @ [CHR 0x0A])))"
  by (simp add: readResponse_def render_def writeResult_def httpError_def body_bytes_def not_found_def)

lemma readResponse_no_content:
  "readResponse msg out zero (render (writeResult None None)) = Inr zero"
  by (rule readResponse_empty) (simp_all add: render_def writeResult_def body_bytes_def)

lemma relays_machine:
  "relays text_MachineInfo g
     (readResponse msg (Some decode_MachineInfo) emptyMachineInfo (render (resultOf JMachine g)))"
proof (cases g)
  case (Inl e)
  then show ?thesis by (simp add: relays_def resultOf_def readResponse_writeResult_error)
next
  case (Inr m)
  have "readResponse msg (Some decode_MachineInfo) emptyMachineInfo (render (resultOf JMachine g)) = Inr m"
    if "text_MachineInfo m"
    by (rule machine_codec.readResponse_encoded [OF that])
      (simp_all add: Inr resultOf_def render_def writeResult_def writeJSON_def body_bytes_def)
  with Inr show ?thesis by (simp add: relays_def)
qed

lemma relays_error_result:
  "relays_error err (errorOf (readResponse msg out zero (render (writeResult None err))))"
  by (cases err) (simp_all add: relays_error_def errorOf_def readResponse_writeResult_error readResponse_no_content)

section \<open>One exchange\<close>

lemma unescape_machinePath:
  assumes "CHR ''%'' \<notin> set tail"
  shows "unescape (machinePath name @ tail) = Some (''/api/v1/machines/'' @ name @ tail)"
proof -
  have "unescape ''/api/v1/machines/'' = Some ''/api/v1/machines/''" by (simp add: unescape_plain)
  moreover have "unescape (PathEscape name @ tail) = Some (name @ tail)"
    using unescape_append [OF unescape_PathEscape, of name tail] unescape_plain [OF assms] by simp
  ultimately show ?thesis
    using unescape_append [of "''/api/v1/machines/''" "''/api/v1/machines/''" "PathEscape name @ tail"]
    by (simp add: machinePath_def)
qed

text \<open>A request of an authorised client is what the handler gets, and its response is what the client reads.\<close>

definition served :: "Client \<Rightarrow> string \<Rightarrow> string \<Rightarrow> json option \<Rightarrow> Request" where
  "served c method path inp =
     \<lparr>Method = method, Path = path,
      Authorization = (if client_token c \<noteq> [] then ''Bearer '' @ client_token c else []),
      ReqBody = (case inp of None \<Rightarrow> [] | Some v \<Rightarrow> print_json v)\<rparr>"

lemma request_agent:
  assumes "unescape path = Some p"
  shows "request (agent_transport E a (client_baseURL c)) c method path inp out zero = do {
    res \<leftarrow> serve E a (served c method p inp);
    State_Monad.return (readResponse (age_json_error E) out zero (render res))
  }"
proof -
  have "(case map_option print_json inp of None \<Rightarrow> [] | Some b \<Rightarrow> b) = (case inp of None \<Rightarrow> [] | Some v \<Rightarrow> print_json v)"
    by (cases inp) simp_all
  then show ?thesis
    using assms by (simp add: request_def agent_transport_def makeRequest_def served_def)
qed

lemma served_machine:
  assumes "authorised c a" and "list_all plain ps" and "ps \<noteq> []"
  shows "serve E a (served c method (''/api/v1/machines/'' @ Join ps ''/'') inp) =
    machine E (served c method (''/api/v1/machines/'' @ Join ps ''/'') inp)"
  by (rule serve_machine [OF assms(2,3)]) (use assms(1) in \<open>auto simp: served_def authorised_def\<close>)

lemma request_machine:
  assumes "authorised c a" and "plain name"
  shows "request (agent_transport E a (client_baseURL c)) c verb (machinePath name) inp out zero = do {
    res \<leftarrow> machine E (served c verb (''/api/v1/machines/'' @ name) inp);
    State_Monad.return (readResponse (age_json_error E) out zero (render res))
  }"
  using request_agent [OF unescape_machinePath [of "[]" name], of E a c verb inp out zero]
    served_machine [OF assms(1), of "[name]" E verb inp] assms(2) by simp

lemma request_operation:
  assumes "authorised c a" and "plain name" and "plain opn" and "CHR ''%'' \<notin> set opn"
  shows "request (agent_transport E a (client_baseURL c)) c verb (machinePath name @ ''/'' @ opn) inp out zero = do {
    res \<leftarrow> machine E (served c verb (''/api/v1/machines/'' @ name @ ''/'' @ opn) inp);
    State_Monad.return (readResponse (age_json_error E) out zero (render res))
  }"
  using request_agent [OF unescape_machinePath [of "''/'' @ opn" name], of E a c verb inp out zero]
    served_machine [OF assms(1), of "[name, opn]" E verb inp] assms(2-4) by simp

section \<open>The handlers reached\<close>

lemma machine_parts:
  "plain name \<Longrightarrow> Split CHR ''/'' (TrimPrefix (''/api/v1/machines/'' @ name) ''/api/v1/machines/'') = [name]"
  "plain name \<Longrightarrow> plain opn \<Longrightarrow>
   Split CHR ''/'' (TrimPrefix (''/api/v1/machines/'' @ name @ ''/'' @ opn) ''/api/v1/machines/'') = [name, opn]"
  using machine_path_parts [of "[name]"] machine_path_parts [of "[name, opn]"] by simp_all

lemma machine_get:
  "plain name \<Longrightarrow> machine E (served c ''GET'' (''/api/v1/machines/'' @ name) inp) = do {
     g \<leftarrow> call (\<lambda>h. age_GetMachine E h name) (AgGetMachine name);
     State_Monad.return (resultOf JMachine g)
   }"
  using machine_parts(1) [of name] by (simp add: machine_def served_def Let_def plain_def)

lemma machine_delete:
  "plain name \<Longrightarrow> machine E (served c ''DELETE'' (''/api/v1/machines/'' @ name) inp) = do {
     err \<leftarrow> call (\<lambda>h. age_DeleteMachine E h name) (AgDeleteMachine name);
     State_Monad.return (writeResult None err)
   }"
  using machine_parts(1) [of name] by (simp add: machine_def served_def Let_def plain_def)

lemma machine_operation:
  "plain name \<Longrightarrow> plain opn \<Longrightarrow> machine E (served c ''POST'' (''/api/v1/machines/'' @ name @ ''/'' @ opn) inp) =
   machineOperation E name opn (ReqBody (served c ''POST'' [] inp))"
  using machine_parts(2) [of name opn] by (simp add: machine_def served_def Let_def plain_def)

lemma machines_create:
  assumes "text_CreateMachineRequest req"
  shows "machines E (served c ''POST'' p (Some (encode_CreateMachineRequest req))) = do {
    g \<leftarrow> call (\<lambda>h. age_CreateMachine E h req) (AgCreateMachine req);
    State_Monad.return (resultOf JMachine g)
  }"
  by (simp add: machines_def served_def create_codec.Decode_Marshal [OF assms])

lemma request_machines:
  assumes "authorised c a"
  shows "request (agent_transport E a (client_baseURL c)) c method ''/api/v1/machines'' inp out zero = do {
    res \<leftarrow> machines E (served c method ''/api/v1/machines'' inp);
    State_Monad.return (readResponse (age_json_error E) out zero (render res))
  }"
proof -
  have "cleanPath (CHR ''/'' # Join [''api'', ''v1'', ''machines''] ''/'') = CHR ''/'' # Join [''api'', ''v1'', ''machines''] ''/''"
    by (rule cleanPath_plain) (simp_all add: plain_def)
  then have "serve E a (served c method ''/api/v1/machines'' inp) = machines E (served c method ''/api/v1/machines'' inp)"
    using assms by (auto simp: serve_def served_def withAuth_def authorised_def)
  then show ?thesis by (simp add: request_agent [OF unescape_plain])
qed

lemma served_body [simp]: "ReqBody (served c m p (Some v)) = print_json v"
  by (simp add: served_def)

section \<open>Calls through the agent\<close>

lemmas remote_defs = client_GetMachine_def client_CreateMachine_def client_EnsureMachineRunning_def
  client_StopMachine_def client_DeleteMachine_def client_ResizeMachine_def

lemma plain_operations [simp]: "plain ''exec''" "plain ''stop''" "plain ''resize''" "plain ''start''"
  by (simp_all add: plain_def)

text \<open>The observations: health, identity and capabilities.\<close>

lemma cleanPath_observations:
  "cleanPath ''/healthz'' = ''/healthz''" "cleanPath ''/api/v1/identity'' = ''/api/v1/identity''"
  "cleanPath ''/api/v1/capabilities'' = ''/api/v1/capabilities''"
  using cleanPath_plain [of "[''healthz'']"] cleanPath_plain [of "[''api'', ''v1'', ''identity'']"]
    cleanPath_plain [of "[''api'', ''v1'', ''capabilities'']"]
  by (simp_all add: plain_def)

lemma serve_observations:
  assumes "authorised c a"
  shows "serve E a (served c method ''/healthz'' inp) = healthz E"
    "serve E a (served c method ''/api/v1/identity'' inp) = identity a"
    "serve E a (served c method ''/api/v1/capabilities'' inp) = capabilities E a"
  using assms
  by (auto simp: serve_def served_def withAuth_def authorised_def cleanPath_observations HasPrefix_def)

text \<open>
  An unhealthy agent answers with 503, which the client reports as an error: a \<open>Health\<close> value that the
  controller gets through this agent always says OK.
\<close>

definition health_seen :: "Health \<Rightarrow> goerror + Health" where
  "health_seen hl =
     (if health_OK hl then Inr hl else Inl (APIError 503 (TrimSpace (print_json (encode_Health hl) @ [CHR 0x0A]))))"

lemma readResponse_health:
  assumes "text_Health hl"
  shows "readResponse msg (Some decode_Health) emptyHealth
     (render \<lparr>Code = (if \<not> health_OK hl then 503 else 200), Content = JHealth hl\<rparr>) = health_seen hl"
proof (cases "health_OK hl")
  case True
  have "readResponse msg (Some decode_Health) emptyHealth (render \<lparr>Code = 200, Content = JHealth hl\<rparr>) = Inr hl"
    by (rule health_codec.readResponse_encoded [OF assms]) (simp_all add: render_def body_bytes_def)
  with True show ?thesis by (simp add: health_seen_def)
qed (simp add: health_seen_def readResponse_def render_def body_bytes_def)

lemma health_text: "text_Health \<lparr>health_OK = b, health_KVMAvailable = k, health_SocketReady = s,
  health_StateReady = t, health_Message = healthMessage s' t' k'\<rparr>"
  by (cases s'; cases t'; cases k') (simp_all add: text_Health_def healthMessage_def valid_utf8_ascii)

lemma health_cong:
  "(\<And>hl. text_Health hl \<Longrightarrow> f hl = g hl) \<Longrightarrow> State_Monad.bind (health E) f = State_Monad.bind (health E) g"
  by (simp add: health_def health_text)

lemma client_Health_agent:
  assumes "authorised c a"
  shows "client_Health (link E a c) c = do { hl \<leftarrow> health E; State_Monad.return (health_seen hl) }"
proof -
  have "client_Health (link E a c) c = do {
      hl \<leftarrow> health E;
      State_Monad.return (readResponse (age_json_error E) (Some decode_Health) emptyHealth
        (render \<lparr>Code = (if \<not> health_OK hl then 503 else 200), Content = JHealth hl\<rparr>))
    }"
    by (simp add: client_Health_def request_agent [OF unescape_plain] serve_observations [OF assms] healthz_def)
  also have "\<dots> = do { hl \<leftarrow> health E; State_Monad.return (health_seen hl) }"
    by (rule health_cong) (simp only: readResponse_health)
  finally show ?thesis .
qed

lemma client_GetIdentity_agent:
  assumes "authorised c a" and "valid_utf8 (ag_nodeName a)" and "valid_utf8 (ag_nodeUID a)"
  shows "client_GetIdentity (link E a c) c =
    State_Monad.return (Inr \<lparr>id_NodeName = ag_nodeName a, id_NodeUID = ag_nodeUID a\<rparr>)"
proof -
  have "readResponse msg (Some decode_Identity) emptyIdentity (render (writeJSON (JIdentity i))) = Inr i"
    if "text_Identity i" for i msg
    by (rule identity_codec.readResponse_encoded [OF that]) (simp_all add: render_def body_bytes_def writeJSON_def)
  then show ?thesis
    using assms by (simp add: client_GetIdentity_def request_agent [OF unescape_plain] serve_observations
        identity_def text_Identity_def)
qed

lemma client_Capabilities_agent:
  assumes "authorised c a" and "valid_utf8 (ag_version a)"
  shows "client_Capabilities (link E a c) c = do { cap \<leftarrow> capabilityReport E a; State_Monad.return (Inr cap) }"
proof -
  have "readResponse msg (Some decode_Capabilities) emptyCapabilities (render (writeJSON (JCapabilities i))) = Inr i"
    if "text_Capabilities i" for i msg
    by (rule capabilities_codec.readResponse_encoded [OF that]) (simp_all add: render_def body_bytes_def writeJSON_def)
  moreover have "valid_utf8 protocolVersion" by (simp add: protocolVersion_def valid_utf8_ascii)
  ultimately show ?thesis
    using assms by (simp add: client_Capabilities_def request_agent [OF unescape_plain] serve_observations
        capabilities_def capabilityReport_def text_Capabilities_def split_def Let_def)
qed

text \<open>The calls on machines: each is the one call on the node's server, and its result is relayed.\<close>

definition reaches :: "agent_event list \<Rightarrow> (agent_event list, 'r) state \<Rightarrow> agent_event \<Rightarrow> ('r \<Rightarrow> bool) \<Rightarrow> bool" where
  "reaches h m ev ok \<longleftrightarrow> (\<exists>r. run_state m h = (r, h @ [ev]) \<and> ok r)"

lemma reaches_result: "reaches h m ev ok \<Longrightarrow> ok (fst (run_state m h))"
  by (auto simp: reaches_def)

lemma client_machine_calls:
  assumes "authorised c a" and "plain name"
  shows "reaches h (client_GetMachine (link E a c) c name) (AgGetMachine name (age_GetMachine E h name))
      (relays text_MachineInfo (age_GetMachine E h name))"
    and "reaches h (client_EnsureMachineRunning (link E a c) c name)
      (AgEnsureMachineRunning name (age_EnsureMachineRunning E h name)) (relays_error (age_EnsureMachineRunning E h name))"
    and "reaches h (client_StopMachine (link E a c) c name) (AgStopMachine name (age_StopMachine E h name))
      (relays_error (age_StopMachine E h name))"
    and "reaches h (client_DeleteMachine (link E a c) c name) (AgDeleteMachine name (age_DeleteMachine E h name))
      (relays_error (age_DeleteMachine E h name))"
    and "reaches h (client_ResizeMachine (link E a c) c name rreq)
      (AgResizeMachine name rreq (age_ResizeMachine E h name rreq)) (relays_error (age_ResizeMachine E h name rreq))"
proof -
  note here = remote_defs reaches_def request_machine [OF assms] machineOperation_def
    request_operation [OF assms, where opn = "''exec''", simplified]
    request_operation [OF assms, where opn = "''stop''", simplified]
    request_operation [OF assms, where opn = "''resize''", simplified]
    machine_operation [OF assms(2), where opn = "''exec''", simplified]
    machine_operation [OF assms(2), where opn = "''stop''", simplified]
    machine_operation [OF assms(2), where opn = "''resize''", simplified]
  show "reaches h (client_GetMachine (link E a c) c name) (AgGetMachine name (age_GetMachine E h name))
      (relays text_MachineInfo (age_GetMachine E h name))"
    by (simp add: here machine_get [OF assms(2), simplified] relays_machine)
  show "reaches h (client_EnsureMachineRunning (link E a c) c name)
      (AgEnsureMachineRunning name (age_EnsureMachineRunning E h name)) (relays_error (age_EnsureMachineRunning E h name))"
    by (cases "age_EnsureMachineRunning E h name")
      (simp_all add: here readResponse_no_content readResponse_writeResult_error relays_error_def emptyExecResponse_def)
  show "reaches h (client_StopMachine (link E a c) c name) (AgStopMachine name (age_StopMachine E h name))
      (relays_error (age_StopMachine E h name))"
    by (simp add: here relays_error_result)
  show "reaches h (client_DeleteMachine (link E a c) c name) (AgDeleteMachine name (age_DeleteMachine E h name))
      (relays_error (age_DeleteMachine E h name))"
    by (simp add: here machine_delete [OF assms(2), simplified] relays_error_result)
  show "reaches h (client_ResizeMachine (link E a c) c name rreq)
      (AgResizeMachine name rreq (age_ResizeMachine E h name rreq)) (relays_error (age_ResizeMachine E h name rreq))"
    by (simp add: here resize_codec.Decode_Marshal relays_error_result)
qed

lemma client_create_call:
  assumes "authorised c a" and "text_CreateMachineRequest req"
  shows "reaches h (client_CreateMachine (link E a c) c req) (AgCreateMachine req (age_CreateMachine E h req))
    (relays text_MachineInfo (age_CreateMachine E h req))"
  by (simp add: reaches_def remote_defs request_machines [OF assms(1)] machines_create [OF assms(2)] relays_machine)

end
