(* ===== verification/Api_Spec.thy ===== *)
theory Api_Spec
  imports Runtime_Api Agent_Spec Reconciler
begin

text \<open>
  The properties of the runtime API: the JSON forms, the client's exchange, and client and agent together.
\<close>

text \<open>
  C10: a call of the controller through the runtime API is the call on the smolvm server of the node: for
  a client with the agent's token and a plain machine name, \<open>GetMachine\<close>, \<open>CreateMachine\<close>,
  \<open>EnsureMachineRunning\<close>, \<open>StopMachine\<close>, \<open>DeleteMachine\<close> and \<open>ResizeMachine\<close> make exactly that one call,
  with the same name and the same request, return its machine unchanged, report an error exactly when it
  failed, and report not found exactly when the server did.
\<close>

theorem runtime_calls_reach_the_node:
  assumes "authorised c a" and "plain name" and "text_CreateMachineRequest req"
  shows "(\<exists>r. run_state (client_GetMachine (link E a c) c name) h = (r, h @ [AgGetMachine name (age_GetMachine E h name)]) \<and>
      relays text_MachineInfo (age_GetMachine E h name) r) \<and>
    (\<exists>r. run_state (client_CreateMachine (link E a c) c req) h = (r, h @ [AgCreateMachine req (age_CreateMachine E h req)]) \<and>
      relays text_MachineInfo (age_CreateMachine E h req) r) \<and>
    (\<exists>e. run_state (client_EnsureMachineRunning (link E a c) c name) h =
        (e, h @ [AgEnsureMachineRunning name (age_EnsureMachineRunning E h name)]) \<and>
      relays_error (age_EnsureMachineRunning E h name) e) \<and>
    (\<exists>e. run_state (client_StopMachine (link E a c) c name) h = (e, h @ [AgStopMachine name (age_StopMachine E h name)]) \<and>
      relays_error (age_StopMachine E h name) e) \<and>
    (\<exists>e. run_state (client_DeleteMachine (link E a c) c name) h = (e, h @ [AgDeleteMachine name (age_DeleteMachine E h name)]) \<and>
      relays_error (age_DeleteMachine E h name) e) \<and>
    (\<exists>e. run_state (client_ResizeMachine (link E a c) c name rreq) h =
        (e, h @ [AgResizeMachine name rreq (age_ResizeMachine E h name rreq)]) \<and>
      relays_error (age_ResizeMachine E h name rreq) e)"
  using client_machine_calls [OF assms(1,2), unfolded reaches_def] client_create_call [OF assms(1,3), unfolded reaches_def]
  by blast

text \<open>A client of the controller for the example agent.\<close>

definition example_client :: Client where
  "example_client = NewClientWithAuth ''https://10.0.0.1:9443'' [] ''secret'' False"

theorem runtime_calls_reach_the_node_witness:
  "\<exists>e. run_state (client_GetMachine (link quiet_agent_env example_agent example_client) example_client ''k8s-a'') [] =
       (Inl e, [AgGetMachine ''k8s-a'' (Inl (APIError 404 []))]) \<and> IsNotFound e"
proof -
  have "authorised example_client example_agent"
    by (simp add: authorised_def example_client_def example_agent_def NewClientWithAuth_def)
  moreover have "plain ''k8s-a''" by (simp add: plain_def)
  moreover have "text_CreateMachineRequest emptyCreateMachineRequest"
    by (simp add: text_CreateMachineRequest_def emptyCreateMachineRequest_def)
  ultimately obtain r where "run_state (client_GetMachine (link quiet_agent_env example_agent example_client) example_client
      ''k8s-a'') [] = (r, [] @ [AgGetMachine ''k8s-a'' (age_GetMachine quiet_agent_env [] ''k8s-a'')])"
    and "relays text_MachineInfo (age_GetMachine quiet_agent_env [] ''k8s-a'') r"
    using runtime_calls_reach_the_node [of example_client example_agent "''k8s-a''" emptyCreateMachineRequest
        quiet_agent_env "[]"] by blast
  then show ?thesis by (auto simp: quiet_agent_env_def relays_def not_found_def)
qed

section \<open>Messages\<close>

text \<open>
  C17: every message of the runtime API is read as it was written: the JSON text that one end prints for a
  machine, a machine list, an identity, a health report, a capability report, a create or a resize
  request is decoded by the other end to the same value, if its strings are valid UTF-8.
\<close>

theorem messages_round_trip:
  "(text_MachineInfo m \<longrightarrow>
      Unmarshal msg decode_MachineInfo emptyMachineInfo (print_json (encode_MachineInfo m) @ [CHR 0x0A]) = Inr m) \<and>
   (text_ListMachinesResponse l \<longrightarrow>
      Unmarshal msg decode_ListMachinesResponse emptyListMachinesResponse
        (print_json (encode_ListMachinesResponse l) @ [CHR 0x0A]) = Inr l) \<and>
   (text_Identity i \<longrightarrow>
      Unmarshal msg decode_Identity emptyIdentity (print_json (encode_Identity i) @ [CHR 0x0A]) = Inr i) \<and>
   (text_Health h \<longrightarrow> Unmarshal msg decode_Health emptyHealth (print_json (encode_Health h) @ [CHR 0x0A]) = Inr h) \<and>
   (text_Capabilities c \<longrightarrow>
      Unmarshal msg decode_Capabilities emptyCapabilities (print_json (encode_Capabilities c) @ [CHR 0x0A]) = Inr c) \<and>
   (text_CreateMachineRequest cr \<longrightarrow>
      Decode msg decode_CreateMachineRequest emptyCreateMachineRequest (print_json (encode_CreateMachineRequest cr)) =
        Inr cr) \<and>
   Decode msg decode_ResizeRequest emptyResizeRequest (print_json (encode_ResizeRequest rr)) = Inr rr"
  by (simp add: machine_codec.Unmarshal_Encode machines_codec.Unmarshal_Encode identity_codec.Unmarshal_Encode
      health_codec.Unmarshal_Encode capabilities_codec.Unmarshal_Encode create_codec.Decode_Marshal
      resize_codec.Decode_Marshal)

theorem messages_round_trip_witness:
  "let m = emptyMachineInfo\<lparr>mi_Name := ''k8s-a'', mi_State := ''running'', mi_PID := Some 7,
     mi_Ports := [\<lparr>port_Host = 8080, port_Guest = 80\<rparr>]\<rparr> in
   Unmarshal (\<lambda>_. ''error'') decode_MachineInfo emptyMachineInfo (print_json (encode_MachineInfo m) @ [CHR 0x0A]) = Inr m"
proof -
  let ?m = "emptyMachineInfo\<lparr>mi_Name := ''k8s-a'', mi_State := ''running'', mi_PID := Some 7,
     mi_Ports := [\<lparr>port_Host = 8080, port_Guest = 80\<rparr>]\<rparr>"
  have "text_MachineInfo ?m" by (simp add: text_MachineInfo_def)
  with messages_round_trip [of ?m "\<lambda>_. ''error''"] show ?thesis by simp
qed

section \<open>Errors\<close>

text \<open>
  C18: an exchange reports every failure, and succeeds with nothing but what was sent.  The result is the error of
  a refused URL, of the transport or of reading the body; otherwise, for a status of 400 or more, the status and
  the trimmed body; otherwise the zero value, when no result is wanted or the body is empty; otherwise exactly
  the value that the decoder reads from the body, and an error that names the decoding exactly when there is
  none, that is for a body that is not one JSON document or not of the type.  Only a complete response with status 404 is reported as not
  found.
\<close>

theorem request_outcome:
  assumes "\<And>r s e s'. run_state (tr_Do T r) s = (Inl e, s') \<Longrightarrow> \<not> IsNotFound e"
    and "\<And>r s resp e s'. run_state (tr_Do T r) s = (Inr resp, s') \<Longrightarrow> resp_Body resp = Inl e \<Longrightarrow> \<not> IsNotFound e"
    and "\<And>m u e. tr_NewRequest T m u = Some e \<Longrightarrow> \<not> IsNotFound e"
    and "run_state (request T c method path inp out zero) s = (res, s')"
  shows "(\<exists>e. tr_NewRequest T method (client_baseURL c @ path) = Some e \<and> res = Inl e \<and> \<not> IsNotFound e \<and> s' = s) \<or>
    tr_NewRequest T method (client_baseURL c @ path) = None \<and>
    (\<exists>d. run_state (tr_Do T (makeRequest c method path (map_option print_json inp))) s = (d, s') \<and>
      (case d of
         Inl e \<Rightarrow> res = Inl e \<and> \<not> IsNotFound e
       | Inr resp \<Rightarrow>
           ((\<exists>e. res = Inl e \<and> IsNotFound e) \<longleftrightarrow> resp_StatusCode resp = 404 \<and> (\<exists>data. resp_Body resp = Inr data)) \<and>
           (case resp_Body resp of
              Inl e \<Rightarrow> res = Inl e
            | Inr data \<Rightarrow>
                if 400 \<le> resp_StatusCode resp then res = Inl (APIError (resp_StatusCode resp) (TrimSpace data))
                else case out of
                    None \<Rightarrow> res = Inr zero
                  | Some dec \<Rightarrow>
                      if data = [] then res = Inr zero
                      else (\<forall>x. res = Inr x \<longleftrightarrow> decodes_to dec zero data x) \<and>
                        (\<forall>e. res = Inl e \<longrightarrow> (\<exists>cause. e = WrapError ''decode smolvm response'' cause) \<and>
                           (\<nexists>x. decodes_to dec zero data x)))))"
proof (cases "tr_NewRequest T method (client_baseURL c @ path)")
  case (Some e)
  with assms(3,4) show ?thesis by (simp add: request_def)
next
  case None
  obtain d s1 where d: "run_state (tr_Do T (makeRequest c method path (map_option print_json inp))) s = (d, s1)"
    by fastforce
  with assms(4) None have "s' = s1"
    and res: "res = (case d of Inl err \<Rightarrow> Inl err | Inr resp \<Rightarrow> readResponse (tr_json_error T) out zero resp)"
    by (simp_all add: request_def)
  show ?thesis
  proof (cases d)
    case (Inl e)
    with None d res \<open>s' = s1\<close> assms(1) show ?thesis by auto
  next
    case (Inr resp)
    then have r: "res = readResponse (tr_json_error T) out zero resp" using res by simp
    have nf: "\<not> IsNotFound e" if "resp_Body resp = Inl e" for e using assms(2) d Inr that by blast
    have "(\<exists>e. res = Inl e \<and> IsNotFound e) \<longleftrightarrow> resp_StatusCode resp = 404 \<and> (\<exists>data. resp_Body resp = Inr data)"
      using readResponse_NotFound [of "tr_json_error T" out zero resp] nf
      by (auto simp: r readResponse_error)
    moreover note readResponse_outcome [OF r]
    ultimately show ?thesis using None d Inr \<open>s' = s1\<close> by simp
  qed
qed

definition gone_transport :: "unit transport" where
  "gone_transport = \<lparr>tr_NewRequest = (\<lambda>_ _. None),
     tr_Do = (\<lambda>_. State_Monad.return (Inr \<lparr>resp_StatusCode = 404, resp_Body = Inr ''gone''\<rparr>)),
     tr_json_error = (\<lambda>_. [])\<rparr>"

theorem request_outcome_witness:
  "\<exists>e. run_state (request gone_transport example_client ''GET'' ''/healthz'' None (Some decode_Health) emptyHealth) () =
     (Inl e, ()) \<and> IsNotFound e"
proof -
  obtain res s' where run: "run_state (request gone_transport example_client ''GET'' ''/healthz'' None (Some decode_Health)
      emptyHealth) () = (res, s')" by (rule prod.exhaust)
  have complete: "\<not> IsNotFound e" if "run_state (tr_Do gone_transport r) s = (Inr resp, s')" "resp_Body resp = Inl e"
    for r s resp e s' using that by (auto simp: gone_transport_def)
  have "\<exists>e. res = Inl e \<and> IsNotFound e"
    using request_outcome [OF _ complete _ run] by (auto simp: gone_transport_def)
  with run show ?thesis by auto
qed

section \<open>The agent against the controller's probe\<close>

text \<open>
  C33: an agent passes the checks that the controller makes against the node it has reported: through the
  client, its identity carries the node's name and the UID that its report wrote, and its capabilities
  the protocol version that the report wrote, so that with a healthy answer the three answers match the reported
  node (\<open>answers_match\<close>, the test of \<open>runtimeForNode\<close>); and a health value is returned only by a healthy agent.
\<close>

theorem reported_node_passes_probe:
  assumes "run_state (report E a) h = (b, h @ es)" and "AgUpdateNodeStatus v x \<in> set es"
    and "authorised c b" and "valid_utf8 (ag_nodeName a)" and "valid_utf8 (ag_nodeUID b)" and "valid_utf8 (ag_version a)"
  shows "run_state (client_GetIdentity (link F b c) c) g =
      (Inr \<lparr>id_NodeName = ag_nodeName a, id_NodeUID = ns_NodeUID (sn_Status v)\<rparr>, g) \<and>
    (\<exists>cap es'. run_state (client_Capabilities (link F b c) c) g = (Inr cap, g @ es') \<and>
      cap_ProtocolVersion cap = ns_ProtocolVersion (sn_Status v) \<and>
      (\<forall>hl. health_OK hl \<longrightarrow> answers_match (ag_nodeName a) v hl
         \<lparr>id_NodeName = ag_nodeName a, id_NodeUID = ns_NodeUID (sn_Status v)\<rparr> cap) \<and>
      (\<forall>e \<in> set es'. observe_event e)) \<and>
    (\<exists>r es'. run_state (client_Health (link F b c) c) g = (r, g @ es') \<and> (\<forall>hl. r = Inr hl \<longrightarrow> health_OK hl) \<and>
      (\<forall>e \<in> set es'. observe_event e))"
proof -
  obtain uid where b: "b = a\<lparr>ag_nodeUID := uid\<rparr>" and v: "ns_NodeUID (sn_Status v) = ag_nodeUID b"
    "ns_ProtocolVersion (sn_Status v) = protocolVersion"
    using ensuresD [OF report_identity assms(1)] assms(2) by blast
  have "ag_nodeName b = ag_nodeName a" "ag_version b = ag_version a" by (simp_all add: b)
  have "run_state (client_GetIdentity (link F b c) c) g =
      (Inr \<lparr>id_NodeName = ag_nodeName a, id_NodeUID = ns_NodeUID (sn_Status v)\<rparr>, g)"
    by (subst client_GetIdentity_agent) (use assms v in \<open>simp_all add: b\<close>)
  moreover have "\<exists>cap es'. run_state (client_Capabilities (link F b c) c) g = (Inr cap, g @ es') \<and>
      cap_ProtocolVersion cap = ns_ProtocolVersion (sn_Status v) \<and>
      (\<forall>hl. health_OK hl \<longrightarrow> answers_match (ag_nodeName a) v hl
         \<lparr>id_NodeName = ag_nodeName a, id_NodeUID = ns_NodeUID (sn_Status v)\<rparr> cap) \<and>
      (\<forall>e \<in> set es'. observe_event e)"
  proof -
    obtain cap es' where "run_state (capabilityReport F b) g = (cap, g @ es')" "\<forall>e \<in> set es'. observe_event e"
      by (rule ensures_runs [OF capabilityReport_observes [unfolded observes_def]])
    moreover have "cap_ProtocolVersion (fst (run_state (capabilityReport F b) g)) = protocolVersion"
      by (simp add: capabilityReport_def Let_def split_def)
    ultimately show ?thesis
      using v by (subst client_Capabilities_agent) (use assms in \<open>simp_all add: b answers_match_def\<close>)
  qed
  moreover have "\<exists>r es'. run_state (client_Health (link F b c) c) g = (r, g @ es') \<and>
      (\<forall>hl. r = Inr hl \<longrightarrow> health_OK hl) \<and> (\<forall>e \<in> set es'. observe_event e)"
  proof -
    obtain hl es' where "run_state (health F) g = (hl, g @ es')" "\<forall>e \<in> set es'. observe_event e"
      by (rule ensures_runs [OF health_observes [unfolded observes_def]])
    then show ?thesis
      unfolding client_Health_agent [OF assms(3)] by (auto simp: health_seen_def)
  qed
  ultimately show ?thesis by blast
qed

theorem reported_node_passes_probe_witness:
  "\<exists>b. run_state (client_GetIdentity (link quiet_agent_env b example_client) example_client) [] =
     (Inr \<lparr>id_NodeName = ''n1'', id_NodeUID = ''nu1''\<rparr>, []) \<and> b = example_agent\<lparr>ag_nodeUID := ''nu1''\<rparr>"
proof -
  let ?b = "example_agent\<lparr>ag_nodeUID := ''nu1''\<rparr>"
  obtain es v where run: "run_state (report quiet_agent_env example_agent) [] = (?b, [] @ es)"
    and v: "AgUpdateNodeStatus v None \<in> set es"
    by (rule example_report_facts) blast
  have "authorised example_client ?b"
    by (simp add: authorised_def example_client_def example_agent_def NewClientWithAuth_def)
  from reported_node_passes_probe [OF run v this, of quiet_agent_env "[]"]
  have "run_state (client_GetIdentity (link quiet_agent_env ?b example_client) example_client) [] =
      (Inr \<lparr>id_NodeName = ''n1'', id_NodeUID = ns_NodeUID (sn_Status v)\<rparr>, [])"
    by (simp add: example_agent_def)
  moreover have "ns_NodeUID (sn_Status v) = ''nu1''"
    using ensuresD [OF report_identity run] v by auto
  ultimately show ?thesis by auto
qed

end
