(* ===== verification/Go_Heap.thy ===== *)
theory Go_Heap
  imports Api_Types
begin

text \<open>
  Memory, for the code whose correctness depends on which variables share it: the generated deep copies
  and the in-place update of a status.  A heap maps addresses to cells; a cell is a variable of a basic
  type, the backing array of a slice, or a map.  A slice is the address of its array and a length; the
  length of the array is its capacity.  \<open>'o\<close> is the type of the objects in the items of a list.

  The contract of a deep copy is the locale \<open>deep_copier\<close>: the copy shows the same value, lives in new
  cells, and nothing that existed before has changed.
\<close>

section \<open>Heaps\<close>

type_synonym addr = nat

datatype 'o cell =
    Int32Cell int32
  | Int64Cell int64
  | TimeCell time
  | StringsCell "string list"
  | PortsCell "SmolVMPort list"
  | ConditionsCell "Condition list"
  | MapCell strmap
  | ObjectsCell "'o list"

record 'o heap =
  hp_cells :: "addr \<rightharpoonup> 'o cell"
  hp_next :: addr

record slice =
  sl_addr :: addr
  sl_len :: nat

definition alloc :: "'o cell \<Rightarrow> ('o heap, addr) state" where
  "alloc c = State (\<lambda>h. (hp_next h, h\<lparr>hp_cells := (hp_cells h)(hp_next h \<mapsto> c), hp_next := Suc (hp_next h)\<rparr>))"

definition load :: "addr \<Rightarrow> ('o heap, 'o cell option) state" where
  "load a = State (\<lambda>h. (hp_cells h a, h))"

definition store :: "addr \<Rightarrow> 'o cell \<Rightarrow> ('o heap, unit) state" where
  "store a c = State (\<lambda>h. ((), h\<lparr>hp_cells := (hp_cells h)(a \<mapsto> c)\<rparr>))"

lemma run_heap [simp]:
  "run_state (alloc c) h = (hp_next h, h\<lparr>hp_cells := (hp_cells h)(hp_next h \<mapsto> c), hp_next := Suc (hp_next h)\<rparr>)"
  "run_state (load a) h = (hp_cells h a, h)"
  "run_state (store a c) h = ((), h\<lparr>hp_cells := (hp_cells h)(a \<mapsto> c)\<rparr>)"
  by (simp_all add: alloc_def load_def store_def)

definition wf_heap :: "'o heap \<Rightarrow> bool" where
  "wf_heap h \<longleftrightarrow> dom (hp_cells h) \<subseteq> {..<hp_next h}"

text \<open>\<open>extends h h'\<close>: \<open>h'\<close> has all cells of \<open>h\<close>, unchanged.\<close>

definition extends :: "'o heap \<Rightarrow> 'o heap \<Rightarrow> bool" where
  "extends h h' \<longleftrightarrow> hp_next h \<le> hp_next h' \<and> (\<forall>a < hp_next h. hp_cells h' a = hp_cells h a)"

lemma extends_refl [simp]: "extends h h"
  by (simp add: extends_def)

lemma extends_trans: "extends h h' \<Longrightarrow> extends h' h'' \<Longrightarrow> extends h h''"
  by (auto simp: extends_def)

lemma alloc_wf [simp]:
  "wf_heap h \<Longrightarrow> wf_heap (h\<lparr>hp_cells := (hp_cells h)(hp_next h \<mapsto> c), hp_next := Suc (hp_next h)\<rparr>)"
  by (auto simp: wf_heap_def)

section \<open>The contract of a deep copy\<close>

locale deep_copier =
  fixes copy :: "'a \<Rightarrow> ('o heap, 'a) state" and cells :: "'o heap \<Rightarrow> 'a \<Rightarrow> addr set" and view :: "'o heap \<Rightarrow> 'a \<Rightarrow> 'v"
  assumes copy_spec: "wf_heap h \<Longrightarrow> cells h x \<subseteq> dom (hp_cells h) \<Longrightarrow> run_state (copy x) h = (y, h') \<Longrightarrow>
      wf_heap h' \<and> extends h h' \<and> view h' y = view h x \<and> cells h' y \<subseteq> {hp_next h..} \<and> cells h' y \<subseteq> dom (hp_cells h')"
    and local: "(\<And>a. a \<in> cells h x \<Longrightarrow> hp_cells h' a = hp_cells h a) \<Longrightarrow> view h' x = view h x \<and> cells h' x = cells h x"
begin

lemma view_extends:
  assumes "extends h h'" and "wf_heap h" and "cells h x \<subseteq> dom (hp_cells h)"
  shows "view h' x = view h x" and "cells h' x = cells h x" and "cells h' x \<subseteq> dom (hp_cells h')"
proof -
  have same: "hp_cells h' a = hp_cells h a" if "a \<in> cells h x" for a
    using assms that unfolding extends_def wf_heap_def by blast
  then show "view h' x = view h x" "cells h' x = cells h x" using local by blast+
  with assms(3) same show "cells h' x \<subseteq> dom (hp_cells h')" by (auto simp: dom_def)
qed

text \<open>Writing to cells that existed before the copy was made does not change what the copy shows.\<close>

lemma copy_independent:
  assumes "wf_heap h" and "cells h x \<subseteq> dom (hp_cells h)" and "run_state (copy x) h = (y, h')"
    and "\<And>a. hp_next h \<le> a \<Longrightarrow> a < hp_next h' \<Longrightarrow> hp_cells h'' a = hp_cells h' a"
  shows "view h'' y = view h x"
proof -
  have c: "wf_heap h'" "view h' y = view h x" "cells h' y \<subseteq> {hp_next h..}" "cells h' y \<subseteq> dom (hp_cells h')"
    using copy_spec [OF assms(1-3)] by simp_all
  have "hp_cells h'' a = hp_cells h' a" if "a \<in> cells h' y" for a
  proof (rule assms(4))
    show "hp_next h \<le> a" using c(3) that by auto
    show "a < hp_next h'" using c(1,4) that unfolding wf_heap_def by blast
  qed
  from local [OF this] c(2) show ?thesis by simp
qed

end

section \<open>Combining copies\<close>

definition pair_copy ::
  "('a \<Rightarrow> ('o heap, 'a) state) \<Rightarrow> ('b \<Rightarrow> ('o heap, 'b) state) \<Rightarrow> 'a \<times> 'b \<Rightarrow> ('o heap, 'a \<times> 'b) state" where
  "pair_copy c d p = do { x \<leftarrow> c (fst p); y \<leftarrow> d (snd p); State_Monad.return (x, y) }"

lemma pair_copier:
  fixes c :: "'a \<Rightarrow> ('b heap, 'a) state"
  assumes "deep_copier c k v" and "deep_copier d l w"
  shows "deep_copier (pair_copy c d) (\<lambda>h p. k h (fst p) \<union> l h (snd p)) (\<lambda>h p. (v h (fst p), w h (snd p)))"
proof
  fix h h' :: "'b heap" and p y
  assume h: "wf_heap h" and dom: "k h (fst p) \<union> l h (snd p) \<subseteq> dom (hp_cells h)"
    and run: "run_state (pair_copy c d p) h = (y, h')"
  obtain x1 h1 where x1: "run_state (c (fst p)) h = (x1, h1)" by fastforce
  with run obtain x2 where x2: "run_state (d (snd p)) h1 = (x2, h')" and y: "y = (x1, x2)"
    by (auto simp: pair_copy_def split: prod.splits)
  have one: "wf_heap h1" "extends h h1" "v h1 x1 = v h (fst p)" "k h1 x1 \<subseteq> {hp_next h..}" "k h1 x1 \<subseteq> dom (hp_cells h1)"
    using deep_copier.copy_spec [OF assms(1) h _ x1] dom by simp_all
  have snd: "w h1 (snd p) = w h (snd p)" "l h1 (snd p) \<subseteq> dom (hp_cells h1)"
    using deep_copier.view_extends [OF assms(2) one(2) h, of "snd p"] dom by simp_all
  have two: "wf_heap h'" "extends h1 h'" "w h' x2 = w h1 (snd p)" "l h' x2 \<subseteq> {hp_next h1..}" "l h' x2 \<subseteq> dom (hp_cells h')"
    using deep_copier.copy_spec [OF assms(2) one(1) snd(2) x2] by simp_all
  have "v h' x1 = v h1 x1" "k h' x1 = k h1 x1" "k h' x1 \<subseteq> dom (hp_cells h')"
    using deep_copier.view_extends [OF assms(1) two(2) one(1,5)] by simp_all
  moreover have "l h' x2 \<subseteq> {hp_next h..}" using two(4) one(2) by (auto simp: extends_def)
  ultimately show "wf_heap h' \<and> extends h h' \<and> (v h' (fst y), w h' (snd y)) = (v h (fst p), w h (snd p)) \<and>
      k h' (fst y) \<union> l h' (snd y) \<subseteq> {hp_next h..} \<and> k h' (fst y) \<union> l h' (snd y) \<subseteq> dom (hp_cells h')"
    using one two snd y extends_trans [OF one(2) two(2)] by simp
next
  fix h h' :: "'b heap" and p assume "\<And>a. a \<in> k h (fst p) \<union> l h (snd p) \<Longrightarrow> hp_cells h' a = hp_cells h a"
  then show "(v h' (fst p), w h' (snd p)) = (v h (fst p), w h (snd p)) \<and>
      k h' (fst p) \<union> l h' (snd p) = k h (fst p) \<union> l h (snd p)"
    using deep_copier.local [OF assms(1), of h "fst p" h'] deep_copier.local [OF assms(2), of h "snd p" h'] by blast
qed

text \<open>A struct is copied by copying the fields that hold memory: \<open>get\<close> selects them, \<open>put\<close> replaces them.\<close>

lemma struct_copier:
  fixes c :: "'a \<Rightarrow> ('b heap, 'a) state"
  assumes "deep_copier c k v" and "\<And>x t. get (put t x) = t" and "\<And>x t w. build (put t x) w = build x w"
  shows "deep_copier (\<lambda>x. do { t \<leftarrow> c (get x); State_Monad.return (put t x) }) (\<lambda>h x. k h (get x)) (\<lambda>h x. build x (v h (get x)))"
proof
  fix h h' :: "'b heap" and x y
  assume h: "wf_heap h" "k h (get x) \<subseteq> dom (hp_cells h)"
    and run: "run_state (do { t \<leftarrow> c (get x); State_Monad.return (put t x) }) h = (y, h')"
  obtain t where "run_state (c (get x)) h = (t, h')" and "y = put t x"
    using run by (auto split: prod.splits)
  with deep_copier.copy_spec [OF assms(1) h] assms(2,3)
  show "wf_heap h' \<and> extends h h' \<and> build y (v h' (get y)) = build x (v h (get x)) \<and> k h' (get y) \<subseteq> {hp_next h..} \<and>
      k h' (get y) \<subseteq> dom (hp_cells h')" by simp
next
  fix h h' :: "'b heap" and x assume "\<And>a. a \<in> k h (get x) \<Longrightarrow> hp_cells h' a = hp_cells h a"
  then show "build x (v h' (get x)) = build x (v h (get x)) \<and> k h' (get x) = k h (get x)"
    using deep_copier.local [OF assms(1)] by metis
qed

end
