(* ===== verification/Deep_Copy.thy ===== *)
theory Deep_Copy
  imports Go_Heap
begin

text \<open>
  The generated deep copies, \<open>src/api/v1alpha1/zz_generated.deepcopy.go\<close>.  The structs appear as they lie
  in memory (\<open>Ref\<close>): pointers, slices and maps are addresses, \<open>None\<close> is nil; \<open>view\<close> functions read the
  values of \<open>Api_Types\<close> from the heap.  \<open>ObjectMeta\<close> and \<open>ListMeta\<close> belong to the Kubernetes libraries, so
  their deep copy is a parameter with the same contract.  A \<open>Condition\<close> holds no memory of its own.
\<close>

section \<open>Pointers, slices and maps\<close>

definition copy_pointer :: "addr option \<Rightarrow> ('o heap, addr option) state" where
  "copy_pointer p =
     (case p of
        None \<Rightarrow> State_Monad.return None
      | Some a \<Rightarrow> do {
          c \<leftarrow> load a;
          case c of
            None \<Rightarrow> State_Monad.return None
          | Some x \<Rightarrow> do { b \<leftarrow> alloc x; State_Monad.return (Some b) }
        })"

fun take_cell :: "nat \<Rightarrow> 'o cell \<Rightarrow> 'o cell" where
  "take_cell n (StringsCell xs) = StringsCell (take n xs)"
| "take_cell n (PortsCell xs) = PortsCell (take n xs)"
| "take_cell n (ConditionsCell xs) = ConditionsCell (take n xs)"
| "take_cell n (ObjectsCell xs) = ObjectsCell (take n xs)"
| "take_cell n c = c"

text \<open>\<open>make([]T, len(in))\<close> and \<open>copy\<close>: the new array has exactly the elements of the slice.\<close>

definition copy_slice :: "slice option \<Rightarrow> ('o heap, slice option) state" where
  "copy_slice s =
     (case s of
        None \<Rightarrow> State_Monad.return None
      | Some sl \<Rightarrow> do {
          c \<leftarrow> load (sl_addr sl);
          case c of
            None \<Rightarrow> State_Monad.return None
          | Some x \<Rightarrow> do {
              b \<leftarrow> alloc (take_cell (sl_len sl) x);
              State_Monad.return (Some \<lparr>sl_addr = b, sl_len = sl_len sl\<rparr>)
            }
        })"

definition view_pointer :: "('o cell \<Rightarrow> 'v option) \<Rightarrow> 'o heap \<Rightarrow> addr option \<Rightarrow> 'v option" where
  "view_pointer f h p = Option.bind p (\<lambda>a. Option.bind (hp_cells h a) f)"

definition view_slice :: "('o cell \<Rightarrow> 'v list) \<Rightarrow> 'o heap \<Rightarrow> slice option \<Rightarrow> 'v list" where
  "view_slice f h s =
     (case s of
        None \<Rightarrow> []
      | Some sl \<Rightarrow> (case hp_cells h (sl_addr sl) of None \<Rightarrow> [] | Some c \<Rightarrow> f (take_cell (sl_len sl) c)))"

definition pointer_cells :: "'o heap \<Rightarrow> addr option \<Rightarrow> addr set" where
  "pointer_cells h p = set_option p"

definition slice_cells :: "'o heap \<Rightarrow> slice option \<Rightarrow> addr set" where
  "slice_cells h s = sl_addr ` set_option s"

fun int32_of :: "'o cell \<Rightarrow> int32 option" where
  "int32_of (Int32Cell x) = Some x" | "int32_of _ = None"
fun int64_of :: "'o cell \<Rightarrow> int64 option" where
  "int64_of (Int64Cell x) = Some x" | "int64_of _ = None"
fun time_of :: "'o cell \<Rightarrow> time option" where
  "time_of (TimeCell x) = Some x" | "time_of _ = None"
fun map_of_cell :: "'o cell \<Rightarrow> strmap option" where
  "map_of_cell (MapCell m) = Some m" | "map_of_cell _ = None"
fun strings_of :: "'o cell \<Rightarrow> string list" where
  "strings_of (StringsCell xs) = xs" | "strings_of _ = []"
fun ports_of :: "'o cell \<Rightarrow> SmolVMPort list" where
  "ports_of (PortsCell xs) = xs" | "ports_of _ = []"
fun conditions_of :: "'o cell \<Rightarrow> Condition list" where
  "conditions_of (ConditionsCell xs) = xs" | "conditions_of _ = []"

definition view_map :: "'o heap \<Rightarrow> addr option \<Rightarrow> strmap" where
  "view_map h p = (case view_pointer map_of_cell h p of None \<Rightarrow> [] | Some m \<Rightarrow> m)"

lemma take_cell_idem [simp]: "take_cell n (take_cell n c) = take_cell n c"
  by (cases c) simp_all

lemma pointer_copier:
  fixes f :: "'o cell \<Rightarrow> 'v option"
  shows "deep_copier copy_pointer pointer_cells (view_pointer f)"
proof
  fix h h' :: "'o heap" and p y
  assume "wf_heap h" "pointer_cells h p \<subseteq> dom (hp_cells h)" "run_state (copy_pointer p) h = (y, h')"
  then show "wf_heap h' \<and> extends h h' \<and> view_pointer f h' y = view_pointer f h p \<and>
      pointer_cells h' y \<subseteq> {hp_next h..} \<and> pointer_cells h' y \<subseteq> dom (hp_cells h')"
    by (cases p) (auto simp: copy_pointer_def pointer_cells_def view_pointer_def extends_def)
qed (auto simp: pointer_cells_def view_pointer_def split: Option.bind_splits)

lemma slice_copier:
  fixes f :: "'o cell \<Rightarrow> 'v list"
  shows "deep_copier copy_slice slice_cells (view_slice f)"
proof
  fix h h' :: "'o heap" and s y
  assume "wf_heap h" "slice_cells h s \<subseteq> dom (hp_cells h)" "run_state (copy_slice s) h = (y, h')"
  then show "wf_heap h' \<and> extends h h' \<and> view_slice f h' y = view_slice f h s \<and>
      slice_cells h' y \<subseteq> {hp_next h..} \<and> slice_cells h' y \<subseteq> dom (hp_cells h')"
    by (cases s) (auto simp: copy_slice_def slice_cells_def view_slice_def extends_def)
qed (auto simp: slice_cells_def view_slice_def split: option.splits)

section \<open>The structs in memory\<close>

record NetworkRef =
  nr_Enabled :: bool
  nr_AllowedCIDRs :: "slice option"
  nr_Ports :: "slice option"

record SpecRef =
  sr_Running :: bool
  sr_NodeName :: string
  sr_NodeSelector :: "addr option"
  sr_Image :: string
  sr_From :: string
  sr_Resources :: SmolVMResources
  sr_Storage :: SmolVMStorage
  sr_Network :: NetworkRef

record StatusRef =
  str_Phase :: string
  str_NodeName :: string
  str_MachineName :: string
  str_RuntimePID :: "addr option"
  str_Network :: bool
  str_Ports :: "slice option"
  str_StorageGiB :: "addr option"
  str_OverlayGiB :: "addr option"
  str_ObservedGeneration :: int64
  str_Conditions :: "slice option"

record NodeStatusRef =
  nsr_NodeUID :: string
  nsr_RuntimeVersion :: string
  nsr_ProtocolVersion :: string
  nsr_HeartbeatTime :: "addr option"
  nsr_Endpoint :: SmolVMNodeEndpoint
  nsr_Allocatable :: SmolVMNodeAllocatable
  nsr_Conditions :: "slice option"

record 'm VMRef =
  vr_Meta :: 'm
  vr_Spec :: SpecRef
  vr_Status :: StatusRef

record 'm NodeRef =
  nor_Meta :: 'm
  nor_Status :: NodeStatusRef

definition view_network :: "'o heap \<Rightarrow> NetworkRef \<Rightarrow> SmolVMNetwork" where
  "view_network h n = \<lparr>net_Enabled = nr_Enabled n, net_AllowedCIDRs = view_slice strings_of h (nr_AllowedCIDRs n),
     net_Ports = view_slice ports_of h (nr_Ports n)\<rparr>"

definition view_spec :: "'o heap \<Rightarrow> SpecRef \<Rightarrow> SmolVMSpec" where
  "view_spec h s = \<lparr>spec_Running = sr_Running s, spec_NodeName = sr_NodeName s,
     spec_NodeSelector = view_map h (sr_NodeSelector s), spec_Image = sr_Image s, spec_From = sr_From s,
     spec_Resources = sr_Resources s, spec_Storage = sr_Storage s, spec_Network = view_network h (sr_Network s)\<rparr>"

definition view_status :: "'o heap \<Rightarrow> StatusRef \<Rightarrow> SmolVMStatus" where
  "view_status h s = \<lparr>status_Phase = str_Phase s, status_NodeName = str_NodeName s, status_MachineName = str_MachineName s,
     status_RuntimePID = view_pointer int32_of h (str_RuntimePID s), status_Network = str_Network s,
     status_Ports = view_slice ports_of h (str_Ports s), status_StorageGiB = view_pointer int64_of h (str_StorageGiB s),
     status_OverlayGiB = view_pointer int64_of h (str_OverlayGiB s), status_ObservedGeneration = str_ObservedGeneration s,
     status_Conditions = view_slice conditions_of h (str_Conditions s)\<rparr>"

definition view_node_status :: "'o heap \<Rightarrow> NodeStatusRef \<Rightarrow> SmolVMNodeStatus" where
  "view_node_status h s = \<lparr>ns_NodeUID = nsr_NodeUID s, ns_RuntimeVersion = nsr_RuntimeVersion s,
     ns_ProtocolVersion = nsr_ProtocolVersion s, ns_HeartbeatTime = view_pointer time_of h (nsr_HeartbeatTime s),
     ns_Endpoint = nsr_Endpoint s, ns_Allocatable = nsr_Allocatable s,
     ns_Conditions = view_slice conditions_of h (nsr_Conditions s)\<rparr>"

definition view_vm :: "('o heap \<Rightarrow> 'm \<Rightarrow> ObjectMeta) \<Rightarrow> 'o heap \<Rightarrow> 'm VMRef \<Rightarrow> SmolVM" where
  "view_vm view_meta h v = \<lparr>vm_Meta = view_meta h (vr_Meta v), vm_Spec = view_spec h (vr_Spec v),
     vm_Status = view_status h (vr_Status v)\<rparr>"

definition view_node :: "('o heap \<Rightarrow> 'm \<Rightarrow> ObjectMeta) \<Rightarrow> 'o heap \<Rightarrow> 'm NodeRef \<Rightarrow> SmolVMNode" where
  "view_node view_meta h n = \<lparr>sn_Meta = view_meta h (nor_Meta n), sn_Status = view_node_status h (nor_Status n)\<rparr>"

text \<open>The cells a struct refers to.\<close>

definition network_cells :: "'o heap \<Rightarrow> NetworkRef \<Rightarrow> addr set" where
  "network_cells h n = slice_cells h (nr_AllowedCIDRs n) \<union> slice_cells h (nr_Ports n)"

definition spec_cells :: "'o heap \<Rightarrow> SpecRef \<Rightarrow> addr set" where
  "spec_cells h s = pointer_cells h (sr_NodeSelector s) \<union> network_cells h (sr_Network s)"

definition status_cells :: "'o heap \<Rightarrow> StatusRef \<Rightarrow> addr set" where
  "status_cells h s = pointer_cells h (str_RuntimePID s) \<union> (slice_cells h (str_Ports s) \<union>
     (pointer_cells h (str_StorageGiB s) \<union> (pointer_cells h (str_OverlayGiB s) \<union> slice_cells h (str_Conditions s))))"

definition node_status_cells :: "'o heap \<Rightarrow> NodeStatusRef \<Rightarrow> addr set" where
  "node_status_cells h s = pointer_cells h (nsr_HeartbeatTime s) \<union> slice_cells h (nsr_Conditions s)"

definition vm_cells :: "('o heap \<Rightarrow> 'm \<Rightarrow> addr set) \<Rightarrow> 'o heap \<Rightarrow> 'm VMRef \<Rightarrow> addr set" where
  "vm_cells meta_cells h v = meta_cells h (vr_Meta v) \<union> (spec_cells h (vr_Spec v) \<union> status_cells h (vr_Status v))"

definition node_cells :: "('o heap \<Rightarrow> 'm \<Rightarrow> addr set) \<Rightarrow> 'o heap \<Rightarrow> 'm NodeRef \<Rightarrow> addr set" where
  "node_cells meta_cells h n = meta_cells h (nor_Meta n) \<union> node_status_cells h (nor_Status n)"

section \<open>The deep copies\<close>

text \<open>
  \<open>*out = *in\<close> copies the words of the struct; then every field that holds memory gets its own.  The
  struct is the value that is returned.
\<close>

definition DeepCopyInto_SmolVMNetwork :: "NetworkRef \<Rightarrow> ('o heap, NetworkRef) state" where
  "DeepCopyInto_SmolVMNetwork n = do {
     cidrs \<leftarrow> copy_slice (nr_AllowedCIDRs n);
     ports \<leftarrow> copy_slice (nr_Ports n);
     State_Monad.return (n\<lparr>nr_AllowedCIDRs := cidrs, nr_Ports := ports\<rparr>)
   }"

definition DeepCopyInto_SmolVMSpec :: "SpecRef \<Rightarrow> ('o heap, SpecRef) state" where
  "DeepCopyInto_SmolVMSpec s = do {
     selector \<leftarrow> copy_pointer (sr_NodeSelector s);
     network \<leftarrow> DeepCopyInto_SmolVMNetwork (sr_Network s);
     State_Monad.return (s\<lparr>sr_NodeSelector := selector, sr_Network := network\<rparr>)
   }"

definition DeepCopyInto_SmolVMStatus :: "StatusRef \<Rightarrow> ('o heap, StatusRef) state" where
  "DeepCopyInto_SmolVMStatus s = do {
     pid \<leftarrow> copy_pointer (str_RuntimePID s);
     ports \<leftarrow> copy_slice (str_Ports s);
     storage \<leftarrow> copy_pointer (str_StorageGiB s);
     overlay \<leftarrow> copy_pointer (str_OverlayGiB s);
     conditions \<leftarrow> copy_slice (str_Conditions s);
     State_Monad.return (s\<lparr>str_RuntimePID := pid, str_Ports := ports, str_StorageGiB := storage,
       str_OverlayGiB := overlay, str_Conditions := conditions\<rparr>)
   }"

definition DeepCopyInto_SmolVMNodeStatus :: "NodeStatusRef \<Rightarrow> ('o heap, NodeStatusRef) state" where
  "DeepCopyInto_SmolVMNodeStatus s = do {
     heartbeat \<leftarrow> copy_pointer (nsr_HeartbeatTime s);
     conditions \<leftarrow> copy_slice (nsr_Conditions s);
     State_Monad.return (s\<lparr>nsr_HeartbeatTime := heartbeat, nsr_Conditions := conditions\<rparr>)
   }"

definition DeepCopyInto_SmolVM :: "('m \<Rightarrow> ('o heap, 'm) state) \<Rightarrow> 'm VMRef \<Rightarrow> ('o heap, 'm VMRef) state" where
  "DeepCopyInto_SmolVM copy_meta v = do {
     m \<leftarrow> copy_meta (vr_Meta v);
     sp \<leftarrow> DeepCopyInto_SmolVMSpec (vr_Spec v);
     st \<leftarrow> DeepCopyInto_SmolVMStatus (vr_Status v);
     State_Monad.return (v\<lparr>vr_Meta := m, vr_Spec := sp, vr_Status := st\<rparr>)
   }"

definition DeepCopyInto_SmolVMNode :: "('m \<Rightarrow> ('o heap, 'm) state) \<Rightarrow> 'm NodeRef \<Rightarrow> ('o heap, 'm NodeRef) state" where
  "DeepCopyInto_SmolVMNode copy_meta n = do {
     m \<leftarrow> copy_meta (nor_Meta n);
     st \<leftarrow> DeepCopyInto_SmolVMNodeStatus (nor_Status n);
     State_Monad.return (n\<lparr>nor_Meta := m, nor_Status := st\<rparr>)
   }"

text \<open>\<open>DeepCopy\<close>: nil for nil, else a new struct; \<open>DeepCopyObject\<close> is the same behind an interface type.\<close>

definition DeepCopy :: "('a \<Rightarrow> ('o heap, 'a) state) \<Rightarrow> 'a option \<Rightarrow> ('o heap, 'a option) state" where
  "DeepCopy into x =
     (case x of
        None \<Rightarrow> State_Monad.return None
      | Some y \<Rightarrow> do { out \<leftarrow> into y; State_Monad.return (Some out) })"

text \<open>Structs without memory of their own are copied by the assignment alone.\<close>

definition DeepCopyInto_SmolVMPort :: "SmolVMPort \<Rightarrow> ('o heap, SmolVMPort) state" where
  "DeepCopyInto_SmolVMPort p = State_Monad.return p"
definition DeepCopyInto_SmolVMResources :: "SmolVMResources \<Rightarrow> ('o heap, SmolVMResources) state" where
  "DeepCopyInto_SmolVMResources p = State_Monad.return p"
definition DeepCopyInto_SmolVMStorage :: "SmolVMStorage \<Rightarrow> ('o heap, SmolVMStorage) state" where
  "DeepCopyInto_SmolVMStorage p = State_Monad.return p"
definition DeepCopyInto_SmolVMNodeEndpoint :: "SmolVMNodeEndpoint \<Rightarrow> ('o heap, SmolVMNodeEndpoint) state" where
  "DeepCopyInto_SmolVMNodeEndpoint p = State_Monad.return p"
definition DeepCopyInto_SmolVMNodeAllocatable :: "SmolVMNodeAllocatable \<Rightarrow> ('o heap, SmolVMNodeAllocatable) state" where
  "DeepCopyInto_SmolVMNodeAllocatable p = State_Monad.return p"

section \<open>Every copy keeps the contract\<close>

lemma deep_copier_cong:
  assumes "deep_copier c k v" and "\<And>x. c' x = c x" and "\<And>h x. k' h x = k h x" and "\<And>h x. v' h x = v h x"
  shows "deep_copier c' k' v'"
proof -
  have "c' = c" "k' = k" "v' = v" using assms(2-4) by (simp_all add: fun_eq_iff)
  with assms(1) show ?thesis by simp
qed

text \<open>A view that is computed from another one.\<close>

lemma map_view: "deep_copier c k v \<Longrightarrow> deep_copier c k (\<lambda>h x. f (v h x))"
  unfolding deep_copier_def by metis

lemma network_copier: "deep_copier DeepCopyInto_SmolVMNetwork network_cells view_network"
proof (rule deep_copier_cong [OF struct_copier [OF pair_copier [OF slice_copier [of strings_of] slice_copier [of ports_of]],
    where get = "\<lambda>n. (nr_AllowedCIDRs n, nr_Ports n)" and put = "\<lambda>(a, b) n. n\<lparr>nr_AllowedCIDRs := a, nr_Ports := b\<rparr>"
      and build = "\<lambda>n (a, b). \<lparr>net_Enabled = nr_Enabled n, net_AllowedCIDRs = a, net_Ports = b\<rparr>"]])
qed (auto simp: DeepCopyInto_SmolVMNetwork_def pair_copy_def network_cells_def view_network_def split: prod.splits)

lemma spec_copier: "deep_copier DeepCopyInto_SmolVMSpec spec_cells view_spec"
proof (rule deep_copier_cong [OF struct_copier [OF pair_copier [OF map_view [OF pointer_copier [of map_of_cell],
      where f = "\<lambda>x. case x of None \<Rightarrow> [] | Some m \<Rightarrow> m"] network_copier],
    where get = "\<lambda>s. (sr_NodeSelector s, sr_Network s)" and put = "\<lambda>(a, b) s. s\<lparr>sr_NodeSelector := a, sr_Network := b\<rparr>"
      and build = "\<lambda>s (a, b). \<lparr>spec_Running = sr_Running s, spec_NodeName = sr_NodeName s, spec_NodeSelector = a,
        spec_Image = sr_Image s, spec_From = sr_From s, spec_Resources = sr_Resources s, spec_Storage = sr_Storage s,
        spec_Network = b\<rparr>"]])
qed (auto simp: DeepCopyInto_SmolVMSpec_def pair_copy_def spec_cells_def view_spec_def view_map_def split: prod.splits)

lemma status_copier: "deep_copier DeepCopyInto_SmolVMStatus status_cells view_status"
proof (rule deep_copier_cong [OF struct_copier [OF pair_copier [OF pointer_copier [of int32_of] pair_copier [OF
      slice_copier [of ports_of] pair_copier [OF pointer_copier [of int64_of] pair_copier [OF pointer_copier [of int64_of]
      slice_copier [of conditions_of]]]]],
    where get = "\<lambda>s. (str_RuntimePID s, str_Ports s, str_StorageGiB s, str_OverlayGiB s, str_Conditions s)"
      and put = "\<lambda>(a, b, c, d, e) s. s\<lparr>str_RuntimePID := a, str_Ports := b, str_StorageGiB := c, str_OverlayGiB := d,
        str_Conditions := e\<rparr>"
      and build = "\<lambda>s (a, b, c, d, e). \<lparr>status_Phase = str_Phase s, status_NodeName = str_NodeName s,
        status_MachineName = str_MachineName s, status_RuntimePID = a, status_Network = str_Network s, status_Ports = b,
        status_StorageGiB = c, status_OverlayGiB = d, status_ObservedGeneration = str_ObservedGeneration s,
        status_Conditions = e\<rparr>"]])
qed (auto simp: DeepCopyInto_SmolVMStatus_def pair_copy_def status_cells_def view_status_def split: prod.splits)

lemma node_status_copier: "deep_copier DeepCopyInto_SmolVMNodeStatus node_status_cells view_node_status"
proof (rule deep_copier_cong [OF struct_copier [OF pair_copier [OF pointer_copier [of time_of] slice_copier [of conditions_of]],
    where get = "\<lambda>s. (nsr_HeartbeatTime s, nsr_Conditions s)"
      and put = "\<lambda>(a, b) s. s\<lparr>nsr_HeartbeatTime := a, nsr_Conditions := b\<rparr>"
      and build = "\<lambda>s (a, b). \<lparr>ns_NodeUID = nsr_NodeUID s, ns_RuntimeVersion = nsr_RuntimeVersion s,
        ns_ProtocolVersion = nsr_ProtocolVersion s, ns_HeartbeatTime = a, ns_Endpoint = nsr_Endpoint s,
        ns_Allocatable = nsr_Allocatable s, ns_Conditions = b\<rparr>"]])
qed (auto simp: DeepCopyInto_SmolVMNodeStatus_def pair_copy_def node_status_cells_def view_node_status_def split: prod.splits)

interpretation network_copy: deep_copier DeepCopyInto_SmolVMNetwork network_cells view_network
  by (rule network_copier)
interpretation spec_copy: deep_copier DeepCopyInto_SmolVMSpec spec_cells view_spec
  by (rule spec_copier)
interpretation status_copy: deep_copier DeepCopyInto_SmolVMStatus status_cells view_status
  by (rule status_copier)
interpretation node_status_copy: deep_copier DeepCopyInto_SmolVMNodeStatus node_status_cells view_node_status
  by (rule node_status_copier)

text \<open>Whole objects, given that the copy of their metadata keeps the contract.\<close>

lemma vm_copier:
  assumes "deep_copier copy_meta meta_cells view_meta"
  shows "deep_copier (DeepCopyInto_SmolVM copy_meta) (vm_cells meta_cells) (view_vm view_meta)"
proof (rule deep_copier_cong [OF struct_copier [OF pair_copier [OF assms pair_copier [OF spec_copier status_copier]],
    where get = "\<lambda>v. (vr_Meta v, vr_Spec v, vr_Status v)"
      and put = "\<lambda>(a, b, c) v. v\<lparr>vr_Meta := a, vr_Spec := b, vr_Status := c\<rparr>"
      and build = "\<lambda>v (a, b, c). \<lparr>vm_Meta = a, vm_Spec = b, vm_Status = c\<rparr>"]])
qed (auto simp: DeepCopyInto_SmolVM_def pair_copy_def vm_cells_def view_vm_def split: prod.splits)

lemma node_copier:
  assumes "deep_copier copy_meta meta_cells view_meta"
  shows "deep_copier (DeepCopyInto_SmolVMNode copy_meta) (node_cells meta_cells) (view_node view_meta)"
proof (rule deep_copier_cong [OF struct_copier [OF pair_copier [OF assms node_status_copier],
    where get = "\<lambda>n. (nor_Meta n, nor_Status n)" and put = "\<lambda>(a, b) n. n\<lparr>nor_Meta := a, nor_Status := b\<rparr>"
      and build = "\<lambda>n (a, b). \<lparr>sn_Meta = a, sn_Status = b\<rparr>"]])
qed (auto simp: DeepCopyInto_SmolVMNode_def pair_copy_def node_cells_def view_node_def split: prod.splits)

section \<open>Lists of objects\<close>

text \<open>
  The items of a list: \<open>make([]T, len(in))\<close>, then every element is copied into its place of the new array.
\<close>

fun copyItems :: "('a \<Rightarrow> ('a heap, 'a) state) \<Rightarrow> addr \<Rightarrow> nat \<Rightarrow> 'a list \<Rightarrow> ('a heap, unit) state" where
  "copyItems into b i [] = State_Monad.return ()"
| "copyItems into b i (x # xs) = do {
     y \<leftarrow> into x;
     c \<leftarrow> load b;
     (case c of
        Some (ObjectsCell ys) \<Rightarrow> store b (ObjectsCell (ys[i := y]))
      | _ \<Rightarrow> State_Monad.return ());
     copyItems into b (Suc i) xs
   }"

definition items_of :: "'a heap \<Rightarrow> slice \<Rightarrow> 'a list" where
  "items_of h sl = (case hp_cells h (sl_addr sl) of Some (ObjectsCell xs) \<Rightarrow> take (sl_len sl) xs | _ \<Rightarrow> [])"

definition copy_items :: "('a \<Rightarrow> ('a heap, 'a) state) \<Rightarrow> 'a \<Rightarrow> slice option \<Rightarrow> ('a heap, slice option) state" where
  "copy_items into zero s =
     (case s of
        None \<Rightarrow> State_Monad.return None
      | Some sl \<Rightarrow> do {
          h \<leftarrow> State_Monad.get;
          let xs = items_of h sl;
          b \<leftarrow> alloc (ObjectsCell (replicate (length xs) zero));
          copyItems into b 0 xs;
          State_Monad.return (Some \<lparr>sl_addr = b, sl_len = length xs\<rparr>)
        })"

definition items_cells :: "('a heap \<Rightarrow> 'a \<Rightarrow> addr set) \<Rightarrow> 'a heap \<Rightarrow> slice option \<Rightarrow> addr set" where
  "items_cells k h s = (case s of None \<Rightarrow> {} | Some sl \<Rightarrow> insert (sl_addr sl) (\<Union>x \<in> set (items_of h sl). k h x))"

definition view_items :: "('a heap \<Rightarrow> 'a \<Rightarrow> 'v) \<Rightarrow> 'a heap \<Rightarrow> slice option \<Rightarrow> 'v list" where
  "view_items v h s = (case s of None \<Rightarrow> [] | Some sl \<Rightarrow> map (v h) (items_of h sl))"

text \<open>
  The loop: all cells but the new array and the new cells stay as they were, and the elements written so
  far show what the originals show.
\<close>

lemma copyItems_spec:
  fixes into :: "'a \<Rightarrow> ('a heap, 'a) state"
  assumes "deep_copier into k v"
  shows "wf_heap h \<Longrightarrow> hp_cells h b = Some (ObjectsCell (ds @ es)) \<Longrightarrow> length ds = i \<Longrightarrow> length es = length xs \<Longrightarrow>
    (\<And>x. x \<in> set xs \<Longrightarrow> k h x \<subseteq> dom (hp_cells h) - {b}) \<Longrightarrow> run_state (copyItems into b i xs) h = (u, h') \<Longrightarrow>
    wf_heap h' \<and> hp_next h \<le> hp_next h' \<and> (\<forall>a < hp_next h. a \<noteq> b \<longrightarrow> hp_cells h' a = hp_cells h a) \<and>
    (\<exists>ys. hp_cells h' b = Some (ObjectsCell (ds @ ys)) \<and> map (v h') ys = map (v h) xs \<and>
      (\<forall>y \<in> set ys. k h' y \<subseteq> {hp_next h..} \<and> k h' y \<subseteq> dom (hp_cells h')))"
proof (induction xs arbitrary: h ds es i)
  case Nil
  then show ?case by auto
next
  case (Cons x xs)
  note local = deep_copier.local [OF assms] and view_extends = deep_copier.view_extends [OF assms]
  obtain e es' where es: "es = e # es'" using Cons.prems(4) by (cases es) auto
  obtain y h1 where y: "run_state (into x) h = (y, h1)" by fastforce
  have b: "b < hp_next h" using Cons.prems(1,2) by (auto simp: wf_heap_def)
  have one: "wf_heap h1" "extends h h1" "v h1 y = v h x" "k h1 y \<subseteq> {hp_next h..}" "k h1 y \<subseteq> dom (hp_cells h1)"
    using deep_copier.copy_spec [OF assms Cons.prems(1) _ y] Cons.prems(5) [of x] by auto
  have b1: "hp_cells h1 b = Some (ObjectsCell (ds @ es))" using one(2) b Cons.prems(2) by (simp add: extends_def)
  define h2 where "h2 = h1\<lparr>hp_cells := (hp_cells h1)(b \<mapsto> ObjectsCell ((ds @ [y]) @ es'))\<rparr>"
  have run2: "run_state (copyItems into b (Suc i) xs) h2 = (u, h')"
    using Cons.prems(3,6) y b1 es by (simp add: h2_def list_update_append)
  have wf2: "wf_heap h2" using one(1) b1 by (auto simp: h2_def wf_heap_def)
  have same: "hp_cells h2 a = hp_cells h1 a" if "a \<noteq> b" for a using that by (simp add: h2_def)
  have old: "k h2 z = k h z \<and> v h2 z = v h z" if "z \<in> set xs" for z
  proof -
    have z: "k h z \<subseteq> dom (hp_cells h) - {b}" using Cons.prems(5) [of z] that by simp
    then have z1: "k h1 z = k h z" "v h1 z = v h z" using view_extends [OF one(2) Cons.prems(1), of z] by blast+
    have "hp_cells h2 a = hp_cells h1 a" if "a \<in> k h1 z" for a using that z z1(1) same by blast
    then show ?thesis using local [of h1 z h2] z1 by simp
  qed
  have rest: "k h2 z \<subseteq> dom (hp_cells h2) - {b}" if "z \<in> set xs" for z
  proof
    fix a assume "a \<in> k h2 z"
    then have a: "a \<in> dom (hp_cells h)" "a \<noteq> b" using Cons.prems(5) [of z] that old [OF that] by auto
    then have "a < hp_next h" using Cons.prems(1) by (auto simp: wf_heap_def)
    with a one(2) same [of a] show "a \<in> dom (hp_cells h2) - {b}" by (simp add: extends_def dom_def)
  qed
  obtain ys where tail: "wf_heap h'" "hp_next h2 \<le> hp_next h'" "\<forall>a < hp_next h2. a \<noteq> b \<longrightarrow> hp_cells h' a = hp_cells h2 a"
    "hp_cells h' b = Some (ObjectsCell ((ds @ [y]) @ ys))" "map (v h') ys = map (v h2) xs"
    "\<forall>y \<in> set ys. k h' y \<subseteq> {hp_next h2..} \<and> k h' y \<subseteq> dom (hp_cells h')"
    using Cons.IH [OF wf2 _ _ _ rest run2, of "ds @ [y]" es'] Cons.prems(3,4) es unfolding h2_def by simp blast
  have next2: "hp_next h2 = hp_next h1" "hp_next h \<le> hp_next h1" using one(2) by (auto simp: h2_def extends_def)
  have "hp_cells h' a = hp_cells h1 a" if "a \<in> k h1 y" for a
  proof -
    have "hp_next h \<le> a" "a < hp_next h1" using one(1,4,5) that unfolding wf_heap_def by blast+
    with tail(3) b next2 same [of a] show ?thesis by simp
  qed
  then have "v h' y = v h x \<and> k h' y = k h1 y" using local [of h1 y h'] one(3) by simp
  moreover have "hp_cells h' a = hp_cells h a" if "a < hp_next h" "a \<noteq> b" for a
    using tail(3) that next2 same one(2) by (simp add: extends_def)
  moreover have "k h' y \<subseteq> dom (hp_cells h')"
    using calculation(1) one(5) \<open>\<And>a. a \<in> k h1 y \<Longrightarrow> hp_cells h' a = hp_cells h1 a\<close> by (auto simp: dom_def)
  moreover have "map (v h2) xs = map (v h) xs" using old by simp
  moreover have "\<forall>z \<in> set ys. k h' z \<subseteq> {hp_next h..}" using tail(6) next2 by fastforce
  ultimately show ?case
    using tail next2 one(4) by (intro conjI exI [of _ "y # ys"]) auto
qed

lemma items_copier:
  fixes into :: "'a \<Rightarrow> ('a heap, 'a) state"
  assumes "deep_copier into k v"
  shows "deep_copier (copy_items into zero) (items_cells k) (view_items v)"
proof
  fix h h' :: "'a heap" and s y
  assume h: "wf_heap h" and dom: "items_cells k h s \<subseteq> dom (hp_cells h)" and run: "run_state (copy_items into zero s) h = (y, h')"
  show "wf_heap h' \<and> extends h h' \<and> view_items v h' y = view_items v h s \<and> items_cells k h' y \<subseteq> {hp_next h..} \<and>
      items_cells k h' y \<subseteq> dom (hp_cells h')"
  proof (cases s)
    case None
    with run h show ?thesis by (auto simp: copy_items_def items_cells_def view_items_def)
  next
    case (Some sl)
    let ?xs = "items_of h sl" and ?b = "hp_next h"
    define h1 where "h1 = h\<lparr>hp_cells := (hp_cells h)(?b \<mapsto> ObjectsCell (replicate (length ?xs) zero)), hp_next := Suc ?b\<rparr>"
    have h1: "wf_heap h1" "extends h h1" using h by (simp_all add: h1_def) (simp add: extends_def)
    have y: "y = Some \<lparr>sl_addr = ?b, sl_len = length ?xs\<rparr>" and loop: "run_state (copyItems into ?b 0 ?xs) h1 = ((), h')"
      using run Some by (auto simp: copy_items_def h1_def Let_def split: prod.splits)
    have sub: "k h x \<subseteq> dom (hp_cells h)" if "x \<in> set ?xs" for x using dom that Some by (auto simp: items_cells_def)
    have "?b \<notin> dom (hp_cells h)" using h by (auto simp: wf_heap_def)
    then have old: "v h1 x = v h x" "k h1 x \<subseteq> dom (hp_cells h1) - {?b}" if "x \<in> set ?xs" for x
      using deep_copier.view_extends [OF assms h1(2) h sub [OF that]] sub [OF that] by auto
    obtain ys where c: "wf_heap h'" "hp_next h1 \<le> hp_next h'" "\<forall>a < hp_next h1. a \<noteq> ?b \<longrightarrow> hp_cells h' a = hp_cells h1 a"
      "hp_cells h' ?b = Some (ObjectsCell ys)" "map (v h') ys = map (v h1) ?xs"
      "\<forall>y \<in> set ys. k h' y \<subseteq> {hp_next h1..} \<and> k h' y \<subseteq> dom (hp_cells h')"
      using copyItems_spec [OF assms h1(1) _ _ _ old(2) loop, of "[]" "replicate (length ?xs) zero"]
      by (auto simp: h1_def)
    have "length ys = length ?xs" using c(5) by (metis length_map)
    then have items: "items_of h' \<lparr>sl_addr = ?b, sl_len = length ?xs\<rparr> = ys" using c(4) by (simp add: items_of_def)
    have "extends h h'" using c(2,3) by (auto simp: extends_def h1_def)
    moreover have "map (v h') ys = map (v h) ?xs" using c(5) old(1) by simp
    moreover have "\<forall>y \<in> set ys. k h' y \<subseteq> {hp_next h..}" using c(6) by (fastforce simp: h1_def)
    ultimately show ?thesis using c y Some items by (auto simp: items_cells_def view_items_def)
  qed
next
  fix h h' :: "'a heap" and s assume same: "\<And>a. a \<in> items_cells k h s \<Longrightarrow> hp_cells h' a = hp_cells h a"
  show "view_items v h' s = view_items v h s \<and> items_cells k h' s = items_cells k h s"
  proof (cases s)
    case (Some sl)
    then have "items_of h' sl = items_of h sl" using same by (simp add: items_of_def items_cells_def)
    moreover have "v h' x = v h x \<and> k h' x = k h x" if "x \<in> set (items_of h sl)" for x
      using deep_copier.local [OF assms, of h x h'] same that Some by (auto simp: items_cells_def)
    ultimately show ?thesis using Some by (simp add: view_items_def items_cells_def)
  qed (simp add: view_items_def items_cells_def)
qed

record 'l ListRef =
  lr_Meta :: 'l
  lr_Items :: "slice option"

text \<open>\<open>zero\<close> is the zero value of the item type, with which \<open>make\<close> fills the new array.\<close>

definition DeepCopyInto_SmolVMList :: "('l \<Rightarrow> ('m VMRef heap, 'l) state) \<Rightarrow> ('m \<Rightarrow> ('m VMRef heap, 'm) state) \<Rightarrow>
    'm VMRef \<Rightarrow> 'l ListRef \<Rightarrow> ('m VMRef heap, 'l ListRef) state" where
  "DeepCopyInto_SmolVMList copy_list_meta copy_meta zero l = do {
     m \<leftarrow> copy_list_meta (lr_Meta l);
     items \<leftarrow> copy_items (DeepCopyInto_SmolVM copy_meta) zero (lr_Items l);
     State_Monad.return (l\<lparr>lr_Meta := m, lr_Items := items\<rparr>)
   }"

definition DeepCopyInto_SmolVMNodeList :: "('l \<Rightarrow> ('m NodeRef heap, 'l) state) \<Rightarrow> ('m \<Rightarrow> ('m NodeRef heap, 'm) state) \<Rightarrow>
    'm NodeRef \<Rightarrow> 'l ListRef \<Rightarrow> ('m NodeRef heap, 'l ListRef) state" where
  "DeepCopyInto_SmolVMNodeList copy_list_meta copy_meta zero l = do {
     m \<leftarrow> copy_list_meta (lr_Meta l);
     items \<leftarrow> copy_items (DeepCopyInto_SmolVMNode copy_meta) zero (lr_Items l);
     State_Monad.return (l\<lparr>lr_Meta := m, lr_Items := items\<rparr>)
   }"

definition list_cells :: "('o heap \<Rightarrow> 'l \<Rightarrow> addr set) \<Rightarrow> ('o heap \<Rightarrow> 'o \<Rightarrow> addr set) \<Rightarrow> 'o heap \<Rightarrow> 'l ListRef \<Rightarrow> addr set" where
  "list_cells meta_cells k h l = meta_cells h (lr_Meta l) \<union> items_cells k h (lr_Items l)"

definition view_list :: "('o heap \<Rightarrow> 'l \<Rightarrow> 'w) \<Rightarrow> ('o heap \<Rightarrow> 'o \<Rightarrow> 'v) \<Rightarrow> 'o heap \<Rightarrow> 'l ListRef \<Rightarrow> 'w \<times> 'v list" where
  "view_list view_meta v h l = (view_meta h (lr_Meta l), view_items v h (lr_Items l))"

lemma list_copier:
  fixes into :: "'a \<Rightarrow> ('a heap, 'a) state"
  assumes "deep_copier copy_list_meta list_meta_cells view_list_meta" and "deep_copier into k v"
    and "\<And>l. c l = do { m \<leftarrow> copy_list_meta (lr_Meta l); items \<leftarrow> copy_items into zero (lr_Items l);
      State_Monad.return (l\<lparr>lr_Meta := m, lr_Items := items\<rparr>) }"
  shows "deep_copier c (list_cells list_meta_cells k) (view_list view_list_meta v)"
proof (rule deep_copier_cong [OF struct_copier [OF pair_copier [OF assms(1) items_copier [OF assms(2), of zero]],
    where get = "\<lambda>l. (lr_Meta l, lr_Items l)" and put = "\<lambda>(a, b) l. l\<lparr>lr_Meta := a, lr_Items := b\<rparr>"
      and build = "\<lambda>l x. x"]])
qed (auto simp: assms(3) pair_copy_def list_cells_def view_list_def split: prod.splits)

lemma vm_list_copier:
  assumes "deep_copier copy_list_meta list_meta_cells view_list_meta" and "deep_copier copy_meta meta_cells view_meta"
  shows "deep_copier (DeepCopyInto_SmolVMList copy_list_meta copy_meta zero) (list_cells list_meta_cells (vm_cells meta_cells))
    (view_list view_list_meta (view_vm view_meta))"
  by (rule list_copier [OF assms(1) vm_copier [OF assms(2)]]) (simp add: DeepCopyInto_SmolVMList_def)

lemma node_list_copier:
  assumes "deep_copier copy_list_meta list_meta_cells view_list_meta" and "deep_copier copy_meta meta_cells view_meta"
  shows "deep_copier (DeepCopyInto_SmolVMNodeList copy_list_meta copy_meta zero)
    (list_cells list_meta_cells (node_cells meta_cells)) (view_list view_list_meta (view_node view_meta))"
  by (rule list_copier [OF assms(1) node_copier [OF assms(2)]]) (simp add: DeepCopyInto_SmolVMNodeList_def)

section \<open>DeepCopy and DeepCopyObject of each type\<close>

text \<open>\<open>DeepCopyObject\<close> returns the copy behind the interface type, and nil for nil.\<close>

definition DeepCopyObject :: "('o heap, 'a option) state \<Rightarrow> ('o heap, 'a option) state" where
  "DeepCopyObject copy = do {
     c \<leftarrow> copy;
     case c of
       Some x \<Rightarrow> State_Monad.return (Some x)
     | None \<Rightarrow> State_Monad.return None
   }"

definition DeepCopy_SmolVMPort :: "SmolVMPort option \<Rightarrow> ('o heap, SmolVMPort option) state" where
  "DeepCopy_SmolVMPort = DeepCopy DeepCopyInto_SmolVMPort"
definition DeepCopy_SmolVMResources :: "SmolVMResources option \<Rightarrow> ('o heap, SmolVMResources option) state" where
  "DeepCopy_SmolVMResources = DeepCopy DeepCopyInto_SmolVMResources"
definition DeepCopy_SmolVMStorage :: "SmolVMStorage option \<Rightarrow> ('o heap, SmolVMStorage option) state" where
  "DeepCopy_SmolVMStorage = DeepCopy DeepCopyInto_SmolVMStorage"
definition DeepCopy_SmolVMNodeEndpoint :: "SmolVMNodeEndpoint option \<Rightarrow> ('o heap, SmolVMNodeEndpoint option) state" where
  "DeepCopy_SmolVMNodeEndpoint = DeepCopy DeepCopyInto_SmolVMNodeEndpoint"
definition DeepCopy_SmolVMNodeAllocatable :: "SmolVMNodeAllocatable option \<Rightarrow> ('o heap, SmolVMNodeAllocatable option) state" where
  "DeepCopy_SmolVMNodeAllocatable = DeepCopy DeepCopyInto_SmolVMNodeAllocatable"
definition DeepCopy_SmolVMNetwork :: "NetworkRef option \<Rightarrow> ('o heap, NetworkRef option) state" where
  "DeepCopy_SmolVMNetwork = DeepCopy DeepCopyInto_SmolVMNetwork"
definition DeepCopy_SmolVMSpec :: "SpecRef option \<Rightarrow> ('o heap, SpecRef option) state" where
  "DeepCopy_SmolVMSpec = DeepCopy DeepCopyInto_SmolVMSpec"
definition DeepCopy_SmolVMStatus :: "StatusRef option \<Rightarrow> ('o heap, StatusRef option) state" where
  "DeepCopy_SmolVMStatus = DeepCopy DeepCopyInto_SmolVMStatus"
definition DeepCopy_SmolVMNodeStatus :: "NodeStatusRef option \<Rightarrow> ('o heap, NodeStatusRef option) state" where
  "DeepCopy_SmolVMNodeStatus = DeepCopy DeepCopyInto_SmolVMNodeStatus"
definition DeepCopy_SmolVM :: "('m \<Rightarrow> ('o heap, 'm) state) \<Rightarrow> 'm VMRef option \<Rightarrow> ('o heap, 'm VMRef option) state" where
  "DeepCopy_SmolVM copy_meta = DeepCopy (DeepCopyInto_SmolVM copy_meta)"
definition DeepCopyObject_SmolVM :: "('m \<Rightarrow> ('o heap, 'm) state) \<Rightarrow> 'm VMRef option \<Rightarrow> ('o heap, 'm VMRef option) state" where
  "DeepCopyObject_SmolVM copy_meta x = DeepCopyObject (DeepCopy_SmolVM copy_meta x)"
definition DeepCopy_SmolVMNode :: "('m \<Rightarrow> ('o heap, 'm) state) \<Rightarrow> 'm NodeRef option \<Rightarrow> ('o heap, 'm NodeRef option) state" where
  "DeepCopy_SmolVMNode copy_meta = DeepCopy (DeepCopyInto_SmolVMNode copy_meta)"
definition DeepCopyObject_SmolVMNode :: "('m \<Rightarrow> ('o heap, 'm) state) \<Rightarrow> 'm NodeRef option \<Rightarrow> ('o heap, 'm NodeRef option) state" where
  "DeepCopyObject_SmolVMNode copy_meta x = DeepCopyObject (DeepCopy_SmolVMNode copy_meta x)"
definition DeepCopy_SmolVMList :: "('l \<Rightarrow> ('m VMRef heap, 'l) state) \<Rightarrow> ('m \<Rightarrow> ('m VMRef heap, 'm) state) \<Rightarrow> 'm VMRef \<Rightarrow>
    'l ListRef option \<Rightarrow> ('m VMRef heap, 'l ListRef option) state" where
  "DeepCopy_SmolVMList copy_list_meta copy_meta zero = DeepCopy (DeepCopyInto_SmolVMList copy_list_meta copy_meta zero)"
definition DeepCopyObject_SmolVMList :: "('l \<Rightarrow> ('m VMRef heap, 'l) state) \<Rightarrow> ('m \<Rightarrow> ('m VMRef heap, 'm) state) \<Rightarrow>
    'm VMRef \<Rightarrow> 'l ListRef option \<Rightarrow> ('m VMRef heap, 'l ListRef option) state" where
  "DeepCopyObject_SmolVMList copy_list_meta copy_meta zero x = DeepCopyObject (DeepCopy_SmolVMList copy_list_meta copy_meta zero x)"
definition DeepCopy_SmolVMNodeList :: "('l \<Rightarrow> ('m NodeRef heap, 'l) state) \<Rightarrow> ('m \<Rightarrow> ('m NodeRef heap, 'm) state) \<Rightarrow> 'm NodeRef \<Rightarrow>
    'l ListRef option \<Rightarrow> ('m NodeRef heap, 'l ListRef option) state" where
  "DeepCopy_SmolVMNodeList copy_list_meta copy_meta zero = DeepCopy (DeepCopyInto_SmolVMNodeList copy_list_meta copy_meta zero)"
definition DeepCopyObject_SmolVMNodeList :: "('l \<Rightarrow> ('m NodeRef heap, 'l) state) \<Rightarrow> ('m \<Rightarrow> ('m NodeRef heap, 'm) state) \<Rightarrow>
    'm NodeRef \<Rightarrow> 'l ListRef option \<Rightarrow> ('m NodeRef heap, 'l ListRef option) state" where
  "DeepCopyObject_SmolVMNodeList copy_list_meta copy_meta zero x = DeepCopyObject (DeepCopy_SmolVMNodeList copy_list_meta copy_meta zero x)"

text \<open>Nil stays nil, and the copy behind a pointer keeps the contract of \<open>DeepCopyInto\<close>.\<close>

lemma DeepCopy_run:
  "run_state (DeepCopy into None) h = (None, h)"
  "run_state (into x) h = (y, h') \<Longrightarrow> run_state (DeepCopy into (Some x)) h = (Some y, h')"
  "run_state copy h = (c, h') \<Longrightarrow> run_state (DeepCopyObject copy) h = (c, h')"
  by (auto simp: DeepCopy_def DeepCopyObject_def split: option.splits)

lemma pointed_copier:
  fixes into :: "'a \<Rightarrow> ('o heap, 'a) state"
  assumes "deep_copier into k v"
  shows "deep_copier (DeepCopy into) (\<lambda>h x. \<Union>y \<in> set_option x. k h y) (\<lambda>h. map_option (v h))"
proof
  fix h h' :: "'o heap" and x y
  assume h: "wf_heap h" "(\<Union>y \<in> set_option x. k h y) \<subseteq> dom (hp_cells h)" "run_state (DeepCopy into x) h = (y, h')"
  show "wf_heap h' \<and> extends h h' \<and> map_option (v h') y = map_option (v h) x \<and>
      (\<Union>y \<in> set_option y. k h' y) \<subseteq> {hp_next h..} \<and> (\<Union>y \<in> set_option y. k h' y) \<subseteq> dom (hp_cells h')"
  proof (cases x)
    case (Some z)
    then obtain z' where "run_state (into z) h = (z', h')" "y = Some z'"
      using h(3) by (auto simp: DeepCopy_def split: prod.splits)
    with deep_copier.copy_spec [OF assms h(1) _ this(1)] h(2) Some show ?thesis by simp
  qed (use h in \<open>simp add: DeepCopy_run\<close>)
next
  fix h h' :: "'o heap" and x assume "\<And>a. a \<in> (\<Union>y \<in> set_option x. k h y) \<Longrightarrow> hp_cells h' a = hp_cells h a"
  note same = this
  show "map_option (v h') x = map_option (v h) x \<and> (\<Union>y \<in> set_option x. k h' y) = (\<Union>y \<in> set_option x. k h y)"
  proof (cases x)
    case (Some y)
    then have "v h' y = v h y \<and> k h' y = k h y" using same by (intro deep_copier.local [OF assms]) simp
    with Some show ?thesis by simp
  qed simp
qed

end
