(* ===== verification/Status_Heap.thy ===== *)
theory Status_Heap
  imports Deep_Copy Vm_Status
begin

text \<open>
  \<open>updateStatus\<close> of \<open>src/internal/controller/smolvm_controller.go\<close> with the memory it works on.  The
  status is changed in place: \<open>setCondition\<close> writes into the array behind the slice of conditions, or
  appends to it, and the pointers of the machine are shared with the status.  \<open>Vm_Status\<close> computes the new
  status as a value; here the code with its pointers is shown to compute that value, and the copy
  \<open>previous\<close> is shown to still hold the old one when the two are compared.
\<close>

section \<open>Conditions in place\<close>

definition zeroCondition :: Condition where
  "zeroCondition = \<lparr>cond_Type = [], cond_Status = [], cond_ObservedGeneration = 0, cond_LastTransitionTime = 0,
     cond_Reason = [], cond_Message = []\<rparr>"

fun condition_index :: "nat \<Rightarrow> Condition list \<Rightarrow> string \<Rightarrow> nat option" where
  "condition_index i [] ty = None"
| "condition_index i (c # cs) ty = (if cond_Type c = ty then Some i else condition_index (Suc i) cs ty)"

text \<open>
  \<open>append\<close> for one element: into the array where it has room, else into a new array that starts with the
  old elements; \<open>grow n\<close> is the number of elements the new array has beyond the \<open>n + 1\<close> it needs.
\<close>

definition append_condition :: "(nat \<Rightarrow> nat) \<Rightarrow> slice option \<Rightarrow> Condition \<Rightarrow> ('o heap, slice option) state" where
  "append_condition grow s c =
     (case s of
        None \<Rightarrow> do {
          b \<leftarrow> alloc (ConditionsCell (c # replicate (grow 0) zeroCondition));
          State_Monad.return (Some \<lparr>sl_addr = b, sl_len = 1\<rparr>)
        }
      | Some sl \<Rightarrow> do {
          a \<leftarrow> load (sl_addr sl);
          let xs = (case a of Some (ConditionsCell xs) \<Rightarrow> xs | _ \<Rightarrow> []);
          if sl_len sl < length xs
          then do {
            store (sl_addr sl) (ConditionsCell (xs[sl_len sl := c]));
            State_Monad.return (Some (sl\<lparr>sl_len := Suc (sl_len sl)\<rparr>))
          }
          else do {
            b \<leftarrow> alloc (ConditionsCell (take (sl_len sl) xs @ c # replicate (grow (sl_len sl)) zeroCondition));
            State_Monad.return (Some \<lparr>sl_addr = b, sl_len = Suc (sl_len sl)\<rparr>)
          }
        })"

definition heap_setCondition :: "(nat \<Rightarrow> nat) \<Rightarrow> time \<Rightarrow> slice option \<Rightarrow> string \<Rightarrow> ConditionStatus \<Rightarrow> string \<Rightarrow> string \<Rightarrow>
    int64 \<Rightarrow> ('o heap, slice option) state" where
  "heap_setCondition grow now s ty st reason msg generation = do {
     h \<leftarrow> State_Monad.get;
     let cs = view_slice conditions_of h s;
     (case (s, condition_index 0 cs ty) of
        (Some sl, Some i) \<Rightarrow> do {
          a \<leftarrow> load (sl_addr sl);
          let xs = (case a of Some (ConditionsCell xs) \<Rightarrow> xs | _ \<Rightarrow> []);
          let c = (if cond_Status (xs ! i) \<noteq> st then (xs ! i)\<lparr>cond_LastTransitionTime := now\<rparr> else xs ! i);
          store (sl_addr sl) (ConditionsCell (xs[i := c\<lparr>cond_Status := st, cond_Reason := reason, cond_Message := msg,
            cond_ObservedGeneration := generation\<rparr>]));
          State_Monad.return s
        }
      | _ \<Rightarrow> append_condition grow s \<lparr>cond_Type = ty, cond_Status = st, cond_ObservedGeneration = generation,
          cond_LastTransitionTime = now, cond_Reason = reason, cond_Message = msg\<rparr>)
   }"

section \<open>updateStatus in memory\<close>

text \<open>The machine of the input: the fields without memory, and the pointers.\<close>

record MachineRef =
  mr_Info :: MachineInfo
  mr_PID :: "addr option"
  mr_StorageGB :: "addr option"
  mr_OverlayGB :: "addr option"

definition view_machine :: "'o heap \<Rightarrow> MachineRef \<Rightarrow> MachineInfo" where
  "view_machine h m = (mr_Info m)\<lparr>mi_PID := view_pointer int32_of h (mr_PID m),
     mi_StorageGB := view_pointer int64_of h (mr_StorageGB m), mi_OverlayGB := view_pointer int64_of h (mr_OverlayGB m)\<rparr>"

definition machine_cells :: "MachineRef \<Rightarrow> addr set" where
  "machine_cells m = set_option (mr_PID m) \<union> set_option (mr_StorageGB m) \<union> set_option (mr_OverlayGB m)"

definition heap_portsFromRuntime :: "PortSpec list \<Rightarrow> ('o heap, slice option) state" where
  "heap_portsFromRuntime ports =
     (if ports = [] then State_Monad.return None
      else do {
        b \<leftarrow> alloc (PortsCell (portsFromRuntime ports));
        State_Monad.return (Some \<lparr>sl_addr = b, sl_len = length ports\<rparr>)
      })"

definition heap_observeMachine :: "MachineRef option \<Rightarrow> StatusRef \<Rightarrow> ('o heap, StatusRef) state" where
  "heap_observeMachine m s =
     (case m of
        None \<Rightarrow> State_Monad.return s
      | Some m \<Rightarrow> do {
          ports \<leftarrow> heap_portsFromRuntime (mi_Ports (mr_Info m));
          State_Monad.return (s\<lparr>str_RuntimePID := mr_PID m, str_Network := mi_Network (mr_Info m), str_Ports := ports,
            str_StorageGiB := mr_StorageGB m, str_OverlayGiB := mr_OverlayGB m\<rparr>)
        })"

definition heap_nextConditions :: "(nat \<Rightarrow> nat) \<Rightarrow> (nat \<Rightarrow> time) \<Rightarrow> int64 \<Rightarrow> statusInput \<Rightarrow> slice option \<Rightarrow>
    ('o heap, slice option) state" where
  "heap_nextConditions grow t gen inp0 s0 = do {
     let inp = defaultScheduled inp0;
     s1 \<leftarrow> (if in_ScheduledReason inp \<noteq> []
           then heap_setCondition grow (t 0) s0 ConditionScheduled (in_Scheduled inp) (in_ScheduledReason inp)
                  (in_ScheduledMsg inp) gen
           else State_Monad.return s0);
     s2 \<leftarrow> heap_setCondition grow (t 1) s1 ConditionReady (in_Ready inp) (in_ReadyReason inp) (in_ReadyMsg inp) gen;
     s3 \<leftarrow> heap_setCondition grow (t 2) s2 ConditionRuntimeReady (in_Ready inp) (in_ReadyReason inp) (in_ReadyMsg inp) gen;
     s4 \<leftarrow> heap_setCondition grow (t 3) s3 ConditionGuestReady ConditionUnknown ''GuestReadinessUnavailable''
            ''smolvm guest readiness is not reported by the runtime API'' gen;
     s5 \<leftarrow> heap_setCondition grow (t 4) s4 ConditionReconciled (in_Recon inp) (in_ReconReason inp) (in_ReconMsg inp) gen;
     if in_DeletionBlockedReason inp \<noteq> []
     then heap_setCondition grow (t 5) s5 ConditionDeletionBlocked (in_DeletionBlocked inp)
            (in_DeletionBlockedReason inp) (in_DeletionBlockedMsg inp) gen
     else State_Monad.return s5
   }"

text \<open>\<open>updateStatus\<close> between the read and the comparison: \<open>previous\<close> and the status of \<open>latest\<close>.\<close>

definition heap_nextStatus :: "(nat \<Rightarrow> nat) \<Rightarrow> (nat \<Rightarrow> time) \<Rightarrow> int64 \<Rightarrow> statusInput \<Rightarrow> MachineRef option \<Rightarrow> StatusRef \<Rightarrow>
    ('o heap, StatusRef \<times> StatusRef) state" where
  "heap_nextStatus grow t gen inp m s = do {
     previous \<leftarrow> DeepCopyInto_SmolVMStatus s;
     let s = s\<lparr>str_Phase := in_Phase inp, str_NodeName := in_NodeName inp, str_MachineName := in_MachineName inp\<rparr>;
     s \<leftarrow> heap_observeMachine m s;
     let s = s\<lparr>str_ObservedGeneration := gen\<rparr>;
     cs \<leftarrow> heap_nextConditions grow t gen inp (str_Conditions s);
     State_Monad.return (previous, s\<lparr>str_Conditions := cs\<rparr>)
   }"

section \<open>One setting\<close>

definition conditions_slice :: "'o heap \<Rightarrow> slice option \<Rightarrow> bool" where
  "conditions_slice h s \<longleftrightarrow>
     (case s of
        None \<Rightarrow> True
      | Some sl \<Rightarrow> (case hp_cells h (sl_addr sl) of Some (ConditionsCell xs) \<Rightarrow> sl_len sl \<le> length xs | _ \<Rightarrow> False))"

text \<open>\<open>writes B h h'\<close>: of the cells of \<open>h\<close>, only arrays of conditions at addresses in \<open>B\<close> have changed.\<close>

definition writes :: "addr set \<Rightarrow> 'o heap \<Rightarrow> 'o heap \<Rightarrow> bool" where
  "writes B h h' \<longleftrightarrow> wf_heap h' \<and> hp_next h \<le> hp_next h' \<and>
     (\<forall>a < hp_next h. hp_cells h' a = hp_cells h a \<or>
        (a \<in> B \<and> (\<exists>xs ys. hp_cells h a = Some (ConditionsCell xs) \<and> hp_cells h' a = Some (ConditionsCell ys))))"

lemma writes_refl: "wf_heap h \<Longrightarrow> writes B h h"
  by (simp add: writes_def)

lemma writes_trans:
  assumes "writes B h h'" and "writes B' h' h''" and "B' \<subseteq> B \<union> {hp_next h..}"
  shows "writes B h h''"
  unfolding writes_def
proof (intro conjI allI impI)
  show "wf_heap h''" "hp_next h \<le> hp_next h''" using assms(1,2) by (auto simp: writes_def)
  fix a assume a: "a < hp_next h"
  moreover have "a < hp_next h'" using a assms(1) by (auto simp: writes_def)
  ultimately have "hp_cells h' a = hp_cells h a \<or>
      (a \<in> B \<and> (\<exists>xs ys. hp_cells h a = Some (ConditionsCell xs) \<and> hp_cells h' a = Some (ConditionsCell ys)))"
    "hp_cells h'' a = hp_cells h' a \<or>
      (a \<in> B' \<and> (\<exists>xs ys. hp_cells h' a = Some (ConditionsCell xs) \<and> hp_cells h'' a = Some (ConditionsCell ys)))"
    "a \<in> B' \<Longrightarrow> a \<in> B"
    using assms unfolding writes_def by auto
  then show "hp_cells h'' a = hp_cells h a \<or>
      (a \<in> B \<and> (\<exists>xs ys. hp_cells h a = Some (ConditionsCell xs) \<and> hp_cells h'' a = Some (ConditionsCell ys)))"
    by metis
qed

lemma writes_store: "wf_heap h \<Longrightarrow> hp_cells h a = Some (ConditionsCell xs) \<Longrightarrow> a \<in> B \<Longrightarrow>
    writes B h (h\<lparr>hp_cells := (hp_cells h)(a \<mapsto> ConditionsCell ys)\<rparr>)"
  by (auto simp: writes_def wf_heap_def subset_iff)

lemma writes_alloc: "wf_heap h \<Longrightarrow> writes B h (h\<lparr>hp_cells := (hp_cells h)(hp_next h \<mapsto> c), hp_next := Suc (hp_next h)\<rparr>)"
  by (auto simp: writes_def)

text \<open>The views of other types do not see what happens to conditions.\<close>

lemma writes_pointer:
  assumes "writes B h h'" and "wf_heap h" and "pointer_cells h p \<subseteq> dom (hp_cells h)" and "\<And>xs. f (ConditionsCell xs) = None"
  shows "view_pointer f h' p = view_pointer f h p"
proof (cases p)
  case (Some a)
  then have "a < hp_next h" using assms(2,3) by (auto simp: wf_heap_def pointer_cells_def)
  with assms(1,4) Some show ?thesis by (auto simp: writes_def view_pointer_def)
qed (simp add: view_pointer_def)

lemma writes_ports:
  assumes "writes B h h'" and "wf_heap h" and "slice_cells h p \<subseteq> dom (hp_cells h)"
  shows "view_slice ports_of h' p = view_slice ports_of h p"
proof (cases p)
  case (Some sl)
  then have "sl_addr sl < hp_next h" using assms(2,3) by (auto simp: wf_heap_def slice_cells_def)
  with assms(1) Some show ?thesis by (auto simp: writes_def view_slice_def)
qed (simp add: view_slice_def)

text \<open>
  What a function on slices of conditions has to do with a function on lists: its result shows the changed
  list, and it writes only to the array it was given or to new ones.
\<close>

definition refines_conditions :: "(slice option \<Rightarrow> ('o heap, slice option) state) \<Rightarrow> (Condition list \<Rightarrow> Condition list) \<Rightarrow> bool" where
  "refines_conditions c f \<longleftrightarrow> (\<forall>h s s' h'. wf_heap h \<longrightarrow> conditions_slice h s \<longrightarrow> run_state (c s) h = (s', h') \<longrightarrow>
     writes (slice_cells h s) h h' \<and> conditions_slice h' s' \<and>
     slice_cells h' s' \<subseteq> slice_cells h s \<union> {hp_next h..} \<and>
     view_slice conditions_of h' s' = f (view_slice conditions_of h s))"

lemma refines_conditionsD:
  assumes "refines_conditions c f" and "wf_heap h" and "conditions_slice h s" and "run_state (c s) h = (s', h')"
  shows "writes (slice_cells h s) h h'" and "conditions_slice h' s'" and "slice_cells h' s' \<subseteq> slice_cells h s \<union> {hp_next h..}"
    and "view_slice conditions_of h' s' = f (view_slice conditions_of h s)"
  using assms unfolding refines_conditions_def by blast+

lemma refines_return: "refines_conditions State_Monad.return (\<lambda>cs. cs)"
  by (auto simp: refines_conditions_def writes_refl)

lemma refines_bind:
  assumes "refines_conditions c f" and "refines_conditions d g"
  shows "refines_conditions (\<lambda>s. do { s' \<leftarrow> c s; d s' }) (\<lambda>cs. g (f cs))"
  unfolding refines_conditions_def
proof (intro allI impI)
  fix h s s' h' assume h: "wf_heap h" "conditions_slice h s" and run: "run_state (do { s' \<leftarrow> c s; d s' }) h = (s', h')"
  obtain s1 h1 where r1: "run_state (c s) h = (s1, h1)" and r2: "run_state (d s1) h1 = (s', h')"
    using run by (auto split: prod.splits)
  note one = refines_conditionsD [OF assms(1) h r1]
  have "wf_heap h1" "hp_next h \<le> hp_next h1" using one(1) by (auto simp: writes_def)
  note two = refines_conditionsD [OF assms(2) this(1) one(2) r2] and mono = this(2)
  have "writes (slice_cells h s) h h'" by (rule writes_trans [OF one(1) two(1) one(3)])
  moreover have "slice_cells h' s' \<subseteq> slice_cells h s \<union> {hp_next h..}"
    using one(3) two(3) mono by fastforce
  ultimately show "writes (slice_cells h s) h h' \<and> conditions_slice h' s' \<and>
      slice_cells h' s' \<subseteq> slice_cells h s \<union> {hp_next h..} \<and>
      view_slice conditions_of h' s' = g (f (view_slice conditions_of h s))"
    using two one(4) by simp
qed

lemma refines_if: "refines_conditions c f \<Longrightarrow> refines_conditions d g \<Longrightarrow>
    refines_conditions (\<lambda>s. if b then c s else d s) (\<lambda>cs. if b then f cs else g cs)"
  by (cases b) simp_all

lemma condition_index_None: "condition_index i cs ty = None \<Longrightarrow>
    setCondition now cs ty st reason msg gen = cs @ [\<lparr>cond_Type = ty, cond_Status = st, cond_ObservedGeneration = gen,
      cond_LastTransitionTime = now, cond_Reason = reason, cond_Message = msg\<rparr>]"
  by (induction cs arbitrary: i) (auto split: if_splits)

lemma condition_index_Some: "condition_index i cs ty = Some j \<Longrightarrow> i \<le> j \<and> j - i < length cs \<and>
    setCondition now cs ty st reason msg gen = cs[j - i := (if cond_Status (cs ! (j - i)) \<noteq> st
      then (cs ! (j - i))\<lparr>cond_LastTransitionTime := now\<rparr> else cs ! (j - i))\<lparr>cond_Status := st, cond_Reason := reason,
        cond_Message := msg, cond_ObservedGeneration := gen\<rparr>]"
proof (induction cs arbitrary: i)
  case (Cons c cs)
  show ?case
  proof (cases "cond_Type c = ty")
    case False
    then have "condition_index (Suc i) cs ty = Some j" using Cons.prems by simp
    note IH = Cons.IH [OF this]
    then have "j - i = Suc (j - Suc i)" by auto
    with IH False show ?thesis by auto
  qed (use Cons.prems in auto)
qed simp

lemma append_condition_refines: "refines_conditions (\<lambda>s. append_condition grow s c) (\<lambda>cs. cs @ [c])"
  unfolding refines_conditions_def
proof (intro allI impI)
  fix h s s' h' assume h: "wf_heap h" "conditions_slice h s" and run: "run_state (append_condition grow s c) h = (s', h')"
  show "writes (slice_cells h s) h h' \<and> conditions_slice h' s' \<and> slice_cells h' s' \<subseteq> slice_cells h s \<union> {hp_next h..} \<and>
      view_slice conditions_of h' s' = view_slice conditions_of h s @ [c]"
  proof (cases s)
    case None
    with h run show ?thesis
      by (auto simp: append_condition_def writes_def conditions_slice_def slice_cells_def view_slice_def)
  next
    case (Some sl)
    then obtain xs where xs: "hp_cells h (sl_addr sl) = Some (ConditionsCell xs)" "sl_len sl \<le> length xs"
      using h(2) by (auto simp: conditions_slice_def split: option.splits cell.splits)
    with Some h(1) run show ?thesis
      by (cases "sl_len sl < length xs")
        (auto simp: append_condition_def Let_def conditions_slice_def slice_cells_def view_slice_def take_Suc_conv_app_nth
          intro: writes_store writes_alloc)
  qed
qed

lemma heap_setCondition_refines:
  "refines_conditions (\<lambda>s. heap_setCondition grow now s ty st reason msg gen)
     (\<lambda>cs. setCondition now cs ty st reason msg gen)"
  unfolding refines_conditions_def
proof (intro allI impI)
  fix h s s' h'
  assume h: "wf_heap h" "conditions_slice h s" and run: "run_state (heap_setCondition grow now s ty st reason msg gen) h = (s', h')"
  let ?cs = "view_slice conditions_of h s"
  show "writes (slice_cells h s) h h' \<and> conditions_slice h' s' \<and> slice_cells h' s' \<subseteq> slice_cells h s \<union> {hp_next h..} \<and>
      view_slice conditions_of h' s' = setCondition now ?cs ty st reason msg gen"
  proof (cases "condition_index 0 ?cs ty")
    case None
    then have "run_state (append_condition grow s \<lparr>cond_Type = ty, cond_Status = st, cond_ObservedGeneration = gen,
        cond_LastTransitionTime = now, cond_Reason = reason, cond_Message = msg\<rparr>) h = (s', h')"
      using run by (cases s) (simp_all add: heap_setCondition_def Let_def)
    from refines_conditionsD [OF append_condition_refines h this] condition_index_None [OF None] show ?thesis by simp
  next
    case (Some i)
    then obtain sl xs where sl: "s = Some sl" "hp_cells h (sl_addr sl) = Some (ConditionsCell xs)" "sl_len sl \<le> length xs"
      using h(2) by (auto simp: conditions_slice_def view_slice_def split: option.splits cell.splits)
    then have cs: "?cs = take (sl_len sl) xs" by (simp add: view_slice_def)
    then have i: "i < sl_len sl" "i < length xs" using condition_index_Some [OF Some] sl(3) by force+
    have set: "setCondition now ?cs ty st reason msg gen = take (sl_len sl) (xs[i := (if cond_Status (xs ! i) \<noteq> st
        then (xs ! i)\<lparr>cond_LastTransitionTime := now\<rparr> else xs ! i)\<lparr>cond_Status := st, cond_Reason := reason,
        cond_Message := msg, cond_ObservedGeneration := gen\<rparr>])"
      using condition_index_Some [OF Some, of now st reason msg gen] cs i by (simp add: take_update_swap)
    show ?thesis
      using run h(1) sl i set Some cs unfolding heap_setCondition_def
      by (simp add: Let_def) (auto simp: conditions_slice_def slice_cells_def view_slice_def intro: writes_store)
  qed
qed

lemmas six_settings = refines_bind [OF refines_if [OF heap_setCondition_refines refines_return] refines_bind [OF
  heap_setCondition_refines refines_bind [OF heap_setCondition_refines refines_bind [OF heap_setCondition_refines refines_bind [OF
  heap_setCondition_refines refines_if [OF heap_setCondition_refines refines_return]]]]]]

lemma heap_nextConditions_refines:
  "refines_conditions (heap_nextConditions grow t gen inp) (nextConditions t gen inp)"
  unfolding heap_nextConditions_def nextConditions_def Let_def by (rule six_settings)

section \<open>The whole status\<close>

text \<open>Ports are written to a new array only.\<close>

lemma heap_observeMachine_spec:
  assumes "wf_heap h" and "status_cells h s \<subseteq> dom (hp_cells h)"
    and "\<And>m. machine = Some m \<Longrightarrow> machine_cells m \<subseteq> dom (hp_cells h)"
    and "run_state (heap_observeMachine machine s) h = (s', h')"
  shows "wf_heap h' \<and> extends h h' \<and> status_cells h' s' \<subseteq> dom (hp_cells h') \<and> str_Conditions s' = str_Conditions s \<and>
    view_status h' s' = observeMachine (map_option (view_machine h) machine) (view_status h s)"
proof (cases machine)
  case None
  with assms show ?thesis by (simp add: heap_observeMachine_def observeMachine_def)
next
  case (Some m)
  obtain ports where p: "run_state (heap_portsFromRuntime (mi_Ports (mr_Info m))) h = (ports, h')"
    and s': "s' = s\<lparr>str_RuntimePID := mr_PID m, str_Network := mi_Network (mr_Info m), str_Ports := ports,
      str_StorageGiB := mr_StorageGB m, str_OverlayGiB := mr_OverlayGB m\<rparr>"
    using assms(4) Some by (auto simp: heap_observeMachine_def split: prod.splits)
  have new: "wf_heap h'" "extends h h'" "slice_cells h' ports \<subseteq> dom (hp_cells h')" "dom (hp_cells h) \<subseteq> dom (hp_cells h')"
    "view_slice ports_of h' ports = portsFromRuntime (mi_Ports (mr_Info m))"
    using p assms(1)
    by (auto simp: heap_portsFromRuntime_def extends_def slice_cells_def view_slice_def portsFromRuntime_def split: if_splits)
  have mc: "pointer_cells h (mr_PID m) \<subseteq> dom (hp_cells h)" "pointer_cells h (mr_StorageGB m) \<subseteq> dom (hp_cells h)"
    "pointer_cells h (mr_OverlayGB m) \<subseteq> dom (hp_cells h)" "slice_cells h (str_Conditions s) \<subseteq> dom (hp_cells h)"
    using assms(2,3) Some by (auto simp: machine_cells_def pointer_cells_def status_cells_def)
  note keep = deep_copier.view_extends [OF pointer_copier new(2) assms(1)] deep_copier.view_extends [OF slice_copier new(2) assms(1)]
  have "status_cells h' s' \<subseteq> dom (hp_cells h')"
    using new(3) keep(3) [OF mc(1)] keep(3) [OF mc(2)] keep(3) [OF mc(3)] keep(6) [OF mc(4)] by (simp add: s' status_cells_def)
  moreover have "view_status h' s' = observeMachine (Some (view_machine h m)) (view_status h s)"
    using new(5) by (simp add: s' view_status_def observeMachine_def view_machine_def keep(1) [OF mc(1)] keep(1) [OF mc(2)]
      keep(1) [OF mc(3)] keep(4) [OF mc(4)])
  ultimately show ?thesis using new Some by (simp add: s')
qed

text \<open>The view of a status when its conditions have been set.\<close>

lemma view_status_writes:
  assumes "writes B h h'" and "wf_heap h" and "status_cells h s \<subseteq> dom (hp_cells h)"
  shows "view_status h' (s\<lparr>str_Conditions := cs\<rparr>) = (view_status h s)\<lparr>status_Conditions := view_slice conditions_of h' cs\<rparr>"
  using writes_pointer [OF assms(1,2), of "str_RuntimePID s" int32_of] writes_pointer [OF assms(1,2), of "str_StorageGiB s" int64_of]
    writes_pointer [OF assms(1,2), of "str_OverlayGiB s" int64_of] writes_ports [OF assms(1,2), of "str_Ports s"] assms(3)
  by (simp add: view_status_def status_cells_def)

lemma view_status_elsewhere:
  assumes "writes B h h'" and "wf_heap h" and "status_cells h s \<subseteq> dom (hp_cells h)" and "status_cells h s \<inter> B = {}"
  shows "view_status h' s = view_status h s"
proof -
  have "hp_cells h' a = hp_cells h a" if "a \<in> status_cells h s" for a
    using assms that unfolding writes_def wf_heap_def by blast
  then show ?thesis using status_copy.local [of h s h'] by simp
qed

lemma conditions_slice_extends:
  assumes "conditions_slice h s" and "extends h h'" and "wf_heap h"
  shows "conditions_slice h' s"
proof (cases s)
  case (Some sl)
  then have "sl_addr sl \<in> dom (hp_cells h)" using assms(1) by (auto simp: conditions_slice_def split: option.splits)
  then have "hp_cells h' (sl_addr sl) = hp_cells h (sl_addr sl)" using assms(2,3) unfolding extends_def wf_heap_def by blast
  then show ?thesis using assms(1) Some by (simp add: conditions_slice_def)
qed (simp add: conditions_slice_def)

lemma heap_nextStatus_refines:
  assumes "wf_heap h" and "status_cells h s \<subseteq> dom (hp_cells h)" and "conditions_slice h (str_Conditions s)"
    and "\<And>m. machine = Some m \<Longrightarrow> machine_cells m \<subseteq> dom (hp_cells h)"
    and "run_state (heap_nextStatus grow t (meta_Generation (vm_Meta latest)) inp machine s) h = ((previous, s'), h')"
    and "vm_Status latest = view_status h s" and "in_Machine inp = map_option (view_machine h) machine"
  shows "view_status h' previous = vm_Status latest \<and> view_status h' s' = nextStatus t latest inp"
proof -
  let ?gen = "meta_Generation (vm_Meta latest)"
  let ?s1 = "s\<lparr>str_Phase := in_Phase inp, str_NodeName := in_NodeName inp, str_MachineName := in_MachineName inp\<rparr>"
  obtain h1 s2 h2 cs where r1: "run_state (DeepCopyInto_SmolVMStatus s) h = (previous, h1)"
    and r2: "run_state (heap_observeMachine machine ?s1) h1 = (s2, h2)"
    and r3: "run_state (heap_nextConditions grow t ?gen inp (str_Conditions s2)) h2 = (cs, h')"
    and s': "s' = s2\<lparr>str_ObservedGeneration := ?gen, str_Conditions := cs\<rparr>"
    using assms(5) by (auto simp: heap_nextStatus_def Let_def split: prod.splits)
  note copy = status_copy.copy_spec [OF assms(1,2) r1]
  then have h1: "wf_heap h1" "extends h h1" and prev: "view_status h1 previous = view_status h s"
      "status_cells h1 previous \<subseteq> {hp_next h..}" "status_cells h1 previous \<subseteq> dom (hp_cells h1)" by simp_all
  note keep = status_copy.view_extends [OF h1(2) assms(1,2)]
  have s1: "status_cells h1 ?s1 \<subseteq> dom (hp_cells h1)" using keep(3) by (simp add: status_cells_def)
  have mach: "machine_cells m \<subseteq> dom (hp_cells h1) \<and> view_machine h1 m = view_machine h m" if "machine = Some m" for m
    using assms(4) [OF that]
    by (simp add: machine_cells_def view_machine_def 
      deep_copier.view_extends(1,3) [OF pointer_copier h1(2) assms(1), unfolded pointer_cells_def])
  have m: "map_option (view_machine h1) machine = in_Machine inp" using mach assms(7) by (cases machine) auto
  have obs: "wf_heap h2" "extends h1 h2" "status_cells h2 s2 \<subseteq> dom (hp_cells h2)" "str_Conditions s2 = str_Conditions s"
    "view_status h2 s2 = observeMachine (in_Machine inp) (view_status h1 ?s1)"
    using heap_observeMachine_spec [OF h1(1) s1 _ r2] mach unfolding m by auto
  have prev2: "view_status h2 previous = view_status h s" "status_cells h2 previous \<subseteq> {hp_next h..}"
      "status_cells h2 previous \<subseteq> dom (hp_cells h2)"
    using status_copy.view_extends [OF obs(2) h1(1) prev(3)] prev by simp_all
  have old: "slice_cells h (str_Conditions s) \<subseteq> dom (hp_cells h)" using assms(2) by (simp add: status_cells_def)
  then have cond: "conditions_slice h2 (str_Conditions s2)"
    using conditions_slice_extends [OF assms(3) extends_trans [OF h1(2) obs(2)] assms(1)] obs(4) by simp
  note nc = refines_conditionsD [OF heap_nextConditions_refines obs(1) cond r3]
  have "slice_cells h2 (str_Conditions s2) \<subseteq> {..<hp_next h}"
    using old assms(1) obs(4) unfolding wf_heap_def slice_cells_def by force
  then have "status_cells h2 previous \<inter> slice_cells h2 (str_Conditions s2) = {}" using prev2(2) by force
  then have "view_status h' previous = vm_Status latest"
    using view_status_elsewhere [OF nc(1) obs(1) prev2(3)] prev2(1) assms(6) by simp
  moreover have "view_status h' s' = nextStatus t latest inp"
  proof -
    have g: "status_cells h2 (s2\<lparr>str_ObservedGeneration := ?gen\<rparr>) \<subseteq> dom (hp_cells h2)" using obs(3) by (simp add: status_cells_def)
    have cs: "view_slice conditions_of h2 (str_Conditions s2) = status_Conditions (view_status h2 s2)" by (simp add: view_status_def)
    have "view_status h2 (s2\<lparr>str_ObservedGeneration := ?gen\<rparr>) = (view_status h2 s2)\<lparr>status_ObservedGeneration := ?gen\<rparr>"
      by (simp add: view_status_def)
    moreover have "view_status h1 ?s1 = (vm_Status latest)\<lparr>status_Phase := in_Phase inp, status_NodeName := in_NodeName inp,
        status_MachineName := in_MachineName inp\<rparr>" using keep(1) assms(6) by (simp add: view_status_def)
    ultimately show ?thesis
      using view_status_writes [OF nc(1) obs(1) g, of cs] nc(4) cs obs(5) by (simp add: s' nextStatus_def Let_def)
  qed
  ultimately show ?thesis by simp
qed

end
