(* ===== verification/Memory_Spec.thy ===== *)
theory Memory_Spec
  imports Status_Heap Example_Runs
begin

text \<open>The properties of the code that shares memory: the in-place update of a status and the deep copies.\<close>

section \<open>The status in memory\<close>

text \<open>
  C11: between the read and the comparison, \<open>updateStatus\<close> changes the status it has read in place, through
  slices and pointers that other variables share.  The result is the status that \<open>nextStatus\<close> computes from
  the values, and \<open>previous\<close> still shows the status as it was read: the comparison that decides about the
  write compares the old status with the new one.
\<close>

theorem status_update_in_memory:
  assumes "wf_heap h" and "status_cells h s \<subseteq> dom (hp_cells h)" and "conditions_slice h (str_Conditions s)"
    and "\<And>m. machine = Some m \<Longrightarrow> machine_cells m \<subseteq> dom (hp_cells h)"
    and "run_state (heap_nextStatus grow t (meta_Generation (vm_Meta latest)) inp machine s) h = ((previous, s'), h')"
    and "vm_Status latest = view_status h s" and "in_Machine inp = map_option (view_machine h) machine"
  shows "view_status h' previous = vm_Status latest \<and> view_status h' s' = nextStatus t latest inp"
  using assms by (rule heap_nextStatus_refines)

text \<open>A status with one condition in an array that has room for two, and a machine with a process id.\<close>

definition example_heap :: "unit heap" where
  "example_heap = \<lparr>hp_cells = [0 \<mapsto> ConditionsCell [example_condition ''Ready'', zeroCondition], 1 \<mapsto> Int32Cell 77], hp_next = 2\<rparr>"

definition example_status_ref :: StatusRef where
  "example_status_ref = \<lparr>str_Phase = ''Pending'', str_NodeName = [], str_MachineName = [], str_RuntimePID = None,
     str_Network = False, str_Ports = None, str_StorageGiB = None, str_OverlayGiB = None, str_ObservedGeneration = 0,
     str_Conditions = Some \<lparr>sl_addr = 0, sl_len = 1\<rparr>\<rparr>"

definition example_machine_ref :: MachineRef where
  "example_machine_ref = \<lparr>mr_Info = \<lparr>mi_Name = ''m'', mi_State = ''running'', mi_CPUs = 1, mi_MemoryMiB = 64, mi_PID = None,
     mi_Ports = [], mi_Network = True, mi_StorageGB = None, mi_OverlayGB = None\<rparr>, mr_PID = Some 1, mr_StorageGB = None,
     mr_OverlayGB = None\<rparr>"

theorem status_update_in_memory_witness:
  "\<exists>previous s' h' inp. run_state (heap_nextStatus (\<lambda>n. n) (\<lambda>i. 5) (meta_Generation (vm_Meta example_vm)) inp
       (Some example_machine_ref) example_status_ref) example_heap = ((previous, s'), h') \<and>
     status_Conditions (view_status h' previous) = [example_condition ''Ready''] \<and>
     status_Phase (view_status h' s') = ''Running'' \<and> status_RuntimePID (view_status h' s') = Some 77 \<and>
     hasCondition (status_Conditions (view_status h' s')) ''Ready'' ConditionFalse"
proof -
  let ?inp = "emptyInput\<lparr>in_Phase := ''Running'', in_Ready := ConditionFalse, in_ReadyReason := ''Starting'',
    in_Machine := Some (view_machine example_heap example_machine_ref)\<rparr>"
  let ?latest = "example_vm\<lparr>vm_Status := view_status example_heap example_status_ref\<rparr>"
  obtain previous s' h' where run: "run_state (heap_nextStatus (\<lambda>n. n) (\<lambda>i. 5) (meta_Generation (vm_Meta ?latest)) ?inp
      (Some example_machine_ref) example_status_ref) example_heap = ((previous, s'), h')" by (metis prod.collapse)
  have "wf_heap example_heap" by (simp add: wf_heap_def example_heap_def)
  moreover have "status_cells example_heap example_status_ref \<subseteq> dom (hp_cells example_heap)"
    by (simp add: status_cells_def example_status_ref_def example_heap_def pointer_cells_def slice_cells_def)
  moreover have "conditions_slice example_heap (str_Conditions example_status_ref)"
    by (simp add: conditions_slice_def example_status_ref_def example_heap_def)
  moreover have "machine_cells m \<subseteq> dom (hp_cells example_heap)" if "Some example_machine_ref = Some m" for m
    using that by (auto simp: machine_cells_def example_machine_ref_def example_heap_def)
  ultimately have views: "view_status h' previous = vm_Status ?latest" "view_status h' s' = nextStatus (\<lambda>i. 5) ?latest ?inp"
    using status_update_in_memory [of example_heap example_status_ref "Some example_machine_ref" "\<lambda>n. n" "\<lambda>i. 5" ?latest ?inp
      previous s' h', OF _ _ _ _ run] by simp_all
  have "(5, ''Ready'', ConditionFalse, ''Starting'', []) \<in> set (condition_updates (\<lambda>i. 5) ?inp)"
    by (simp add: condition_updates_def defaultScheduled_def emptyInput_def Let_def vm_condition_names)
  from nextConditions_has [OF this] show ?thesis
    using run views
    by (intro exI [of _ previous] exI [of _ s'] exI [of _ h'] exI [of _ ?inp])
      (simp add: view_status_def view_slice_def example_heap_def example_status_ref_def nextStatus_def observeMachine_def
        Let_def view_machine_def example_machine_ref_def view_pointer_def)
qed

section \<open>Deep copies\<close>

text \<open>
  C20: the deep copy of a list of virtual machines shows what the original shows; it stays so whatever is
  written afterwards to memory that existed before the copy, and the original stays as it is whatever is
  written to the copy.  The deep copies of the metadata keep the same contract.
\<close>

theorem list_copy_is_independent:
  assumes "deep_copier copy_list_meta list_meta_cells view_list_meta" and "deep_copier copy_meta meta_cells view_meta"
    and "wf_heap h" and "list_cells list_meta_cells (vm_cells meta_cells) h l \<subseteq> dom (hp_cells h)"
    and "run_state (DeepCopyInto_SmolVMList copy_list_meta copy_meta zero l) h = (copy, h')"
  shows "view_list view_list_meta (view_vm view_meta) h' copy = view_list view_list_meta (view_vm view_meta) h l \<and>
    (\<forall>h''. (\<forall>a. hp_next h \<le> a \<and> a < hp_next h' \<longrightarrow> hp_cells h'' a = hp_cells h' a) \<longrightarrow>
       view_list view_list_meta (view_vm view_meta) h'' copy = view_list view_list_meta (view_vm view_meta) h l) \<and>
    (\<forall>h''. (\<forall>a < hp_next h. hp_cells h'' a = hp_cells h' a) \<longrightarrow>
       view_list view_list_meta (view_vm view_meta) h'' l = view_list view_list_meta (view_vm view_meta) h l)"
proof -
  note copier = vm_list_copier [OF assms(1,2)]
  have ext: "extends h h'" using deep_copier.copy_spec [OF copier assms(3-5)] by simp
  have cells: "list_cells list_meta_cells (vm_cells meta_cells) h l \<subseteq> {..<hp_next h}"
    using assms(3,4) unfolding wf_heap_def by (rule order_trans [rotated])
  have "view_list view_list_meta (view_vm view_meta) h'' l = view_list view_list_meta (view_vm view_meta) h l"
    if "\<forall>a < hp_next h. hp_cells h'' a = hp_cells h' a" for h''
  proof -
    have "hp_cells h'' a = hp_cells h a" if "a \<in> list_cells list_meta_cells (vm_cells meta_cells) h l" for a
      using cells ext that \<open>\<forall>a < hp_next h. hp_cells h'' a = hp_cells h' a\<close> by (auto simp: extends_def)
    from deep_copier.local [OF copier this] show ?thesis by simp
  qed
  moreover have "view_list view_list_meta (view_vm view_meta) h'' copy = view_list view_list_meta (view_vm view_meta) h l"
    if "\<forall>a. hp_next h \<le> a \<and> a < hp_next h' \<longrightarrow> hp_cells h'' a = hp_cells h' a" for h''
    using deep_copier.copy_independent [OF copier assms(3-5), of h''] that by simp
  ultimately show ?thesis using deep_copier.copy_spec [OF copier assms(3-5)] by simp
qed

text \<open>Metadata without memory of its own.\<close>

lemma plain_copier: "deep_copier State_Monad.return (\<lambda>h x. {}) (\<lambda>h x. x)"
  by unfold_locales auto

definition example_list_heap :: "ObjectMeta VMRef heap" where
  "example_list_heap = \<lparr>hp_cells = [0 \<mapsto> PortsCell [\<lparr>HostPort = 80, GuestPort = 8080\<rparr>],
     1 \<mapsto> ObjectsCell [\<lparr>vr_Meta = vm_Meta example_vm, vr_Spec = \<lparr>sr_Running = True, sr_NodeName = [], sr_NodeSelector = None,
       sr_Image = ''alpine'', sr_From = [], sr_Resources = \<lparr>res_CPUs = 1, res_MemoryMiB = 64\<rparr>,
       sr_Storage = \<lparr>sto_StorageGiB = 0, sto_OverlayGiB = 0\<rparr>,
       sr_Network = \<lparr>nr_Enabled = True, nr_AllowedCIDRs = None, nr_Ports = Some \<lparr>sl_addr = 0, sl_len = 1\<rparr>\<rparr>\<rparr>,
       vr_Status = example_status_ref\<lparr>str_Conditions := None\<rparr>\<rparr>]], hp_next = 2\<rparr>"

definition zeroVMRef :: "ObjectMeta VMRef" where
  "zeroVMRef = \<lparr>vr_Meta = emptyMeta, vr_Spec = \<lparr>sr_Running = False, sr_NodeName = [], sr_NodeSelector = None, sr_Image = [],
     sr_From = [], sr_Resources = \<lparr>res_CPUs = 0, res_MemoryMiB = 0\<rparr>, sr_Storage = \<lparr>sto_StorageGiB = 0, sto_OverlayGiB = 0\<rparr>,
     sr_Network = \<lparr>nr_Enabled = False, nr_AllowedCIDRs = None, nr_Ports = None\<rparr>\<rparr>,
     vr_Status = \<lparr>str_Phase = [], str_NodeName = [], str_MachineName = [], str_RuntimePID = None, str_Network = False,
       str_Ports = None, str_StorageGiB = None, str_OverlayGiB = None, str_ObservedGeneration = 0, str_Conditions = None\<rparr>\<rparr>"

theorem list_copy_is_independent_witness:
  "\<exists>copy h' m vm. run_state (DeepCopyInto_SmolVMList State_Monad.return State_Monad.return zeroVMRef
       \<lparr>lr_Meta = (), lr_Items = Some \<lparr>sl_addr = 1, sl_len = 1\<rparr>\<rparr>) example_list_heap = (copy, h') \<and>
     view_list (\<lambda>h x. x) (view_vm (\<lambda>h x. x)) h' copy = (m, [vm]) \<and>
     map HostPort (net_Ports (spec_Network (vm_Spec vm))) = [80]"
proof -
  let ?l = "\<lparr>lr_Meta = (), lr_Items = Some \<lparr>sl_addr = 1, sl_len = 1\<rparr>\<rparr>"
  obtain copy h' where run: "run_state (DeepCopyInto_SmolVMList State_Monad.return State_Monad.return zeroVMRef ?l) example_list_heap =
    (copy, h')" by (metis prod.collapse)
  have "wf_heap example_list_heap" by (simp add: wf_heap_def example_list_heap_def)
  moreover have "list_cells (\<lambda>h x. {}) (vm_cells (\<lambda>h x. {})) example_list_heap ?l \<subseteq> dom (hp_cells example_list_heap)"
    by (simp add: list_cells_def items_cells_def items_of_def vm_cells_def spec_cells_def network_cells_def status_cells_def
        pointer_cells_def slice_cells_def example_list_heap_def example_status_ref_def)
  ultimately have "view_list (\<lambda>h x. x) (view_vm (\<lambda>h x. x)) h' copy = view_list (\<lambda>h x. x) (view_vm (\<lambda>h x. x)) example_list_heap ?l"
    using list_copy_is_independent [OF plain_copier plain_copier _ _ run] by blast
  with run show ?thesis
    by (auto simp: view_list_def view_items_def items_of_def view_vm_def view_spec_def view_network_def view_slice_def
        example_list_heap_def)
qed

end
