(* ===== verification/Agent_Process.thy ===== *)
theory Agent_Process
  imports Agent_Http
begin

text \<open>
  The process of the runtime agent (\<open>src/cmd/runtime-agent/main.go\<close>): its endless loops and the start-up
  in \<open>main\<close>.  A loop ends only when its context is cancelled, so it is a partial function: \<open>None\<close> is a loop
  that runs forever.  What a \<open>select\<close> finds, when the context is cancelled, and how the calls of \<open>main\<close> to
  its libraries end are parameters.
\<close>

section \<open>Loops on a ticker\<close>

text \<open>The channel that the \<open>i\<close>-th \<open>select\<close> of a loop received from: \<open>ctx.Done()\<close> or the timer.\<close>

datatype wake = Done | Tick

partial_function (option) tickLoop :: "('s \<Rightarrow> 's) \<Rightarrow> (nat \<Rightarrow> wake) \<Rightarrow> nat \<Rightarrow> 's \<Rightarrow> 's option" where
  "tickLoop body wake i s =
     (case wake i of
        Done \<Rightarrow> Some (body s)
      | Tick \<Rightarrow> tickLoop body wake (Suc i) (body s))"

text \<open>\<open>time.NewTicker\<close> panics on an interval that is not positive.\<close>

definition withTicker :: "int \<Rightarrow> ('s \<Rightarrow> 's) \<Rightarrow> (nat \<Rightarrow> wake) \<Rightarrow> 's \<Rightarrow> (string + 's) option" where
  "withTicker interval body wake s =
     (if interval \<le> 0 then Some (Inl ''non-positive interval for NewTicker'')
      else map_option Inr (tickLoop body wake 0 s))"

definition reportLoop ::
  "agent_env \<Rightarrow> (nat \<Rightarrow> wake) \<Rightarrow> int \<Rightarrow> agent \<Rightarrow> agent_event list \<Rightarrow> (string + agent \<times> agent_event list) option" where
  "reportLoop E wake interval a h = withTicker interval (\<lambda>(a, h). run_state (report E a) h) wake (a, h)"

definition orphanCleanupLoop ::
  "agent_env \<Rightarrow> (nat \<Rightarrow> wake) \<Rightarrow> int \<Rightarrow> agent \<Rightarrow> agent_event list \<Rightarrow> (string + agent_event list) option" where
  "orphanCleanupLoop E wake interval a h = withTicker interval (\<lambda>h. snd (run_state (cleanupOrphans E a) h)) wake h"

section \<open>The child process\<close>

text \<open>\<open>strings.Fields\<close>: the parts between white space, \<open>cur\<close> is the part that is being read.\<close>

lemma DecodeRune_advances: "s \<noteq> [] \<Longrightarrow> 0 < snd (DecodeRune s)"
  by (cases s) (auto simp: DecodeRune_def Let_def split: list.splits)

function fieldsFrom :: "string \<Rightarrow> string \<Rightarrow> string list" where
  "fieldsFrom cur s =
     (if s = [] then (if cur = [] then [] else [cur])
      else let w = snd (DecodeRune s) in
        if fst (DecodeRune s) \<in> set space_runes
        then (if cur = [] then [] else [cur]) @ fieldsFrom [] (drop w s)
        else fieldsFrom (cur @ take w s) (drop w s))"
  by pat_completeness auto
termination
  by (relation "measure (\<lambda>(cur, s). length s)") (auto simp: DecodeRune_advances)

declare fieldsFrom.simps [simp del]

definition Fields :: "string \<Rightarrow> string list" where
  "Fields s = fieldsFrom [] s"

lemma fieldsFrom_ascii [simp]:
  "fieldsFrom cur [] = (if cur = [] then [] else [cur])"
  "byte c < 0x80 \<Longrightarrow> byte c \<in> {9, 10, 11, 12, 13, 32} \<Longrightarrow> fieldsFrom cur (c # s) = (if cur = [] then [] else [cur]) @ fieldsFrom [] s"
  "byte c < 0x80 \<Longrightarrow> byte c \<notin> {9, 10, 11, 12, 13, 32} \<Longrightarrow> fieldsFrom cur (c # s) = fieldsFrom (cur @ [c]) s"
  by (simp add: fieldsFrom.simps)
    (auto simp: fieldsFrom.simps [of cur "c # s"] DecodeRune_ascii space_runes_def)

text \<open>
  The loop of \<open>supervise\<close>: \<open>cancelled i\<close> is \<open>ctx.Err() != nil\<close> at the \<open>i\<close>-th test.  The result is the
  list of the commands that were run, in their order.
\<close>

partial_function (option) superviseLoop ::
  "(nat \<Rightarrow> bool) \<Rightarrow> (nat \<Rightarrow> wake) \<Rightarrow> string list \<Rightarrow> nat \<Rightarrow> string list list \<Rightarrow> string list list option" where
  "superviseLoop cancelled wake args i started =
     (if cancelled i then Some started
      else case wake i of
        Done \<Rightarrow> Some (started @ [args])
      | Tick \<Rightarrow> superviseLoop cancelled wake args (Suc i) (started @ [args]))"

definition supervise :: "(nat \<Rightarrow> bool) \<Rightarrow> (nat \<Rightarrow> wake) \<Rightarrow> string \<Rightarrow> string list list option" where
  "supervise cancelled wake command =
     (let args = Fields command in
      if args = [] then Some [] else superviseLoop cancelled wake args 0 [])"

section \<open>When the loops end\<close>

lemma tickLoop_ends:
  assumes "wake (i + n) = Done" and "\<And>j. j < n \<Longrightarrow> wake (i + j) = Tick"
  shows "tickLoop body wake i s = Some ((body ^^ Suc n) s)"
  using assms
proof (induction n arbitrary: i s)
  case 0
  then show ?case by (simp add: tickLoop.simps [of body wake i])
next
  case (Suc n)
  have "wake i = Tick" using Suc.prems(2) [of 0] by simp
  moreover have "tickLoop body wake (Suc i) (body s) = Some ((body ^^ Suc n) (body s))"
    by (rule Suc.IH) (use Suc.prems(1) Suc.prems(2) [of "Suc j" for j] in auto)
  ultimately show ?case by (simp add: tickLoop.simps [of body wake i] funpow_swap1)
qed

lemma tickLoop_returned: "tickLoop body wake i s = Some s' \<Longrightarrow> \<exists>j \<ge> i. wake j = Done"
proof (rule tickLoop.raw_induct [where P = "\<lambda>body wake i s s'. \<exists>j \<ge> i. wake j = Done"])
  fix tickLoop body wake i s s'
  assume "\<And>body wake i s s'. tickLoop body wake i s = Some s' \<Longrightarrow> \<exists>j \<ge> i. wake j = Done"
    and "(case wake i of Done \<Rightarrow> Some (body s) | Tick \<Rightarrow> tickLoop body wake (Suc i) (body s)) = Some s'"
  then show "\<exists>j \<ge> i. wake j = Done" by (cases "wake i") (simp, blast, simp, meson Suc_leD)
qed

text \<open>The first cancellation.\<close>

definition first_done :: "(nat \<Rightarrow> wake) \<Rightarrow> nat \<Rightarrow> bool" where
  "first_done wake n \<longleftrightarrow> wake n = Done \<and> (\<forall>j < n. wake j = Tick)"

lemma first_done_exists: "wake j = Done \<Longrightarrow> \<exists>n. first_done wake n"
proof -
  assume j: "wake j = Done"
  have "wake k = Tick" if "k < (LEAST j. wake j = Done)" for k
    using not_less_Least [OF that] by (cases "wake k") simp_all
  then show ?thesis using LeastI [of "\<lambda>j. wake j = Done", OF j] unfolding first_done_def by blast
qed

lemma withTicker_ends:
  "0 < interval \<Longrightarrow> first_done wake n \<Longrightarrow> withTicker interval body wake s = Some (Inr ((body ^^ Suc n) s))"
  using tickLoop_ends [of wake 0 n body s] by (simp add: withTicker_def first_done_def del: funpow.simps)

lemma withTicker_None:
  assumes "0 < interval"
  shows "withTicker interval body wake s = None \<longleftrightarrow> (\<forall>n. wake n \<noteq> Done)"
proof
  show "\<forall>n. wake n \<noteq> Done" if "withTicker interval body wake s = None"
    using that first_done_exists withTicker_ends [OF assms] by (metis option.distinct(1))
  show "withTicker interval body wake s = None" if "\<forall>n. wake n \<noteq> Done"
    using assms that tickLoop_returned [of body wake 0 s] by (cases "tickLoop body wake 0 s") (auto simp: withTicker_def)
qed

lemma superviseLoop_ends:
  assumes "cancelled (i + n) \<or> wake (i + n) = Done" and "\<And>j. j < n \<Longrightarrow> \<not> cancelled (i + j) \<and> wake (i + j) = Tick"
  shows "superviseLoop cancelled wake args i started =
    Some (started @ replicate (if cancelled (i + n) then n else Suc n) args)"
  using assms
proof (induction n arbitrary: i started)
  case 0
  then show ?case by (auto simp: superviseLoop.simps [of cancelled wake args i])
next
  case (Suc n)
  have "\<not> cancelled i" "wake i = Tick" using Suc.prems(2) [of 0] by simp_all
  moreover have "superviseLoop cancelled wake args (Suc i) (started @ [args]) =
      Some ((started @ [args]) @ replicate (if cancelled (Suc i + n) then n else Suc n) args)"
    by (rule Suc.IH) (use Suc.prems(1) Suc.prems(2) [of "Suc j" for j] in auto)
  ultimately show ?case by (simp add: superviseLoop.simps [of cancelled wake args i])
qed

lemma superviseLoop_returned:
  "superviseLoop cancelled wake args i started = Some r \<Longrightarrow> \<exists>j \<ge> i. cancelled j \<or> wake j = Done"
proof (rule superviseLoop.raw_induct [where P = "\<lambda>cancelled wake args i started r. \<exists>j \<ge> i. cancelled j \<or> wake j = Done"])
  fix superviseLoop cancelled wake args i started r
  assume "\<And>cancelled wake args i started r. superviseLoop cancelled wake args i started = Some r \<Longrightarrow>
      \<exists>j \<ge> i. cancelled j \<or> wake j = Done"
    and "(if cancelled i then Some started else case wake i of Done \<Rightarrow> Some (started @ [args])
      | Tick \<Rightarrow> superviseLoop cancelled wake args (Suc i) (started @ [args])) = Some r"
  then show "\<exists>j \<ge> i. cancelled j \<or> wake j = Done"
    by (cases "wake i"; cases "cancelled i") (simp, blast, simp, blast, simp, blast, simp, meson Suc_leD)
qed

section \<open>The self-signed certificate\<close>

text \<open>
  The template of \<open>selfSignedTLSConfig\<close>; key generation, signing and encoding belong to the libraries.  The
  arguments are the three readings of the clock.
\<close>

record Certificate =
  crt_SerialNumber :: int
  crt_CommonName :: string
  crt_NotBefore :: time
  crt_NotAfter :: time
  crt_KeyUsage :: "string list"
  crt_ExtKeyUsage :: "string list"
  crt_DNSNames :: "string list"
  crt_IPAddresses :: "string list"

definition selfSignedTemplate :: "string \<Rightarrow> time \<Rightarrow> time \<Rightarrow> time \<Rightarrow> Certificate" where
  "selfSignedTemplate nodeName t0 t1 t2 =
     \<lparr>crt_SerialNumber = t0, crt_CommonName = nodeName, crt_NotBefore = t1 - 60 * 10 ^ 9,
      crt_NotAfter = t2 + 24 * 60 * 60 * 10 ^ 9, crt_KeyUsage = [''KeyEncipherment'', ''DigitalSignature''],
      crt_ExtKeyUsage = [''ServerAuth''], crt_DNSNames = [nodeName], crt_IPAddresses = [''127.0.0.1'']\<rparr>"

definition valid_at :: "time \<Rightarrow> Certificate \<Rightarrow> bool" where
  "valid_at t c \<longleftrightarrow> crt_NotBefore c \<le> t \<and> t \<le> crt_NotAfter c"

text \<open>The certificate is made once, at the start: it is good for a day and no longer.\<close>

lemma selfSigned_valid_for_a_day:
  assumes "t1 \<le> t2"
  shows "t2 \<le> t \<Longrightarrow> t \<le> t2 + 24 * 60 * 60 * 10 ^ 9 \<Longrightarrow> valid_at t (selfSignedTemplate n t0 t1 t2)"
    and "t2 + 24 * 60 * 60 * 10 ^ 9 < t \<Longrightarrow> \<not> valid_at t (selfSignedTemplate n t0 t1 t2)"
  using assms by (simp_all add: valid_at_def selfSignedTemplate_def)

section \<open>main\<close>

record agent_flags =
  fl_bindAddr :: string
  fl_certFile :: string
  fl_keyFile :: string
  fl_smolvmServe :: string
  fl_reportInterval :: int
  fl_orphanCleanupPolicy :: string

text \<open>How the library calls of \<open>main\<close> end; \<open>ListenAndServeTLS\<close> and \<open>Serve\<close> return an error always.\<close>

record main_env =
  me_Getenv :: "string \<Rightarrow> string"
  me_GetConfig :: "goerror option"
  me_NewClient :: "goerror option"
  me_ListenAndServeTLS :: goerror
  me_TLSConfig :: "goerror option"
  me_Listen :: "goerror option"
  me_Serve :: goerror

datatype main_action =
    GoSupervise string
  | GoReportLoop agent int
  | GoOrphanCleanupLoop agent int
  | ListenAndServeTLS agent string string
  | SelfSigned string
  | Listen string
  | Serve agent
  | Exit int string

definition ErrServerClosed :: goerror where
  "ErrServerClosed = ErrorString ''http: Server closed''"

text \<open>\<open>fatalErr\<close> ends the process, or returns to what follows; \<open>acts\<close> is what happened so far.\<close>

definition fatalErr :: "goerror option \<Rightarrow> main_action list \<Rightarrow> main_action list \<Rightarrow> main_action list" where
  "fatalErr err acts follows =
     (case err of
        Some e \<Rightarrow> if e \<noteq> ErrServerClosed then acts @ [Exit 1 (Error e)] else follows
      | None \<Rightarrow> follows)"

definition serveSelfSigned :: "agent_flags \<Rightarrow> main_env \<Rightarrow> agent \<Rightarrow> main_action list \<Rightarrow> main_action list" where
  "serveSelfSigned fl M a acts =
     (let acts = acts @ [SelfSigned (ag_nodeName a)] in
      fatalErr (me_TLSConfig M) acts
        (let acts = acts @ [Listen (fl_bindAddr fl)] in
         fatalErr (me_Listen M) acts
           (let acts = acts @ [Serve a] in fatalErr (Some (me_Serve M)) acts acts)))"

definition agent_main :: "agent_flags \<Rightarrow> main_env \<Rightarrow> main_action list" where
  "agent_main fl M =
     (let acts = (if TrimSpace (fl_smolvmServe fl) \<noteq> [] then [GoSupervise (fl_smolvmServe fl)] else []) in
      case me_GetConfig M of
        Some e \<Rightarrow> acts @ [Exit 1 (Error e)]
      | None \<Rightarrow> fatalErr (me_NewClient M) acts
          (case newAgent (me_Getenv M) (fl_bindAddr fl) of
             Inl err \<Rightarrow> fatalErr (Some err) acts acts
           | Inr a \<Rightarrow>
               let acts = acts @ [GoReportLoop a (fl_reportInterval fl)] @
                     (if fl_orphanCleanupPolicy fl = ''delete'' then [GoOrphanCleanupLoop a (5 * 60 * 10 ^ 9)] else []) in
               if fl_certFile fl \<noteq> [] \<and> fl_keyFile fl \<noteq> []
               then let acts = acts @ [ListenAndServeTLS a (fl_certFile fl) (fl_keyFile fl)] in
                    fatalErr (Some (me_ListenAndServeTLS M)) acts (serveSelfSigned fl M a acts)
               else serveSelfSigned fl M a acts))"

text \<open>What \<open>main\<close> does, whatever the calls return.\<close>

lemma agent_main_needs_name:
  assumes "me_Getenv M ''NODE_NAME'' = []" and "x \<in> set (agent_main fl M)"
  shows "(\<exists>cmd. x = GoSupervise cmd) \<or> (\<exists>e. x = Exit 1 e)"
  using assms
  by (auto simp: agent_main_def Let_def fatalErr_def newAgent_def getenv_def ErrServerClosed_def split: option.splits if_splits)

lemma serveSelfSigned_done: "x \<in> set (serveSelfSigned fl M a acts) \<Longrightarrow> x \<in> set acts \<or>
    (\<exists>n. x = SelfSigned n) \<or> (\<exists>b. x = Listen b) \<or> x = Serve a \<or> (\<exists>e. x = Exit 1 e)"
  by (auto simp: serveSelfSigned_def fatalErr_def Let_def split: option.splits if_splits)

lemma agent_main_cleanup:
  assumes "GoOrphanCleanupLoop a i \<in> set (agent_main fl M)"
  shows "fl_orphanCleanupPolicy fl = ''delete'' \<and> i = 5 * 60 * 10 ^ 9 \<and> ag_nodeName a \<noteq> []"
  using assms
  by (auto simp: agent_main_def fatalErr_def newAgent_def Let_def split: option.splits if_splits dest!: serveSelfSigned_done)

lemma agent_main_certificate:
  assumes "SelfSigned n \<in> set (agent_main fl M)" and "fl_certFile fl \<noteq> []" and "fl_keyFile fl \<noteq> []"
  shows "me_ListenAndServeTLS M = ErrServerClosed"
  using assms
  by (auto simp: agent_main_def fatalErr_def newAgent_def Let_def split: option.splits if_splits dest!: serveSelfSigned_done)

lemma serveSelfSigned_signs: "SelfSigned (ag_nodeName a) \<in> set (serveSelfSigned fl M a acts)"
  by (auto simp: serveSelfSigned_def fatalErr_def Let_def split: option.splits)

lemma agent_main_falls_through:
  assumes "fl_certFile fl \<noteq> [] \<and> fl_keyFile fl \<noteq> [] \<and> me_GetConfig M = None \<and> me_NewClient M = None \<and>
      me_Getenv M ''NODE_NAME'' \<noteq> []" and "me_ListenAndServeTLS M = ErrServerClosed"
  shows "\<exists>n. SelfSigned n \<in> set (agent_main fl M)"
proof -
  have "\<exists>a acts. agent_main fl M = serveSelfSigned fl M a acts"
    using assms unfolding agent_main_def Let_def by (simp add: fatalErr_def newAgent_def getenv_def Let_def) blast
  then show ?thesis using serveSelfSigned_signs by metis
qed

end
