(* ===== verification/Process_Spec.thy ===== *)
theory Process_Spec
  imports Agent_Process Agent_Spec
begin

text \<open>The properties of the processes: how their loops end and how they start.\<close>

section \<open>Loops\<close>

text \<open>
  C19: the loops of the agent end when their context is cancelled, and only then.  If the \<open>n\<close>-th \<open>select\<close> is
  the first to see the cancellation, the report and the orphan cleanup have been run \<open>n + 1\<close> times, each
  on what the run before it left; if none sees it, they run forever.  The supervised command is restarted
  until a cancellation is seen by a \<open>select\<close> or by the test of the loop, always with the same arguments.
\<close>

theorem loops_end_with_the_context:
  assumes "0 < interval"
  shows "(\<forall>n. first_done wake n \<longrightarrow>
      reportLoop E wake interval a h = Some (Inr (((\<lambda>(a, h). run_state (report E a) h) ^^ Suc n) (a, h))) \<and>
      orphanCleanupLoop E wake interval a h = Some (Inr (((\<lambda>h. snd (run_state (cleanupOrphans E a) h)) ^^ Suc n) h))) \<and>
    ((reportLoop E wake interval a h = None \<longleftrightarrow> (\<forall>n. wake n \<noteq> Done)) \<and>
     (orphanCleanupLoop E wake interval a h = None \<longleftrightarrow> (\<forall>n. wake n \<noteq> Done))) \<and>
    (\<forall>n cancelled. Fields command \<noteq> [] \<and> (cancelled n \<or> wake n = Done) \<and> (\<forall>j < n. \<not> cancelled j \<and> wake j = Tick) \<longrightarrow>
      supervise cancelled wake command = Some (replicate (if cancelled n then n else Suc n) (Fields command))) \<and>
    ((\<exists>started. supervise cancelled wake command = Some started) \<longrightarrow> Fields command = [] \<or> (\<exists>n. cancelled n \<or> wake n = Done))"
proof (intro conjI allI impI)
  show "reportLoop E wake interval a h = Some (Inr (((\<lambda>(a, h). run_state (report E a) h) ^^ Suc n) (a, h)))"
    "orphanCleanupLoop E wake interval a h = Some (Inr (((\<lambda>h. snd (run_state (cleanupOrphans E a) h)) ^^ Suc n) h))"
    if "first_done wake n" for n
    unfolding reportLoop_def orphanCleanupLoop_def by (rule withTicker_ends [OF assms that])+
  show "reportLoop E wake interval a h = None \<longleftrightarrow> (\<forall>n. wake n \<noteq> Done)"
    "orphanCleanupLoop E wake interval a h = None \<longleftrightarrow> (\<forall>n. wake n \<noteq> Done)"
    unfolding reportLoop_def orphanCleanupLoop_def by (rule withTicker_None [OF assms])+
  show "supervise cancelled wake command = Some (replicate (if cancelled n then n else Suc n) (Fields command))"
    if "Fields command \<noteq> [] \<and> (cancelled n \<or> wake n = Done) \<and> (\<forall>j < n. \<not> cancelled j \<and> wake j = Tick)" for n cancelled
    using that superviseLoop_ends [of cancelled 0 n wake "Fields command" "[]"] by (simp add: supervise_def Let_def)
  show "Fields command = [] \<or> (\<exists>n. cancelled n \<or> wake n = Done)"
    if "\<exists>started. supervise cancelled wake command = Some started"
    using that superviseLoop_returned [of cancelled wake "Fields command" 0 "[]"]
    by (auto simp: supervise_def Let_def split: if_splits)
qed

lemma Fields_example: "Fields ''smolvm serve'' = [''smolvm'', ''serve'']"
  by (simp add: Fields_def)

theorem loops_end_with_the_context_witness:
  "\<exists>r. reportLoop quiet_agent_env (\<lambda>i. if i < 2 then Tick else Done) 20 example_agent [] = Some (Inr r) \<and>
     supervise (\<lambda>_. False) (\<lambda>i. if i < 2 then Tick else Done) ''smolvm serve'' =
       Some [[''smolvm'', ''serve''], [''smolvm'', ''serve''], [''smolvm'', ''serve'']]"
proof -
  let ?wake = "\<lambda>i. if i < 2 then Tick else Done"
  have first: "first_done ?wake 2" by (simp add: first_done_def)
  note ends = loops_end_with_the_context [of 20 ?wake quiet_agent_env example_agent "[]" "''smolvm serve''" "\<lambda>_. False"]
  have "reportLoop quiet_agent_env ?wake 20 example_agent [] =
      Some (Inr (((\<lambda>(a, h). run_state (report quiet_agent_env a) h) ^^ Suc 2) (example_agent, [])))"
    using ends [THEN conjunct1, rule_format, OF _ first] by simp
  moreover have "supervise (\<lambda>_. False) ?wake ''smolvm serve'' = Some (replicate (Suc 2) (Fields ''smolvm serve''))"
    using ends [THEN conjunct2, THEN conjunct2, THEN conjunct1, rule_format, of "\<lambda>_. False" 2]
    by (simp add: Fields_example del: replicate.simps)
  ultimately show ?thesis unfolding Fields_example by (simp add: numeral_2_eq_2 del: funpow.simps)
qed

section \<open>Start-up of the agent\<close>

text \<open>
  C35: \<open>main\<close> of the agent reports, cleans up and serves only as a named node: without \<open>NODE_NAME\<close> it exits.
  It starts the orphan cleanup only under the policy \<open>delete\<close>, every five minutes.  With a certificate it
  serves that certificate; the self-signed one is reached after all when that server was shut down,
  because \<open>fatalErr\<close> returns for \<open>ErrServerClosed\<close> and \<open>main\<close> goes on.
\<close>

theorem agent_startup_is_guarded:
  "(me_Getenv M ''NODE_NAME'' = [] \<longrightarrow>
      (\<forall>x \<in> set (agent_main fl M). (\<exists>cmd. x = GoSupervise cmd) \<or> (\<exists>msg. x = Exit 1 msg))) \<and>
   (\<forall>a i. GoOrphanCleanupLoop a i \<in> set (agent_main fl M) \<longrightarrow>
      fl_orphanCleanupPolicy fl = ''delete'' \<and> i = 5 * 60 * 10 ^ 9 \<and> ag_nodeName a \<noteq> []) \<and>
   (fl_certFile fl \<noteq> [] \<and> fl_keyFile fl \<noteq> [] \<and> me_GetConfig M = None \<and> me_NewClient M = None \<and>
      me_Getenv M ''NODE_NAME'' \<noteq> [] \<longrightarrow>
      ((\<exists>n. SelfSigned n \<in> set (agent_main fl M)) \<longleftrightarrow> me_ListenAndServeTLS M = ErrServerClosed))"
proof (intro conjI impI ballI allI iffI)
  show "(\<exists>cmd. x = GoSupervise cmd) \<or> (\<exists>msg. x = Exit 1 msg)"
    if "me_Getenv M ''NODE_NAME'' = []" "x \<in> set (agent_main fl M)" for x
    by (rule agent_main_needs_name [OF that])
  show "fl_orphanCleanupPolicy fl = ''delete''" "i = 5 * 60 * 10 ^ 9" "ag_nodeName a \<noteq> []"
    if "GoOrphanCleanupLoop a i \<in> set (agent_main fl M)" for a i
    using agent_main_cleanup [OF that] by simp_all
  assume fl: "fl_certFile fl \<noteq> [] \<and> fl_keyFile fl \<noteq> [] \<and> me_GetConfig M = None \<and> me_NewClient M = None \<and>
    me_Getenv M ''NODE_NAME'' \<noteq> []"
  show "me_ListenAndServeTLS M = ErrServerClosed" if "\<exists>n. SelfSigned n \<in> set (agent_main fl M)"
    using that agent_main_certificate fl by blast
  show "\<exists>n. SelfSigned n \<in> set (agent_main fl M)" if "me_ListenAndServeTLS M = ErrServerClosed"
    using fl that by (rule agent_main_falls_through)
qed

definition example_flags :: agent_flags where
  "example_flags = \<lparr>fl_bindAddr = '':9443'', fl_certFile = ''tls.crt'', fl_keyFile = ''tls.key'', fl_smolvmServe = [],
     fl_reportInterval = 20 * 10 ^ 9, fl_orphanCleanupPolicy = ''delete''\<rparr>"

definition example_main_env :: main_env where
  "example_main_env = \<lparr>me_Getenv = (\<lambda>k. if k = ''NODE_NAME'' then ''n1'' else []), me_GetConfig = None, me_NewClient = None,
     me_ListenAndServeTLS = ErrServerClosed, me_TLSConfig = None, me_Listen = None, me_Serve = ErrServerClosed\<rparr>"

theorem agent_startup_is_guarded_witness:
  "(\<exists>n. SelfSigned n \<in> set (agent_main example_flags example_main_env)) \<and>
   list_all (\<lambda>x. (\<exists>cmd. x = GoSupervise cmd) \<or> (\<exists>msg. x = Exit 1 msg))
     (agent_main example_flags (example_main_env\<lparr>me_Getenv := (\<lambda>_. [])\<rparr>))"
proof
  show "\<exists>n. SelfSigned n \<in> set (agent_main example_flags example_main_env)"
    using agent_startup_is_guarded [of example_main_env example_flags]
    by (simp add: example_flags_def example_main_env_def)
  show "list_all (\<lambda>x. (\<exists>cmd. x = GoSupervise cmd) \<or> (\<exists>msg. x = Exit 1 msg))
     (agent_main example_flags (example_main_env\<lparr>me_Getenv := (\<lambda>_. [])\<rparr>))"
    using agent_startup_is_guarded [of "example_main_env\<lparr>me_Getenv := (\<lambda>_. [])\<rparr>" example_flags] by (simp add: list_all_iff)
qed

end
