(* ===== verification/Settling_Spec.thy ===== *)
theory Settling_Spec
  imports Settling Example_Runs
begin

text \<open>
  Where repeated reconciliation takes a VM that is bound and has a machine: to the machine the spec asks for,
  or, when the storage of a running machine is to be expanded, nowhere.
\<close>

section \<open>A bound VM in its cluster\<close>

text \<open>The VM \<open>vm\<close> is live and valid, is bound to the reachable node \<open>node\<close> and has the machine \<open>m\<close> there.\<close>

definition has_machine :: "cluster \<Rightarrow> NamespacedName \<Rightarrow> SmolVM \<Rightarrow> SmolVMNode \<Rightarrow> MachineInfo \<Rightarrow> bool" where
  "has_machine c req vm node m \<longleftrightarrow>
     find_vm req (cl_vms c) = Some vm \<and> meta_DeletionTimestamp (vm_Meta vm) = None \<and>
     SmolVMFinalizer \<in> set (vm_Finalizers vm) \<and> spec_valid vm \<and>
     vm_NodeName vm = sn_Name node \<and> sn_Name node \<noteq> [] \<and> status_MachineName (vm_Status vm) \<noteq> [] \<and>
     owner_ready c (sn_Name node) node \<and> cl_machines c (endpoint_of node) (machineNameOf vm) = Some m"

lemma has_machine_stage: "has_machine c req vm node m \<Longrightarrow> stage req vm node (Some m) c"
  by (auto simp: has_machine_def stage_def machineNameOf_def)

lemma has_machine_governed: "has_machine c req vm node m \<Longrightarrow> governed vm node"
  by (auto simp: has_machine_def governed_def spec_valid_def)

section \<open>Convergence\<close>

text \<open>
  A bound VM whose machine agrees with the spec on the immutable fields and has no disk that would have
  to shrink reaches its spec within three reconciliations and stays there: the machine has the wanted disks
  and runs exactly when the spec says so, and the status is Reconciled at its generation with the phase and
  readiness of that machine.  The exception is a running machine whose storage is to grow.
\<close>

lemma bound_vm_settles:
  assumes "has_machine c req vm node m" and "compatible vm m"
    and "\<not> (needsStorageExpansion vm m \<and> mi_State m = ''running'')" and "\<not> rec_RuntimeFactory R"
  shows "let c' = replay c (snd (run_state (reconcileTimes (cluster_env c) R req (3 + n)) [])) in
    cl_machines c' (endpoint_of node) (machineNameOf vm) = Some (wanted vm m) \<and>
    conforms vm (wanted vm m) \<and> spec_Running (vm_Spec vm) = (mi_State (wanted vm m) = ''running'') \<and>
    shows_settled req (sn_Name node) (wanted vm m) c'"
proof -
  have "settles c [] (reconcileTimes (cluster_env c) R req (3 + n))
    (\<lambda>_ c'. stage req vm node (Some (wanted vm m)) c' \<and> shows_settled req (sn_Name node) (wanted vm m) c')"
    by (rule ref.bound_vm_converges)
      (use assms has_machine_stage [OF assms(1)] has_machine_governed [OF assms(1)] in auto)
  then show ?thesis
    using wanted_conforms [OF assms(2)] by (simp add: settles_def split_beta stage_def)
qed

text \<open>The machine of the example VM in state \<open>st\<close>, with half of the storage the spec asks for.\<close>

definition short_machine :: "string \<Rightarrow> MachineInfo" where
  "short_machine st = small_machine\<lparr>mi_State := st\<rparr>"

lemma example_has_machine:
  "has_machine (example_cluster example_bound_vm (Some m)) example_key example_bound_vm example_smolvmnode m"
  using example_owner_ready [of example_bound_vm "Some m"] example_spec_valid
  by (simp add: has_machine_def example_found example_vm_facts example_machines)
    (simp add: example_defs)

lemma short_machine_checks:
  assumes "vm_Spec vm = (vm_Spec example_bound_vm)\<lparr>spec_Running := b\<rparr>"
  shows "compatible vm (short_machine st)" and "needsStorageExpansion vm (short_machine st)"
  using assms
  by (simp_all add: compatible_def validateImmutableRuntimeFields_def validateStorageDoesNotShrink_None samePorts_mset
      needsStorageExpansion_def shrinks_def grows_def short_machine_def small_machine_def example_machine_def example_defs)

lemma short_machine_state [simp]: "mi_State (short_machine st) = st"
  by (simp add: short_machine_def)

section \<open>No progress\<close>

text \<open>
  C37: when the storage of a running machine is to be expanded, no number of reconciliations changes the
  machine, not even when the spec already asks for it to be stopped: the status then keeps asking to set
  \<open>spec.running\<close> to false.
\<close>

theorem expansion_blocks_the_stop:
  assumes "has_machine c req vm node m" and "compatible vm m" and "needsStorageExpansion vm m"
    and "mi_State m = ''running''" and "\<not> spec_Running (vm_Spec vm)" and "\<not> rec_RuntimeFactory R"
  shows "let c' = replay c (snd (run_state (reconcileTimes (cluster_env c) R req (Suc n)) [])) in
    cl_machines c' (endpoint_of node) (machineNameOf vm) = Some m \<and> asks_to_stop req c' \<and>
    (\<exists>vm'. find_vm req (cl_vms c') = Some vm' \<and> \<not> spec_Running (vm_Spec vm'))"
proof -
  have "settles c [] (reconcileTimes (cluster_env c) R req (Suc n))
    (\<lambda>_ c'. stage req vm node (Some m) c' \<and> asks_to_stop req c')"
    by (rule ref.stuck_forever)
      (use assms has_machine_stage [OF assms(1)] has_machine_governed [OF assms(1)] in auto)
  then show ?thesis using assms(5) by (auto simp: settles_def split_beta stage_def)
qed

lemma idle_has_machine:
  "has_machine (example_cluster example_idle_vm (Some m)) example_key example_idle_vm example_smolvmnode m"
  using example_owner_ready [of example_idle_vm "Some m"] idle_vm_facts
  by (simp add: has_machine_def example_machines validateSpec_None [symmetric])
    (simp add: example_idle_vm_def example_defs)

theorem expansion_blocks_the_stop_witness:
  "let m = short_machine ''running''; c = example_cluster example_idle_vm (Some m);
       c' = replay c (snd (run_state (reconcileTimes (cluster_env c) example_reconciler example_key (Suc 9)) [])) in
   cl_machines c' example_api ''m'' = Some m \<and> asks_to_stop example_key c'"
  using expansion_blocks_the_stop [OF idle_has_machine [of "short_machine ''running''"], of example_reconciler 9]
    short_machine_checks [of example_idle_vm False "''running''"] idle_vm_facts by (simp add: example_idle_vm_def [THEN arg_cong, of vm_Spec] example_reconciler_def Let_def)

end
