(* ===== verification/Full_Stack.thy ===== *)
theory Full_Stack
  imports Settling Runtime_Api
begin

text \<open>
  The operator as a whole: the controller's calls to a runtime go through its HTTP client, as bytes, to the
  handlers of the agent on the node, and from there to the smolvm server of the node.  \<open>stack_env\<close> is the
  environment of the controller that is put together this way.  It keeps the contract \<open>cluster_service\<close>,
  so everything that is proved of repeated reconciliation from that contract holds end to end.
\<close>

section \<open>The hosts\<close>

text \<open>An agent, what it finds on its node, and the calls it has made so far.\<close>

record host =
  host_agent :: agent
  host_env :: agent_env
  host_past :: "agent_event list"

text \<open>
  Which host listens at which address; this may change with the history of the cluster (restarts, new
  addresses).
\<close>

type_synonym hosts = "event list \<Rightarrow> SmolVMRuntime \<Rightarrow> host option"

text \<open>The smolvm server of a node keeps the machines of the cluster state.\<close>

definition local_server :: "cluster \<Rightarrow> SmolVMRuntime \<Rightarrow> agent_env \<Rightarrow> agent_env" where
  "local_server c at A = A\<lparr>
     age_GetMachine := (\<lambda>_ n. machine_answer (cl_machines c at n)),
     age_CreateMachine := (\<lambda>_ r. Inr (created_machine r)),
     age_EnsureMachineRunning := (\<lambda>_ n. unit_answer (cl_machines c at n)),
     age_StopMachine := (\<lambda>_ n. unit_answer (cl_machines c at n)),
     age_DeleteMachine := (\<lambda>_ n. unit_answer (cl_machines c at n)),
     age_ResizeMachine := (\<lambda>_ n r. unit_answer (cl_machines c at n))\<rparr>"

section \<open>The controller's environment\<close>

text \<open>A call of the client over the network: \<open>refused\<close> is the result where nobody listens.\<close>

definition over_http ::
  "hosts \<Rightarrow> cluster \<Rightarrow> event list \<Rightarrow> 'r \<Rightarrow> (agent_event list transport \<Rightarrow> Client \<Rightarrow> (agent_event list, 'r) state) \<Rightarrow>
   SmolVMRuntime \<Rightarrow> 'r" where
  "over_http H s h refused m api =
     (case api of
        FactoryRuntime \<Rightarrow> refused
      | HTTPRuntime c \<Rightarrow>
          (case H h (runtime_key api) of
             None \<Rightarrow> refused
           | Some hst \<Rightarrow>
               fst (run_state (m (link (local_server (replay s h) (runtime_key api) (host_env hst)) (host_agent hst) c) c)
                 (host_past hst))))"

definition refusal :: goerror where "refusal = ErrorString ''connection refused''"

definition stack_env :: "(string \<Rightarrow> string) \<Rightarrow> hosts \<Rightarrow> cluster \<Rightarrow> env" where
  "stack_env environ H s = (cluster_env s)\<lparr>
     env_Getenv := environ,
     env_Health := (\<lambda>h. over_http H s h (Inl refusal) client_Health),
     env_GetIdentity := (\<lambda>h. over_http H s h (Inl refusal) client_GetIdentity),
     env_Capabilities := (\<lambda>h. over_http H s h (Inl refusal) client_Capabilities),
     env_GetMachine := (\<lambda>h api n. over_http H s h (Inl refusal) (\<lambda>T c. client_GetMachine T c n) api),
     env_CreateMachine := (\<lambda>h api r. over_http H s h (Inl refusal) (\<lambda>T c. client_CreateMachine T c r) api),
     env_EnsureMachineRunning :=
       (\<lambda>h api n. over_http H s h (Some refusal) (\<lambda>T c. client_EnsureMachineRunning T c n) api),
     env_StopMachine := (\<lambda>h api n. over_http H s h (Some refusal) (\<lambda>T c. client_StopMachine T c n) api),
     env_DeleteMachine := (\<lambda>h api n. over_http H s h (Some refusal) (\<lambda>T c. client_DeleteMachine T c n) api),
     env_ResizeMachine := (\<lambda>h api n r. over_http H s h (Some refusal) (\<lambda>T c. client_ResizeMachine T c n r) api)\<rparr>"

text \<open>
  The agent of a node as its \<open>SmolVMNode\<close> describes it, healthy, and with the token of the controller or
  none.
\<close>

definition hosts_node :: "string \<Rightarrow> SmolVMNode \<Rightarrow> host \<Rightarrow> bool" where
  "hosts_node token node hst \<longleftrightarrow>
     ag_nodeName (host_agent hst) = sn_Name node \<and> ag_nodeUID (host_agent hst) = ns_NodeUID (sn_Status node) \<and>
     ns_ProtocolVersion (sn_Status node) = protocolVersion \<and> ag_token (host_agent hst) \<in> {[], token} \<and>
     valid_utf8 (sn_Name node) \<and> valid_utf8 (ns_NodeUID (sn_Status node)) \<and> valid_utf8 (ag_version (host_agent hst)) \<and>
     health_OK (fst (run_state (health (host_env hst)) (host_past hst)))"

definition well_hosted :: "(string \<Rightarrow> string) \<Rightarrow> hosts \<Rightarrow> cluster \<Rightarrow> bool" where
  "well_hosted environ H s \<longleftrightarrow>
     (\<forall>h node. behind (replay s h) (endpoint_of node) = Some node \<longrightarrow>
        (\<exists>hst. H h (endpoint_of node) = Some hst \<and> hosts_node (environ ''SMOLVM_RUNTIME_TOKEN'') node hst))"

section \<open>The contract\<close>

lemma local_server_frame:
  "age_Stat (local_server c at A) = age_Stat A" "age_CreateTemp (local_server c at A) = age_CreateTemp A"
  by (simp_all add: local_server_def)

lemma health_local [simp]: "health (local_server c at A) = health A"
  unfolding health_def pathExists_def dirWritable_def isCharDevice_def ag_Stat_def local_server_frame ..

lemma local_server_machines [simp]:
  "age_GetMachine (local_server c at A) g n = machine_answer (cl_machines c at n)"
  "age_CreateMachine (local_server c at A) g r = Inr (created_machine r)"
  "age_EnsureMachineRunning (local_server c at A) g n = unit_answer (cl_machines c at n)"
  "age_StopMachine (local_server c at A) g n = unit_answer (cl_machines c at n)"
  "age_DeleteMachine (local_server c at A) g n = unit_answer (cl_machines c at n)"
  "age_ResizeMachine (local_server c at A) g n rr = unit_answer (cl_machines c at n)"
  by (simp_all add: local_server_def)

text \<open>The client that the controller makes for the endpoint of a node.\<close>

definition clientFor :: "(string \<Rightarrow> string) \<Rightarrow> SmolVMNode \<Rightarrow> Client" where
  "clientFor environ node = NewClientWithAuth
     (''https://'' @ ep_PodIP (ns_Endpoint (sn_Status node)) @ '':'' @
      int_dec (sint (ep_Port (ns_Endpoint (sn_Status node))))) []
     (environ ''SMOLVM_RUNTIME_TOKEN'') (environ ''SMOLVM_RUNTIME_INSECURE_SKIP_VERIFY'' = ''true'')"

lemma nodeClient_stack: "nodeClient (stack_env environ H s) (ns_Endpoint (sn_Status node)) = HTTPRuntime (clientFor environ node)"
  by (simp add: nodeClient_def clientFor_def stack_env_def)

lemma over_http_node:
  assumes "H h (endpoint_of node) = Some hst"
  shows "over_http H s h refused m (HTTPRuntime (clientFor environ node)) =
    fst (run_state (m (link (local_server (replay s h) (endpoint_of node) (host_env hst)) (host_agent hst)
      (clientFor environ node)) (clientFor environ node)) (host_past hst))"
proof -
  have "runtime_key (HTTPRuntime (clientFor environ node)) = endpoint_of node"
    using runtime_key_endpoint(2) [of "stack_env environ H s" node] by (simp only: nodeClient_stack)
  with assms show ?thesis by (simp add: over_http_def)
qed

lemma capabilityReport_protocol [simp]: "cap_ProtocolVersion (fst (run_state (capabilityReport E a) g)) = protocolVersion"
  by (simp add: capabilityReport_def Let_def split_def)

lemma well_hostedE:
  assumes "well_hosted environ H s" and "behind (replay s h) (endpoint_of node) = Some node"
  obtains hst where "H h (endpoint_of node) = Some hst" and "hosts_node (environ ''SMOLVM_RUNTIME_TOKEN'') node hst"
    and "authorised (clientFor environ node) (host_agent hst)"
  using assms by (fastforce simp: well_hosted_def hosts_node_def authorised_def clientFor_def NewClientWithAuth_def)

lemma stack_probe_answers:
  assumes "well_hosted environ H s" and "behind (replay s h) (endpoint_of node) = Some node"
  defines "E \<equiv> stack_env environ H s"
  shows "\<exists>hl. env_Health E h (nodeClient E (ns_Endpoint (sn_Status node))) = Inr hl \<and> health_OK hl"
    and "env_GetIdentity E h (nodeClient E (ns_Endpoint (sn_Status node))) =
        Inr \<lparr>id_NodeName = sn_Name node, id_NodeUID = ns_NodeUID (sn_Status node)\<rparr>"
    and "\<exists>cap. env_Capabilities E h (nodeClient E (ns_Endpoint (sn_Status node))) = Inr cap \<and>
        cap_ProtocolVersion cap = ns_ProtocolVersion (sn_Status node)"
proof -
  obtain hst where H: "H h (endpoint_of node) = Some hst" and node: "hosts_node (environ ''SMOLVM_RUNTIME_TOKEN'') node hst"
    and auth: "authorised (clientFor environ node) (host_agent hst)" by (rule well_hostedE [OF assms(1,2)])
  show "\<exists>hl. env_Health E h (nodeClient E (ns_Endpoint (sn_Status node))) = Inr hl \<and> health_OK hl"
    using node unfolding E_def nodeClient_stack hosts_node_def
    by (simp add: stack_env_def over_http_node [of H h node hst, OF H] client_Health_agent [OF auth] split_beta health_seen_def)
  show "env_GetIdentity E h (nodeClient E (ns_Endpoint (sn_Status node))) =
      Inr \<lparr>id_NodeName = sn_Name node, id_NodeUID = ns_NodeUID (sn_Status node)\<rparr>"
    using node unfolding E_def nodeClient_stack hosts_node_def
    by (simp add: stack_env_def over_http_node [of H h node hst, OF H] client_GetIdentity_agent [OF auth])
  show "\<exists>cap. env_Capabilities E h (nodeClient E (ns_Endpoint (sn_Status node))) = Inr cap \<and>
      cap_ProtocolVersion cap = ns_ProtocolVersion (sn_Status node)"
    using node unfolding E_def nodeClient_stack hosts_node_def
    by (simp add: stack_env_def over_http_node [of H h node hst, OF H] client_Capabilities_agent [OF auth] split_beta)
qed

lemma stack_machine_answers:
  assumes "well_hosted environ H s" and "behind (replay s h) (endpoint_of node) = Some node"
  defines "E \<equiv> stack_env environ H s" and "mo \<equiv> cl_machines (replay s h) (endpoint_of node)"
  shows "plain n \<Longrightarrow> relays text_MachineInfo (machine_answer (mo n))
      (env_GetMachine E h (nodeClient E (ns_Endpoint (sn_Status node))) n)"
    and "text_CreateMachineRequest r \<Longrightarrow> relays text_MachineInfo (Inr (created_machine r))
      (env_CreateMachine E h (nodeClient E (ns_Endpoint (sn_Status node))) r)"
    and "plain n \<Longrightarrow> relays_error (unit_answer (mo n))
      (env_EnsureMachineRunning E h (nodeClient E (ns_Endpoint (sn_Status node))) n)"
    and "plain n \<Longrightarrow> relays_error (unit_answer (mo n))
      (env_StopMachine E h (nodeClient E (ns_Endpoint (sn_Status node))) n)"
    and "plain n \<Longrightarrow> relays_error (unit_answer (mo n))
      (env_DeleteMachine E h (nodeClient E (ns_Endpoint (sn_Status node))) n)"
    and "plain n \<Longrightarrow> relays_error (unit_answer (mo n))
      (env_ResizeMachine E h (nodeClient E (ns_Endpoint (sn_Status node))) n rr)"
proof -
  obtain hst where H: "H h (endpoint_of node) = Some hst"
    and auth: "authorised (clientFor environ node) (host_agent hst)" by (rule well_hostedE [OF assms(1,2)])
  let ?A = "local_server (replay s h) (endpoint_of node) (host_env hst)"
  note calls = client_machine_calls [where E = ?A and h = "host_past hst", OF auth, THEN reaches_result]
    client_create_call [where E = ?A and h = "host_past hst", OF auth, THEN reaches_result]
  show "plain n \<Longrightarrow> relays text_MachineInfo (machine_answer (mo n))
      (env_GetMachine E h (nodeClient E (ns_Endpoint (sn_Status node))) n)"
    unfolding E_def mo_def nodeClient_stack using calls(1) by (simp add: stack_env_def over_http_node [of H h node hst, OF H])
  show "text_CreateMachineRequest r \<Longrightarrow> relays text_MachineInfo (Inr (created_machine r))
      (env_CreateMachine E h (nodeClient E (ns_Endpoint (sn_Status node))) r)"
    unfolding E_def mo_def nodeClient_stack using calls(6) by (simp add: stack_env_def over_http_node [of H h node hst, OF H])
  show "plain n \<Longrightarrow> relays_error (unit_answer (mo n))
      (env_EnsureMachineRunning E h (nodeClient E (ns_Endpoint (sn_Status node))) n)"
    unfolding E_def mo_def nodeClient_stack using calls(2) by (simp add: stack_env_def over_http_node [of H h node hst, OF H])
  show "plain n \<Longrightarrow> relays_error (unit_answer (mo n))
      (env_StopMachine E h (nodeClient E (ns_Endpoint (sn_Status node))) n)"
    unfolding E_def mo_def nodeClient_stack using calls(3) by (simp add: stack_env_def over_http_node [of H h node hst, OF H])
  show "plain n \<Longrightarrow> relays_error (unit_answer (mo n))
      (env_DeleteMachine E h (nodeClient E (ns_Endpoint (sn_Status node))) n)"
    unfolding E_def mo_def nodeClient_stack using calls(4) by (simp add: stack_env_def over_http_node [of H h node hst, OF H])
  show "plain n \<Longrightarrow> relays_error (unit_answer (mo n))
      (env_ResizeMachine E h (nodeClient E (ns_Endpoint (sn_Status node))) n rr)"
    unfolding E_def mo_def nodeClient_stack using calls(5) by (simp add: stack_env_def over_http_node [of H h node hst, OF H])
qed

lemma relays_simps [simp]:
  "relays ok (Inr x) r \<longleftrightarrow> (ok x \<longrightarrow> r = Inr x)"
  "relays ok (Inl (APIError 404 msg)) r \<longleftrightarrow> (\<exists>e. r = Inl e \<and> IsNotFound e)"
  "relays_error None e \<longleftrightarrow> e = None"
  "relays_error (Some (APIError 404 msg)) e \<longleftrightarrow> (\<exists>e'. e = Some e' \<and> IsNotFound e')"
  by (auto simp: relays_def relays_error_def not_found_def)

lemma stack_api_server: "api_server (stack_env environ H s) s"
  by unfold_locales (simp_all add: stack_env_def)

lemma text_created: "text_CreateMachineRequest r \<Longrightarrow> text_MachineInfo (created_machine r)"
  by (simp add: text_MachineInfo_def created_machine_def text_CreateMachineRequest_def valid_utf8_ascii)

lemma stack_service:
  assumes "well_hosted environ H s"
  shows "cluster_service (stack_env environ H s) s plain text_MachineInfo text_CreateMachineRequest"
proof (intro cluster_service.intro stack_api_server cluster_service_axioms.intro, goal_cases)
  case (1 h node) then show ?case by (rule stack_probe_answers [OF assms])
next
  case (2 h node) then show ?case by (rule stack_probe_answers [OF assms])
next
  case (3 h node) then show ?case by (rule stack_probe_answers [OF assms])
next
  case (4 h node n m) then show ?case using stack_machine_answers(1) [OF assms 4(1,2)] by simp
next
  case (5 h node n) then show ?case using stack_machine_answers(1) [OF assms 5(1,2)] by simp
next
  case (6 h node r) then show ?case using stack_machine_answers(2) [OF assms 6] text_created by simp
next
  case (7 h node n m rr) then show ?case using stack_machine_answers(3-6) [OF assms 7(1,2)] by simp
next
  case (8 h node n) then show ?case using stack_machine_answers(5) [OF assms 8(1,2)] by simp
qed (use text_created in \<open>auto simp: text_MachineInfo_def resized_machine_def valid_utf8_ascii\<close>)

end
