(* ===== verification/Stack_Spec.thy ===== *)
theory Stack_Spec
  imports Full_Stack Settling_Spec Agent_Spec
begin

text \<open>
  The operator end to end: controller, HTTP client, JSON, agent and the smolvm servers of the nodes put
  together.
\<close>

section \<open>Names and texts that the API server admits\<close>

definition dns_name :: "string \<Rightarrow> bool" where
  "dns_name s \<longleftrightarrow> list_all (\<lambda>c. c \<in> set ''abcdefghijklmnopqrstuvwxyz0123456789-.'') s"

text \<open>Kubernetes names are DNS names, and the strings of an object are valid UTF-8.\<close>

definition api_text :: "SmolVM \<Rightarrow> bool" where
  "api_text vm \<longleftrightarrow> dns_name (vm_Namespace vm) \<and> dns_name (vm_Name vm) \<and>
     valid_utf8 (spec_Image (vm_Spec vm)) \<and> valid_utf8 (spec_From (vm_Spec vm)) \<and>
     list_all valid_utf8 (net_AllowedCIDRs (spec_Network (vm_Spec vm)))"

lemma dns_alphabet: "list_all (\<lambda>c. byte c < 0x80 \<and> c \<noteq> CHR ''/'') ''abcdefghijklmnopqrstuvwxyz0123456789-.''"
  by code_simp

lemma dns_chars: "dns_name s \<Longrightarrow> c \<in> set s \<Longrightarrow> byte c < 0x80 \<and> c \<noteq> CHR ''/''"
  using dns_alphabet unfolding dns_name_def list_all_iff by blast

lemma dns_hex: "dns_name (take n (EncodeToString bs))"
proof -
  have "set ''0123456789abcdef'' \<subseteq> set ''abcdefghijklmnopqrstuvwxyz0123456789-.''" by code_simp
  then show ?thesis
    unfolding dns_name_def list_all_iff using EncodeToString_hex [of _ bs] by (meson in_set_takeD subsetD)
qed

lemma stableMachineName_carried:
  assumes "api_text vm"
  shows "plain (stableMachineName vm)" and "valid_utf8 (stableMachineName vm)"
proof -
  have "dns_name (stableMachineName vm)"
    using assms dns_hex [of 10 "Sum256 (vm_UID vm)"]
    by (simp add: stableMachineName_def Let_def api_text_def) (simp add: dns_name_def)
  then have "byte c < 0x80 \<and> c \<noteq> CHR ''/''" if "c \<in> set (stableMachineName vm)" for c
    using dns_chars that by blast
  note chars = this
  obtain rest where "stableMachineName vm = CHR ''k'' # rest" by (simp add: stableMachineName_def Let_def)
  then have "stableMachineName vm \<notin> {[], ''.'', ''..''}" by simp
  then show "plain (stableMachineName vm)" unfolding plain_def using chars by blast
  show "valid_utf8 (stableMachineName vm)" by (rule valid_utf8_ascii) (use chars in blast)
qed

lemma buildCreateRequest_carried:
  assumes "api_text vm" and "valid_utf8 n"
  shows "text_CreateMachineRequest (buildCreateRequest vm n)"
  using assms by (simp add: text_CreateMachineRequest_def buildCreateRequest_def api_text_def)

section \<open>The lifecycle\<close>

text \<open>A new VM that the scheduler would bind to \<open>node\<close>, and a deleted VM whose node is reachable.\<close>

definition awaits_machine :: "cluster \<Rightarrow> NamespacedName \<Rightarrow> SmolVM \<Rightarrow> SmolVMNode \<Rightarrow> bool" where
  "awaits_machine c req vm node \<longleftrightarrow>
     find_vm req (cl_vms c) = Some vm \<and> distinct (map vm_key (cl_vms c)) \<and>
     meta_DeletionTimestamp (vm_Meta vm) = None \<and> SmolVMFinalizer \<notin> set (vm_Finalizers vm) \<and>
     vm_NodeName vm = [] \<and> status_MachineName (vm_Status vm) = [] \<and> spec_NodeName (vm_Spec vm) = [] \<and> spec_valid vm \<and>
     find (accepts c vm) (cl_smolvmnodes c) = Some node \<and> sn_Name node \<noteq> [] \<and> owner_ready c (sn_Name node) node \<and>
     cl_machines c (endpoint_of node) (machineNameOf vm) = None"

definition awaits_release :: "cluster \<Rightarrow> NamespacedName \<Rightarrow> SmolVM \<Rightarrow> SmolVMNode \<Rightarrow> bool" where
  "awaits_release c req vm node \<longleftrightarrow>
     find_vm req (cl_vms c) = Some vm \<and> meta_DeletionTimestamp (vm_Meta vm) \<noteq> None \<and>
     set (vm_Finalizers vm) \<subseteq> {SmolVMFinalizer} \<and> vm_NodeName vm \<noteq> [] \<and> owner_ready c (vm_NodeName vm) node"

text \<open>The machine of the VM is \<open>m\<close>, it is what the spec asks for, and the status says so.\<close>

definition serves_spec :: "NamespacedName \<Rightarrow> SmolVM \<Rightarrow> SmolVMNode \<Rightarrow> MachineInfo \<Rightarrow> cluster \<Rightarrow> bool" where
  "serves_spec req vm node m c \<longleftrightarrow>
     cl_machines c (endpoint_of node) (machineNameOf vm) = Some m \<and> conforms vm m \<and>
     spec_Running (vm_Spec vm) = (mi_State m = ''running'') \<and> shows_settled req (sn_Name node) m c"

text \<open>
  C6: the operator works end to end.  Where every call of the controller to a runtime goes through its HTTP
  client, is printed as JSON, routed and decoded by the agent of the node and made on the smolvm server
  there, and where the agents are as their \<open>SmolVMNode\<close> objects describe them: five reconciliations take a
  new VM to the machine its spec asks for; three take a bound VM there, unless the storage of a running
  machine is to grow; and one reconciliation of a deleted VM removes its machine and its object.
\<close>

theorem operator_end_to_end:
  assumes "well_hosted environ H c" and "\<not> rec_RuntimeFactory R"
  shows "(awaits_machine c req vm node \<and> api_text vm \<longrightarrow>
      serves_spec req vm node (wanted vm (new_machine vm))
        (replay c (snd (run_state (reconcileTimes (stack_env environ H c) R req (5 + n)) [])))) \<and>
    (has_machine c req vm node m \<and> plain (machineNameOf vm) \<and> text_MachineInfo m \<and> compatible vm m \<and>
      \<not> (needsStorageExpansion vm m \<and> mi_State m = ''running'') \<longrightarrow>
      serves_spec req vm node (wanted vm m)
        (replay c (snd (run_state (reconcileTimes (stack_env environ H c) R req (3 + n)) [])))) \<and>
    (awaits_release c req vm node \<and> plain (machineNameOf vm) \<longrightarrow>
      (let c' = replay c (snd (run_state (Reconcile (stack_env environ H c) R req) [])) in
       find_vm req (cl_vms c') = None \<and> cl_machines c' (endpoint_of node) (machineNameOf vm) = None))"
proof (intro conjI impI)
  note service = stack_service [OF assms(1)]
  show "serves_spec req vm node (wanted vm (new_machine vm))
      (replay c (snd (run_state (reconcileTimes (stack_env environ H c) R req (5 + n)) [])))"
    if "awaits_machine c req vm node \<and> api_text vm"
  proof -
    have "machineNameOf vm = stableMachineName vm" using that by (simp add: awaits_machine_def machineNameOf_def)
    then have "plain (machineNameOf vm)" "text_CreateMachineRequest (buildCreateRequest vm (machineNameOf vm))"
      using that stableMachineName_carried buildCreateRequest_carried by auto
    moreover have "compatible vm (new_machine vm)" using new_machine_conforms(1) by (simp add: conforms_compatible)
    ultimately show ?thesis
      using that assms(2) wanted_conforms [of vm "new_machine vm"] cluster_service.new_vm_converges [OF service, of req vm node R n]
      by (simp add: awaits_machine_def serves_spec_def settles_def split_beta)
  qed
  show "serves_spec req vm node (wanted vm m)
      (replay c (snd (run_state (reconcileTimes (stack_env environ H c) R req (3 + n)) [])))"
    if "has_machine c req vm node m \<and> plain (machineNameOf vm) \<and> text_MachineInfo m \<and> compatible vm m \<and>
      \<not> (needsStorageExpansion vm m \<and> mi_State m = ''running'')"
    using that assms(2) has_machine_stage [of c req vm node m] has_machine_governed [of c req vm node m]
      wanted_conforms [of vm m] cluster_service.bound_vm_converges [OF service, of req vm node m "[]" R n]
    by (simp add: serves_spec_def settles_def split_beta stage_def)
  show "let c' = replay c (snd (run_state (Reconcile (stack_env environ H c) R req) [])) in
      find_vm req (cl_vms c') = None \<and> cl_machines c' (endpoint_of node) (machineNameOf vm) = None"
    if "awaits_release c req vm node \<and> plain (machineNameOf vm)"
    using that assms(2) cluster_service.deleted_vm_released [OF service, of req "[]" vm "vm_NodeName vm" node R]
    by (simp add: awaits_release_def settles_def split_beta Let_def)
qed

text \<open>The example cluster with an agent on its node that demands a token.\<close>

definition example_hosts :: hosts where
  "example_hosts h api = (if api = example_api
     then Some \<lparr>host_agent = example_agent\<lparr>ag_nodeUID := ''nu1''\<rparr>, host_env = quiet_agent_env, host_past = []\<rparr> else None)"

definition example_environ :: "string \<Rightarrow> string" where
  "example_environ key = (if key = ''SMOLVM_RUNTIME_TOKEN'' then ''secret'' else [])"

lemma apply_event_nodes [simp]: "cl_smolvmnodes (apply_event c e) = cl_smolvmnodes c"
  by (induction c e rule: apply_event.induct) (auto simp: store_vm_def change_machine_def)

lemma replay_nodes [simp]: "cl_smolvmnodes (replay c h) = cl_smolvmnodes c"
  by (induction h arbitrary: c) simp_all

lemma example_well_hosted: "well_hosted example_environ example_hosts (example_cluster vm m)"
proof -
  have "node = example_smolvmnode" if "behind (replay (example_cluster vm m) h) api = Some node" for api node h
    using that by (auto simp: behind_def example_cluster_def split: if_splits)
  moreover have "hosts_node ''secret'' example_smolvmnode
      \<lparr>host_agent = example_agent\<lparr>ag_nodeUID := ''nu1''\<rparr>, host_env = quiet_agent_env, host_past = []\<rparr>"
    by (simp add: hosts_node_def example_agent_def quiet_agent_env_def example_smolvmnode_def protocolVersion_def zero_values
        valid_utf8_ascii health_def pathExists_def dirWritable_def isCharDevice_def ag_Stat_def)
  ultimately show ?thesis by (auto simp: well_hosted_def example_hosts_def example_environ_def)
qed

theorem operator_end_to_end_witness:
  "let c = example_cluster example_bound_vm (Some (short_machine ''stopped''));
       c' = replay c (snd (run_state (reconcileTimes (stack_env example_environ example_hosts c) example_reconciler
         example_key (3 + 0)) [])) in
   serves_spec example_key example_bound_vm example_smolvmnode (wanted example_bound_vm (short_machine ''stopped'')) c'"
proof -
  have "text_MachineInfo (short_machine ''stopped'')" "plain ''m''"
    by (simp_all add: text_MachineInfo_def short_machine_def small_machine_def example_machine_def valid_utf8_ascii plain_def)
  moreover have "\<not> rec_RuntimeFactory example_reconciler" by (simp add: example_reconciler_def)
  moreover have "compatible example_bound_vm (short_machine ''stopped'')"
    by (rule short_machine_checks(1) [of _ True]) (simp add: example_defs)
  ultimately show ?thesis
    using operator_end_to_end [OF example_well_hosted, of example_reconciler example_bound_vm
        "Some (short_machine ''stopped'')" example_key example_bound_vm example_smolvmnode 0 "short_machine ''stopped''"]
      example_has_machine [of "short_machine ''stopped''"] by (simp add: Let_def)
qed

end
