(* ===== verification/Status_Schema.thy ===== *)
theory Status_Schema
  imports Reconciler Go_Utf8
begin

text \<open>
  The schema of the status subresource (\<open>src/config/crd/bases/vm.smolvm.dev_smolvms.yaml\<close>, generated from
  \<open>src/api/v1alpha1/smolvm_types.go\<close>), against which the API server checks every status that the controller
  writes, and the proof that every status it writes has the right shape.
\<close>

section \<open>The schema\<close>

definition lower_digit :: "char \<Rightarrow> bool" where
  "lower_digit c \<longleftrightarrow> c \<in> set ''abcdefghijklmnopqrstuvwxyz0123456789''"

definition letter :: "char \<Rightarrow> bool" where
  "letter c \<longleftrightarrow> c \<in> set ''abcdefghijklmnopqrstuvwxyzABCDEFGHIJKLMNOPQRSTUVWXYZ''"

definition alnum :: "char \<Rightarrow> bool" where
  "alnum c \<longleftrightarrow> letter c \<or> c \<in> set ''0123456789''"

text \<open>The pattern of \<open>reason\<close>: \<open>[A-Za-z]([A-Za-z0-9_,:]*[A-Za-z0-9_])?\<close>.\<close>

definition reason_pattern :: "string \<Rightarrow> bool" where
  "reason_pattern s \<longleftrightarrow> s \<noteq> [] \<and> letter (hd s) \<and>
     (tl s = [] \<or> (alnum (last s) \<or> last s = CHR ''_'') \<and> list_all (\<lambda>c. alnum c \<or> c \<in> set ''_,:'') (tl s))"

text \<open>The pattern of \<open>type\<close>: a name, or a name with a DNS subdomain and a slash before it.\<close>

definition type_name :: "string \<Rightarrow> bool" where
  "type_name s \<longleftrightarrow> s \<noteq> [] \<and> alnum (hd s) \<and> alnum (last s) \<and> list_all (\<lambda>c. alnum c \<or> c \<in> set ''-_.'') s"

definition dns_label :: "string \<Rightarrow> bool" where
  "dns_label s \<longleftrightarrow> s \<noteq> [] \<and> lower_digit (hd s) \<and> lower_digit (last s) \<and> list_all (\<lambda>c. lower_digit c \<or> c = CHR ''-'') s"

definition type_pattern :: "string \<Rightarrow> bool" where
  "type_pattern s \<longleftrightarrow>
     (case Split CHR ''/'' s of
        [name] \<Rightarrow> type_name name
      | [domain, name] \<Rightarrow> list_all dns_label (Split CHR ''.'' domain) \<and> type_name name
      | _ \<Rightarrow> False)"

text \<open>\<open>maxLength\<close> counts characters, not bytes: the bytes that do not continue a UTF-8 sequence.\<close>

definition rune_count :: "string \<Rightarrow> nat" where
  "rune_count s = length (filter (\<lambda>c. \<not> continuation c) s)"

definition status_enum :: "ConditionStatus \<Rightarrow> bool" where
  "status_enum st \<longleftrightarrow> st \<in> {ConditionTrue, ConditionFalse, ConditionUnknown}"

definition reason_ok :: "string \<Rightarrow> bool" where
  "reason_ok r \<longleftrightarrow> reason_pattern r \<and> rune_count r \<le> 1024"

definition message_fits :: "string \<Rightarrow> bool" where
  "message_fits m \<longleftrightarrow> rune_count m \<le> 32768"

text \<open>One condition without and with the bound on its message; then the whole status.\<close>

definition condition_shape :: "Condition \<Rightarrow> bool" where
  "condition_shape c \<longleftrightarrow> type_pattern (cond_Type c) \<and> rune_count (cond_Type c) \<le> 316 \<and> status_enum (cond_Status c) \<and>
     reason_ok (cond_Reason c) \<and> 0 \<le> sint (cond_ObservedGeneration c)"

definition schema_condition :: "Condition \<Rightarrow> bool" where
  "schema_condition c \<longleftrightarrow> condition_shape c \<and> message_fits (cond_Message c)"

definition schema_status :: "SmolVMStatus \<Rightarrow> bool" where
  "schema_status st \<longleftrightarrow> list_all schema_condition (status_Conditions st) \<and> list_all schema_port (status_Ports st)"

section \<open>The inputs of the status writer\<close>

definition phases :: "string list" where
  "phases = [''Pending'', ''Scheduled'', ''Created'', ''Running'', ''Stopped'', ''Failed'', ''Deleting'', ''Unknown'']"

definition complete_input :: "statusInput \<Rightarrow> bool" where
  "complete_input inp \<longleftrightarrow> in_Phase inp \<in> set phases \<and> in_MachineName inp \<noteq> [] \<and>
     status_enum (in_Ready inp) \<and> reason_ok (in_ReadyReason inp) \<and>
     status_enum (in_Recon inp) \<and> reason_ok (in_ReconReason inp) \<and>
     (in_ScheduledReason inp = [] \<or> status_enum (in_Scheduled inp) \<and> reason_ok (in_ScheduledReason inp)) \<and>
     (in_DeletionBlockedReason inp = [] \<or> status_enum (in_DeletionBlocked inp) \<and> reason_ok (in_DeletionBlockedReason inp))"

lemma reasons_ok [simp]:
  "reason_ok ''Bound''" "reason_ok ''NoEligibleNodes''" "reason_ok ''AwaitingNodeAssignment''" "reason_ok ''Scheduled''"
  "reason_ok ''RuntimePending''" "reason_ok ''RuntimeUnavailable''" "reason_ok ''DeletionBlocked''" "reason_ok ''Observed''"
  "reason_ok ''UnsupportedUpdate''" "reason_ok ''InvalidStorageResize''" "reason_ok ''ResizePending''"
  "reason_ok ''ResizeRequiresStoppedMachine''" "reason_ok ''Reconciled''" "reason_ok ''Created''" "reason_ok ''StartPending''"
  "reason_ok ''InvalidSpec''" "reason_ok ''GuestReadinessUnavailable''"
  by code_simp+

lemma types_ok [simp]:
  "type_pattern ConditionScheduled" "type_pattern ConditionReady" "type_pattern ConditionRuntimeReady"
  "type_pattern ConditionGuestReady" "type_pattern ConditionReconciled" "type_pattern ConditionDeletionBlocked"
  "rune_count ConditionScheduled \<le> 316" "rune_count ConditionReady \<le> 316" "rune_count ConditionRuntimeReady \<le> 316"
  "rune_count ConditionGuestReady \<le> 316" "rune_count ConditionReconciled \<le> 316" "rune_count ConditionDeletionBlocked \<le> 316"
  by code_simp+

lemma status_enum_simps [simp]:
  "status_enum ConditionTrue" "status_enum ConditionFalse" "status_enum ConditionUnknown" "status_enum (readyFromMachine m)"
  by (simp_all add: status_enum_def readyFromMachine_def)

lemma phases_simps [simp]: "phaseFromMachine m \<in> set phases"
  by (simp add: phaseFromMachine_def phases_def)

lemma inputs_complete [simp]:
  assumes "machineName \<noteq> []"
  shows "complete_input (unavailableInput n machineName err)" "complete_input (blockedInput n machineName err)"
    "complete_input (createdInput n machineName m)" "complete_input (pendingInput machineName msg)"
    "complete_input (scheduledInput n machineName)" "complete_input (invalidInput n machineName err)"
    "reason_ok r \<Longrightarrow> complete_input ((observedInput n machineName m)\<lparr>in_ReconReason := r, in_ReconMsg := msg\<rparr>)"
    "reason_ok r \<Longrightarrow> complete_input ((observedInput n machineName m)\<lparr>in_ReadyReason := r, in_ReadyMsg := msg', in_ReconReason := r', in_ReconMsg := msg\<rparr>) \<longleftrightarrow> reason_ok r'"
    "complete_input ((observedInput n machineName m)\<lparr>in_Recon := ConditionTrue, in_ReconReason := ''Reconciled'', in_ReconMsg := msg\<rparr>)"
  using assms
  by (simp_all add: complete_input_def unavailableInput_def blockedInput_def createdInput_def pendingInput_def
      scheduledInput_def invalidInput_def observedInput_def emptyInput_def) (simp_all add: phases_def)

section \<open>The new conditions\<close>

lemma setCondition_shape:
  assumes "list_all condition_shape cs" and "type_pattern ty" and "rune_count ty \<le> 316" and "status_enum st"
    and "reason_ok r" and "0 \<le> sint gen"
  shows "list_all condition_shape (setCondition now cs ty st r m gen)"
  using assms(1) by (induction cs) (use assms(2-) in \<open>auto simp: condition_shape_def Let_def\<close>)

lemma nextConditions_shape:
  assumes "complete_input inp" and "list_all condition_shape cs" and "0 \<le> sint gen"
  shows "list_all condition_shape (nextConditions t gen inp cs)"
  using assms unfolding nextConditions_def
  by (auto simp: Let_def complete_input_def defaultScheduled_def intro!: setCondition_shape)

section \<open>Every status that is written\<close>

text \<open>A status write computes the next status of an object that was read, from a complete input.\<close>

definition typed_write :: "event list \<Rightarrow> event \<Rightarrow> bool" where
  "typed_write pre e \<longleftrightarrow>
     (case e of
        EvUpdateVMStatus v _ \<Rightarrow> (\<exists>k latest inp t. EvGetVM k (Inr latest) \<in> set pre \<and>
          v = latest\<lparr>vm_Status := nextStatus t latest inp\<rparr> \<and> complete_input inp)
      | _ \<Rightarrow> True)"

lemma typed_write_simps [simp]:
  "typed_write pre (EvNow x1)" "typed_write pre (EvGetVM k r)" "typed_write pre (EvRecord v ty reason msg)"
  "typed_write pre (EvGetMachine api n g)" "typed_write pre (EvUpdateVM v x)" "typed_write pre (EvCreateMachine api q y)"
  "typed_write pre (EvEnsureMachineRunning api n x)" "typed_write pre (EvStopMachine api n x)"
  "typed_write pre (EvDeleteMachine api n x)" "typed_write pre (EvResizeMachine api n rr x)"
  by (simp_all add: typed_write_def)

lemma typed_write_reads: "probe_event e \<or> schedule_event e \<Longrightarrow> typed_write pre e"
  by (auto simp: typed_write_def probe_event_def schedule_event_def split: event.splits)

lemma status_typed: "complete_input inp \<Longrightarrow> keeps typed_write pre (updateStatus E vm inp)"
  by (rule updateStatus_keeps) (auto simp: typed_write_def)

lemma runtimeUnavailable_typed:
  "machineName \<noteq> [] \<Longrightarrow> keeps typed_write pre (runtimeUnavailable E R vm n machineName err)"
  unfolding runtimeUnavailable_def
  by (intro record_event_keeps updateStatusThenRequeue_keeps status_typed) simp_all

lemma finishDelete_typed: "keeps typed_write pre (finishDelete E vm)"
  unfolding finishDelete_def call_defs by (intro keeps_rules) simp

lemma runtimeForNode_typed: "lookup_result E R n r es \<Longrightarrow> guarded typed_write pre es"
  by (rule guarded_all) (auto simp: lookup_result_def intro: typed_write_reads)

lemma reconcileDelete_typed:
  assumes "machineName \<noteq> []"
  shows "keeps typed_write pre (reconcileDelete E R vm machineName n)"
  unfolding reconcileDelete_def call_defs
  by (intro keeps_rules keeps_bind_of [OF runtimeForNode_ensures] record_event_keeps updateStatusThenRequeue_keeps
      status_typed runtimeUnavailable_typed finishDelete_typed)
    (use assms in \<open>auto intro: runtimeForNode_typed\<close>)

lemma reconcileMachine_typed:
  assumes "machineName \<noteq> []"
  shows "keeps typed_write pre (reconcileMachine E R vm machineName n api m)"
  unfolding reconcileMachine_def call_defs
  by (intro keeps_case_option keeps_if record_event_keeps status_typed keeps_bind_silent keeps_bind_call keeps_return
      runtimeUnavailable_typed)
    (use assms in \<open>auto intro!: ensures_rules\<close>)

lemma reconcileBound_typed:
  assumes "machineName \<noteq> []"
  shows "keeps typed_write pre (reconcileBound E R vm machineName n)"
  unfolding reconcileBound_def reconcileRuntime_def call_defs
  by (intro keeps_rules keeps_bind_of [OF runtimeForNode_ensures] record_event_keeps updateStatusThenRequeue_keeps
      status_typed runtimeUnavailable_typed reconcileMachine_typed)
    (use assms in \<open>auto intro: runtimeForNode_typed\<close>)

lemma reconcileUnbound_typed:
  assumes "machineName \<noteq> []"
  shows "keeps typed_write pre (reconcileUnbound E vm machineName)"
  unfolding reconcileUnbound_def
  by (rule keeps_bind_of [OF schedule_reads])
    (use assms in \<open>auto intro!: guarded_all typed_write_reads keeps_rules updateStatusThenRequeue_keeps status_typed\<close>)

lemma Reconcile_typed: "keeps typed_write [] (Reconcile E R req)"
  unfolding Reconcile_def reconcileVM_def call_defs
  by (intro keeps_rules record_event_keeps reconcileDelete_typed reconcileUnbound_typed reconcileBound_typed status_typed)
    simp_all

end
