(* ===== verification/Schema_Spec.thy ===== *)
theory Schema_Spec
  imports Status_Schema Example_Runs
begin

text \<open>
  The statuses that the controller writes against the schema that the API server enforces: their shape
  always conforms; the length of their messages need not.
\<close>

section \<open>Shape\<close>

text \<open>
  C7: every status that a reconciliation writes has the type the custom resource declares, if the objects it
  read have: the types, statuses and reasons of all conditions match the schema, no type occurs twice, the
  phase is one of the eight phases, and the machine has a name.  What is left to the API server to
  refuse is exactly a message that is too long or a port out of range.
\<close>

theorem written_status_is_typed:
  assumes "run_state (Reconcile E R req) h = (r, h @ pre @ EvUpdateVMStatus v x # post)"
    and "\<And>k latest. EvGetVM k (Inr latest) \<in> set pre \<Longrightarrow> list_all condition_shape (status_Conditions (vm_Status latest)) \<and>
      distinct_types (status_Conditions (vm_Status latest)) \<and> 0 \<le> sint (meta_Generation (vm_Meta latest))"
  shows "list_all condition_shape (status_Conditions (vm_Status v)) \<and> distinct_types (status_Conditions (vm_Status v)) \<and>
    status_Phase (vm_Status v) \<in> set phases \<and> status_MachineName (vm_Status v) \<noteq> [] \<and>
    (schema_status (vm_Status v) \<longleftrightarrow>
      list_all (message_fits \<circ> cond_Message) (status_Conditions (vm_Status v)) \<and> list_all schema_port (status_Ports (vm_Status v)))"
proof -
  have "typed_write pre (EvUpdateVMStatus v x)" by (rule keepsD [OF Reconcile_typed assms(1)])
  then obtain k latest inp t where read: "EvGetVM k (Inr latest) \<in> set pre" and inp: "complete_input inp"
    and v: "v = latest\<lparr>vm_Status := nextStatus t latest inp\<rparr>" by (auto simp: typed_write_def)
  note old = assms(2) [OF read]
  have "list_all condition_shape (status_Conditions (vm_Status v))" "distinct_types (status_Conditions (vm_Status v))"
    using old nextConditions_shape [OF inp] nextConditions_distinct by (simp_all add: v)
  moreover have "status_Phase (vm_Status v) \<in> set phases" "status_MachineName (vm_Status v) \<noteq> []"
    using inp by (simp_all add: v complete_input_def)
  ultimately show ?thesis by (auto simp: schema_status_def schema_condition_def list_all_iff)
qed

text \<open>A VM without an image: its spec is refused, and the status says so.\<close>

definition imageless_vm :: SmolVM where
  "imageless_vm = example_vm\<lparr>vm_Spec := (vm_Spec example_vm)\<lparr>spec_Image := []\<rparr>\<rparr>"

abbreviation imageless_env :: env where
  "imageless_env \<equiv> cluster_env (example_cluster imageless_vm None)"

lemma imageless_run:
  "\<exists>err v. run_state (Reconcile imageless_env example_reconciler example_key) [] = ((noRequeue, None), []
     @ (EvGetVM example_key (Inr imageless_vm) # EvRecord imageless_vm ''Warning'' ''InvalidSpec'' err #
        EvGetVM example_key (Inr imageless_vm) # map EvNow [100, 100, 100, 100, 100, 100])
     @ EvUpdateVMStatus v None # [])"
proof -
  obtain err where err: "validateSpec imageless_vm = Some err"
    using validateSpec_None [of imageless_vm] by (cases "validateSpec imageless_vm") (auto simp: spec_valid_def imageless_vm_def example_defs)
  have facts: "find_vm example_key (cl_vms (example_cluster imageless_vm None)) = Some imageless_vm"
    "meta_DeletionTimestamp (vm_Meta imageless_vm) = None" "SmolVMFinalizer \<in> set (vm_Finalizers imageless_vm)"
    "vm_key imageless_vm = example_key" "cl_now (example_cluster imageless_vm None) = 100" "status_Phase (vm_Status imageless_vm) = []"
    by (simp_all add: find_vm_def imageless_vm_def example_defs)
  have "vm_Status imageless_vm \<noteq> nextStatus t imageless_vm (invalidInput n name e)" for t n name e
    using facts(6) by (auto simp: invalidInput_def dest!: arg_cong [of _ _ status_Phase])
  with err facts show ?thesis
    by (simp add: Reconcile_def reconcileVM_def updateStatus_def clock6_def record_event_def call_defs Let_def example_recorder)
qed

theorem written_status_is_typed_witness:
  "\<exists>v es. run_state (Reconcile imageless_env example_reconciler example_key) [] =
     ((noRequeue, None), es @ [EvUpdateVMStatus v None]) \<and> list_all condition_shape (status_Conditions (vm_Status v))"
proof -
  obtain err v where run: "run_state (Reconcile imageless_env example_reconciler example_key) [] = ((noRequeue, None), []
     @ (EvGetVM example_key (Inr imageless_vm) # EvRecord imageless_vm ''Warning'' ''InvalidSpec'' err #
        EvGetVM example_key (Inr imageless_vm) # map EvNow [100, 100, 100, 100, 100, 100])
     @ EvUpdateVMStatus v None # [])" using imageless_run by blast
  have "list_all condition_shape (status_Conditions (vm_Status imageless_vm)) \<and>
      distinct_types (status_Conditions (vm_Status imageless_vm)) \<and> 0 \<le> sint (meta_Generation (vm_Meta imageless_vm))"
    by (simp add: imageless_vm_def example_defs distinct_types_def)
  then have "list_all condition_shape (status_Conditions (vm_Status v))"
    using written_status_is_typed [OF run] by auto
  with run show ?thesis unfolding append_Nil by blast
qed

section \<open>Length\<close>

text \<open>An API server that enforces the schema of the status and refuses everything else with \<open>err\<close>.\<close>

definition validating_env :: "goerror \<Rightarrow> cluster \<Rightarrow> env" where
  "validating_env err c = (cluster_env c)\<lparr>env_UpdateVMStatus := (\<lambda>h v. if schema_status (vm_Status v) then None else Some err)\<rparr>"

interpretation val: api_reader "validating_env err c" c for err c
  by unfold_locales (simp_all add: validating_env_def)

definition not_ready :: string where
  "not_ready = ''runtime not ready, heartbeat stale, or endpoint missing''"

lemma rune_count_append [simp]: "rune_count (xs @ ys) = rune_count xs + rune_count ys"
  by (simp add: rune_count_def)

lemma rune_count_Join: "sum_list (map rune_count rs) \<le> rune_count (Join rs sep)"
  by (induction rs sep rule: Join.induct) simp_all

lemma rune_count_reason: "56 \<le> rune_count ('': '' @ not_ready)"
  by code_simp

lemma many_reasons_too_long:
  assumes "600 \<le> length nodes"
  shows "\<not> message_fits (lead @ Join (map (\<lambda>node. sn_Name node @ '': '' @ not_ready) nodes) sep)"
proof -
  have "56 * length nodes \<le> sum_list (map (\<lambda>node. rune_count (sn_Name node @ '': '' @ not_ready)) nodes)"
    using rune_count_reason by (induction nodes) (simp_all add: trans_le_add2)
  also have "\<dots> \<le> rune_count (Join (map (\<lambda>node. sn_Name node @ '': '' @ not_ready) nodes) sep)"
    using rune_count_Join [of "map (\<lambda>node. sn_Name node @ '': '' @ not_ready) nodes" sep] by (simp add: comp_def)
  finally show ?thesis using assms by (simp add: message_fits_def)
qed

context api_reader
begin

lemma scheduleLoop_rejects:
  assumes "\<forall>node \<in> set nodes. \<not> smolVMNodeEligible (cl_now (replay s h)) node"
  shows "settles s h (scheduleLoop E vm bound nodes reasons) (\<lambda>r c'. c' = replay s h \<and>
    r = (let rs = reasons @ map (\<lambda>node. sn_Name node @ '': '' @ not_ready) nodes in
      ([], if rs = [] then ''no SmolVMNode objects exist'' else ''no ready SmolVMNode matches this VM: '' @ Join rs ''; '')))"
  using assms
proof (induction nodes arbitrary: reasons h)
  case (Cons node nodes)
  from Cons.prems Cons.IH [of "h @ [EvNow (cl_now (replay s h))]" "reasons @ [sn_Name node @ '': '' @ not_ready]"]
  show ?case by (simp add: nodeRejectReason_def Now_def not_ready_def)
qed simp

lemma schedule_rejects:
  assumes "spec_NodeName (vm_Spec vm) = []" and "cl_smolvmnodes (replay s h) \<noteq> []"
    and "\<forall>node \<in> set (cl_smolvmnodes (replay s h)). \<not> smolVMNodeEligible (cl_now (replay s h)) node"
  shows "settles s h (schedule E vm) (\<lambda>r c'. c' = replay s h \<and> r = Inr ([], ''no ready SmolVMNode matches this VM: '' @
    Join (map (\<lambda>node. sn_Name node @ '': '' @ not_ready) (cl_smolvmnodes (replay s h))) ''; ''))"
  unfolding schedule_def boundVMs_def call_defs using assms
  by (simp, intro settles_bind [OF scheduleLoop_rejects]) (auto simp: Let_def)

end

text \<open>
  C39: the message of a pending VM outgrows the schema.  It lists every node with its reason; with 600 nodes
  that are not ready it is longer than the 32768 characters that a condition may carry, so an API server
  that enforces the schema refuses the status: the reconciliation fails and stores nothing, and the VM is
  never shown as pending.
\<close>

theorem pending_status_outgrows_the_schema:
  assumes "find_vm req (cl_vms c) = Some vm" and "meta_DeletionTimestamp (vm_Meta vm) = None"
    and "SmolVMFinalizer \<in> set (vm_Finalizers vm)" and "spec_valid vm" and "vm_NodeName vm = []"
    and "spec_NodeName (vm_Spec vm) = []" and "schema_status (vm_Status vm)"
    and "600 \<le> length (cl_smolvmnodes c)" and "list_all (\<lambda>node. \<not> smolVMNodeEligible (cl_now c) node) (cl_smolvmnodes c)"
  shows "let (result, h) = run_state (Reconcile (validating_env err c) R req) [] in
    result = (noRequeue, Some err) \<and> replay c h = c"
proof -
  let ?E = "validating_env err c"
  have ineligible: "\<forall>node \<in> set (cl_smolvmnodes c). \<not> smolVMNodeEligible (cl_now c) node" and nodes: "cl_smolvmnodes c \<noteq> []"
    using assms(8,9) by (auto simp: list_all_iff)
  define msg where "msg = ''no ready SmolVMNode matches this VM: '' @
    Join (map (\<lambda>node. sn_Name node @ '': '' @ not_ready) (cl_smolvmnodes c)) ''; ''"
  have long: "\<not> message_fits msg" unfolding msg_def by (rule many_reasons_too_long [OF assms(8)])
  let ?inp = "pendingInput (machineNameOf vm) msg"
  have bad: "\<not> schema_status (nextStatus t vm ?inp)" for t
  proof -
    have "(t 1, ConditionReady, ConditionFalse, ''AwaitingNodeAssignment'', msg) \<in> set (condition_updates t ?inp)"
      by (simp add: condition_updates_def defaultScheduled_def pendingInput_def Let_def)
    from nextConditions_found [OF this, of "meta_Generation (vm_Meta vm)" "status_Conditions (vm_Status vm)"]
    obtain cond where "findCondition ConditionReady (status_Conditions (nextStatus t vm ?inp)) = Some cond" "cond_Message cond = msg"
      by auto
    then have "cond \<in> set (status_Conditions (nextStatus t vm ?inp))" "cond_Message cond = msg"
      unfolding findCondition_def find_Some_iff using nth_mem by metis+
    with long show ?thesis by (auto simp: schema_status_def schema_condition_def list_all_iff)
  qed
  have status: "settles c h (updateStatus ?E vm ?inp) (\<lambda>r c'. r = (noRequeue, Some err) \<and> c' = c)" if "replay c h = c" for h
    using that assms(1,7) find_vm_key [OF assms(1)] bad
    by (auto simp: updateStatus_def clock6_def call_defs Let_def validating_env_def)
  have unbound: "settles c h (reconcileUnbound ?E vm (machineNameOf vm)) (\<lambda>r c'. r = (noRequeue, Some err) \<and> c' = c)"
    if "replay c h = c" for h
  proof -
    have "settles c h (schedule ?E vm) (\<lambda>r c'. c' = c \<and> r = Inr ([], msg))"
      using val.schedule_rejects [OF assms(6), of c h err] that nodes ineligible unfolding msg_def by simp
    then show ?thesis unfolding reconcileUnbound_def by (rule settles_bind) (auto intro: status)
  qed
  have "settles c [] (Reconcile ?E R req) (\<lambda>r c'. r = (noRequeue, Some err) \<and> c' = c)"
    by (intro val.Reconcile_settles [where vm = vm])
      (use assms(1-5) unbound in \<open>auto simp: reconcileVM_def validateSpec_None [symmetric] Let_def\<close>)
  then show ?thesis by (simp add: settles_def split_beta)
qed

text \<open>A cluster of 600 nodes that have not reported yet.\<close>

definition silent_cluster :: cluster where
  "silent_cluster = (example_cluster example_vm None)
     \<lparr>cl_smolvmnodes := replicate 600 (example_smolvmnode\<lparr>sn_Status := emptyNodeStatus\<rparr>)\<rparr>"

theorem pending_status_outgrows_the_schema_witness:
  "let err = KubeError False ''too long'';
       (result, h) = run_state (Reconcile (validating_env err silent_cluster) example_reconciler example_key) [] in
   result = (noRequeue, Some err) \<and> replay silent_cluster h = silent_cluster"
proof -
  have "cl_vms silent_cluster = [example_vm]" "cl_now silent_cluster = 100" by (simp_all add: silent_cluster_def example_cluster_def)
  moreover have "list_all (\<lambda>node. \<not> smolVMNodeEligible 100 node) (cl_smolvmnodes silent_cluster)"
    "length (cl_smolvmnodes silent_cluster) = 600"
    by (simp_all add: silent_cluster_def list_all_iff smolVMNodeEligible_def example_defs)
  moreover have "find_vm example_key [example_vm] = Some example_vm" "schema_status (vm_Status example_vm)"
    "spec_NodeName (vm_Spec example_vm) = []"
    by (simp_all add: find_vm_def example_defs schema_status_def)
  ultimately show ?thesis
    using pending_status_outgrows_the_schema [of example_key silent_cluster example_vm "KubeError False ''too long''" example_reconciler]
      example_spec_valid(1) by (simp add: example_vm_facts Let_def)
qed

end
