(* ===== verification/Stale_Spec.thy ===== *)
theory Stale_Spec
  imports Cluster_Runs Example_Runs
begin

text \<open>
  What a stale list of VMs does to the placement.  The controller reads through a cache, so the list that the
  scheduler gets may be older than the objects.
\<close>

section \<open>A cache that lags behind\<close>

text \<open>Lists of VMs are answered with \<open>old\<close>, everything else with the current state.\<close>

definition lagging_env :: "SmolVM list \<Rightarrow> cluster \<Rightarrow> env" where
  "lagging_env old c = (cluster_env c)\<lparr>env_ListVM := (\<lambda>_. Inr old)\<rparr>"

interpretation lag: api_store "lagging_env old c" c for old c
  by unfold_locales (simp_all add: lagging_env_def)

text \<open>The node that the scheduler accepts when it counts the VMs of \<open>old\<close>.\<close>

definition accepts_counting :: "SmolVM list \<Rightarrow> cluster \<Rightarrow> SmolVM \<Rightarrow> SmolVMNode \<Rightarrow> bool" where
  "accepts_counting old c vm node \<longleftrightarrow>
     (case find (\<lambda>n. meta_Name (node_Meta n) = sn_Name node) (cl_nodes c) of
        None \<Rightarrow> False
      | Some k8sNode \<Rightarrow> acceptable (cl_now c) node k8sNode vm (bound_of vm old))"

lemma schedule_lagging:
  assumes "spec_NodeName (vm_Spec vm) = []"
    and "find (accepts_counting old (replay c h) vm) (cl_smolvmnodes (replay c h)) = Some node"
  shows "settles c h (schedule (lagging_env old c) vm) (\<lambda>r c'. c' = replay c h \<and> (\<exists>msg. r = Inr (sn_Name node, msg)))"
proof -
  let ?E = "lagging_env old c"
  have list: "env_ListVM ?E h' = Inr old" for h' by (simp add: lagging_env_def)
  have "quiet_from ?E h" unfolding quiet_from_def by (auto simp: replay_quiet fun_eq_iff list)
  moreover have "node_ok ?E h vm (bound_of vm old) = accepts_counting old (replay c h) vm"
    by (auto simp: node_ok_def accepts_counting_def answer_def fun_eq_iff split: option.splits)
  ultimately have "\<exists>msg. fst (run_state (schedule ?E vm) h) = Inr (sn_Name node, msg)"
    using schedule_quiet_unpinned [of ?E h vm old "cl_smolvmnodes (replay c h)"] assms by (simp add: list name_of_def)
  moreover obtain r es where "run_state (schedule ?E vm) h = (r, h @ es)" "\<forall>e \<in> set es. schedule_event e"
    using ensures_runs [OF schedule_reads] by metis
  ultimately show ?thesis by (simp add: settles_def replay_quiet)
qed

text \<open>
  C38: a list of VMs that does not show a binding yet lets the scheduler assign a host port twice.  If \<open>w\<close> is
  bound to the node that is acceptable according to the stale list, and shares a host port with \<open>vm\<close>, then
  one reconciliation of \<open>vm\<close> binds it to the same node: the placement invariant needs current lists.
\<close>

theorem stale_list_books_a_port_twice:
  assumes "find_vm req (cl_vms c) = Some vm" and "meta_DeletionTimestamp (vm_Meta vm) = None"
    and "SmolVMFinalizer \<in> set (vm_Finalizers vm)" and "spec_valid vm" and "vm_NodeName vm = []" and "spec_NodeName (vm_Spec vm) = []"
    and "find (accepts_counting old c vm) (cl_smolvmnodes c) = Some node" and "sn_Name node \<noteq> []"
    and "find_vm k (cl_vms c) = Some w" and "k \<noteq> req" and "vm_NodeName w = sn_Name node"
    and "host_ports w \<inter> host_ports vm \<noteq> {}"
  shows "let c' = replay c (snd (run_state (Reconcile (lagging_env old c) R req) [])) in
    \<exists>vm'. find_vm req (cl_vms c') = Some vm' \<and> find_vm k (cl_vms c') = Some w \<and>
      vm_NodeName vm' = vm_NodeName w \<and> host_ports w \<inter> host_ports vm' \<noteq> {}"
proof -
  have "admitted (lagging_env old c) vm" using assms(2-4) by (simp add: admitted_def)
  then have "settles c [] (Reconcile (lagging_env old c) R req) (\<lambda>r c'. r = (requeue, None) \<and>
    only_vm req (vm\<lparr>vm_Status := nextStatus (frozen (cl_now (replay c []))) vm (scheduledInput (sn_Name node) (machineNameOf vm))\<rparr>)
      (replay c []) c')"
    by (intro lag.Reconcile_bound_to schedule_lagging) (use assms in simp_all)
  then show ?thesis
    using assms(9-12) by (auto simp: settles_def split_beta only_vm_def scheduledInput_def host_ports_def Let_def)
qed

text \<open>The example VM is bound to the node already; a second VM wants the same host port.\<close>

definition second_vm :: SmolVM where
  "second_vm = example_vm\<lparr>vm_Meta := (vm_Meta example_vm)\<lparr>meta_Name := ''vm2'', meta_UID := ''u2''\<rparr>\<rparr>"

theorem stale_list_books_a_port_twice_witness:
  "let c = (example_cluster example_bound_vm None)\<lparr>cl_vms := [example_bound_vm, second_vm]\<rparr>;
       req = \<lparr>nn_Namespace = ''default'', nn_Name = ''vm2''\<rparr>;
       c' = replay c (snd (run_state (Reconcile (lagging_env [example_vm, second_vm] c) example_reconciler req) [])) in
   \<exists>vm'. find_vm req (cl_vms c') = Some vm' \<and> find_vm example_key (cl_vms c') = Some example_bound_vm \<and>
     vm_NodeName vm' = vm_NodeName example_bound_vm \<and> host_ports example_bound_vm \<inter> host_ports vm' \<noteq> {}"
proof -
  let ?c = "(example_cluster example_bound_vm None)\<lparr>cl_vms := [example_bound_vm, second_vm]\<rparr>"
    and ?req = "\<lparr>nn_Namespace = ''default'', nn_Name = ''vm2''\<rparr>"
  have "find_vm ?req (cl_vms ?c) = Some second_vm" "find_vm example_key (cl_vms ?c) = Some example_bound_vm"
    "meta_DeletionTimestamp (vm_Meta second_vm) = None" "SmolVMFinalizer \<in> set (vm_Finalizers second_vm)" "spec_valid second_vm"
    "vm_NodeName second_vm = []" "spec_NodeName (vm_Spec second_vm) = []" "example_key \<noteq> ?req"
    "host_ports example_bound_vm \<inter> host_ports second_vm \<noteq> {}" "sn_Name example_smolvmnode = ''n1''"
    "vm_NodeName example_bound_vm = ''n1''"
    by (simp_all add: find_vm_def second_vm_def host_ports_def spec_valid_def example_defs)
  moreover have "find (accepts_counting [example_vm, second_vm] ?c second_vm) (cl_smolvmnodes ?c) = Some example_smolvmnode"
    by (simp add: accepts_counting_def acceptable_def second_vm_def example_defs smolVMNodeEligible_def matchesNodeSelector_def
        kubernetesNodeReady_def resourceFitReason_def no_port_conflict_def bound_of_def)
  ultimately show ?thesis
    using stale_list_books_a_port_twice [of ?req ?c second_vm "[example_vm, second_vm]" example_smolvmnode example_key
        example_bound_vm example_reconciler] by (simp add: Let_def)
qed

end
