(* ===== verification/Manager_Main.thy ===== *)
theory Manager_Main
  imports Reconciler
begin

text \<open>
  The entry point of the controller manager, \<open>src/cmd/main.go\<close>: flags to options, and the order of the
  set-up calls.  The manager belongs to the controller-runtime library; how its calls end is a parameter.
\<close>

section \<open>Options\<close>

record manager_flags =
  mf_metricsAddr :: string
  mf_probeAddr :: string
  mf_enableLeaderElection :: bool
  mf_secureMetrics :: bool
  mf_enableHTTP2 :: bool

record tls_Config =
  NextProtos :: "string list"

type_synonym tls_option = "tls_Config \<Rightarrow> tls_Config"

definition disableHTTP2 :: tls_option where
  "disableHTTP2 c = c\<lparr>NextProtos := [''http/1.1'']\<rparr>"

definition tlsOpts :: "manager_flags \<Rightarrow> tls_option list" where
  "tlsOpts fl = (if \<not> mf_enableHTTP2 fl then [] @ [disableHTTP2] else [])"

record manager_options =
  mo_MetricsBindAddress :: string
  mo_MetricsSecureServing :: bool
  mo_MetricsTLSOpts :: "tls_option list"
  mo_WebhookTLSOpts :: "tls_option list"
  mo_HealthProbeBindAddress :: string
  mo_LeaderElection :: bool
  mo_LeaderElectionID :: string

definition managerOptions :: "manager_flags \<Rightarrow> manager_options" where
  "managerOptions fl = \<lparr>mo_MetricsBindAddress = mf_metricsAddr fl, mo_MetricsSecureServing = mf_secureMetrics fl,
     mo_MetricsTLSOpts = tlsOpts fl, mo_WebhookTLSOpts = tlsOpts fl, mo_HealthProbeBindAddress = mf_probeAddr fl,
     mo_LeaderElection = mf_enableLeaderElection fl, mo_LeaderElectionID = ''29b477d6.smolvm.dev''\<rparr>"

section \<open>The controller's watches\<close>

text \<open>\<open>SetupWithManager\<close>: an event recorder is added; changes of VMs, nodes and node reports become requests.\<close>

definition SetupWithManager :: "SmolVMReconciler \<Rightarrow> SmolVMReconciler" where
  "SetupWithManager R = (if \<not> rec_Recorder R then R\<lparr>rec_Recorder := True\<rparr> else R)"

datatype watched = WatchSmolVM SmolVM | WatchNode Node | WatchSmolVMNode SmolVMNode

definition watchRequests :: "env \<Rightarrow> watched \<Rightarrow> NamespacedName list prog" where
  "watchRequests E obj =
     (case obj of
        WatchSmolVM vm \<Rightarrow> State_Monad.return [vm_key vm]
      | WatchNode node \<Rightarrow> requestsForNodeChange E (meta_Name (node_Meta node))
      | WatchSmolVMNode node \<Rightarrow> requestsForNodeChange E (sn_Name node))"

section \<open>main\<close>

datatype manager_action =
    NewManager manager_options
  | SetupController SmolVMReconciler
  | AddHealthzCheck string
  | AddReadyzCheck string
  | StartManager
  | ManagerExit int string

text \<open>The error of each call, \<open>None\<close> for nil.\<close>

record manager_env =
  mg_GetConfig :: "goerror option"
  mg_NewManager :: "goerror option"
  mg_SetupWithManager :: "goerror option"
  mg_AddHealthzCheck :: "goerror option"
  mg_AddReadyzCheck :: "goerror option"
  mg_Start :: "goerror option"

definition step_or_exit :: "manager_action \<Rightarrow> goerror option \<Rightarrow> string \<Rightarrow> manager_action list \<Rightarrow> manager_action list" where
  "step_or_exit act err msg follows = act # (case err of Some e \<Rightarrow> [ManagerExit 1 msg] | None \<Rightarrow> follows)"

text \<open>The reconciler gets the client and the scheme of the manager, no runtime factory and no recorder of its own.\<close>

definition manager_main :: "manager_flags \<Rightarrow> manager_env \<Rightarrow> manager_action list" where
  "manager_main fl M =
    (case mg_GetConfig M of Some e \<Rightarrow> [ManagerExit 1 (Error e)] | None \<Rightarrow>
     step_or_exit (NewManager (managerOptions fl)) (mg_NewManager M) ''unable to start manager''
    (step_or_exit (SetupController (SetupWithManager \<lparr>rec_RuntimeFactory = False, rec_Recorder = False\<rparr>)) (mg_SetupWithManager M)
       ''unable to create controller''
    (step_or_exit (AddHealthzCheck ''healthz'') (mg_AddHealthzCheck M) ''unable to set up health check''
    (step_or_exit (AddReadyzCheck ''readyz'') (mg_AddReadyzCheck M) ''unable to set up ready check''
    (step_or_exit StartManager (mg_Start M) ''problem running manager'' [])))))"

definition applyTLSOpts :: "tls_option list \<Rightarrow> tls_Config \<Rightarrow> tls_Config" where
  "applyTLSOpts opts c = fold (\<lambda>f c. f c) opts c"

section \<open>Facts\<close>

text \<open>The manager starts only when every earlier call has succeeded, and with a recorder.\<close>

lemma manager_starts_iff:
  "StartManager \<in> set (manager_main fl M) \<longleftrightarrow>
     mg_GetConfig M = None \<and> mg_NewManager M = None \<and> mg_SetupWithManager M = None \<and> mg_AddHealthzCheck M = None \<and> mg_AddReadyzCheck M = None"
  by (simp add: manager_main_def step_or_exit_def split: option.splits)

lemma manager_exits_iff:
  "(\<exists>msg. last (manager_main fl M) = ManagerExit 1 msg) \<longleftrightarrow>
     (\<exists>err \<in> {mg_GetConfig M, mg_NewManager M, mg_SetupWithManager M, mg_AddHealthzCheck M, mg_AddReadyzCheck M, mg_Start M}. err \<noteq> None)"
  by (auto simp: manager_main_def step_or_exit_def split: option.splits)

text \<open>Unless HTTP/2 is enabled, both servers offer HTTP/1.1 only.\<close>

lemma http2_is_disabled:
  assumes "NewManager opts \<in> set (manager_main fl M)" and "\<not> mf_enableHTTP2 fl"
  shows "NextProtos (applyTLSOpts (mo_MetricsTLSOpts opts) c) = [''http/1.1'']"
    and "NextProtos (applyTLSOpts (mo_WebhookTLSOpts opts) c) = [''http/1.1'']"
proof -
  have "opts = managerOptions fl" using assms(1) by (auto simp: manager_main_def step_or_exit_def split: option.splits)
  then show "NextProtos (applyTLSOpts (mo_MetricsTLSOpts opts) c) = [''http/1.1'']"
    and "NextProtos (applyTLSOpts (mo_WebhookTLSOpts opts) c) = [''http/1.1'']"
    using assms(2) by (simp_all add: managerOptions_def tlsOpts_def disableHTTP2_def applyTLSOpts_def)
qed

end
