(* ===== verification/Spec2Isabelle.thy ===== *)
theory Spec2Isabelle
  imports Controller_Spec Status_Spec Scheduler_Spec Validation_Spec Agent_Spec Cluster_Spec Api_Spec Memory_Spec
    Process_Spec Settling_Spec Stack_Spec Schema_Spec Stale_Spec Manager_Main
begin

text \<open>
  A verification of the smolvm operator, a Kubernetes operator that runs micro virtual machines.

  \<^bold>\<open>The program.\<close>  A \<open>SmolVM\<close> object describes a machine.  The controller
  (\<open>src/internal/controller/smolvm_controller.go\<close>) reconciles one object at a time: it adds a
  finalizer, validates the spec, binds the VM to a node, and then makes the runtime on that node create,
  resize, start, stop or delete the machine, writing what it observed into the status.  On every node a
  runtime agent (\<open>src/cmd/runtime-agent/main.go\<close>) reports the node as a \<open>SmolVMNode\<close> object, which the
  scheduler reads, and serves the runtime API, which the controller calls through the HTTP client of
  \<open>src/internal/smolvm/client.go\<close>; the agent passes the calls on to the smolvm server of its node and can
  remove machines that no VM owns.  The two binaries share no memory: they meet in the objects of the API
  server and in the runtime API.

  \<^bold>\<open>How effects are modelled.\<close>  Every interaction with the outside (API server, runtime, clock, event
  recorder, file system) is a \<open>call\<close> of \<open>Prelude\<close>: an environment, a record of functions that is a
  parameter of the model, chooses the answer from the history of all earlier calls, and the call with its
  answer is appended to the history.  A Go function becomes a computation of the state monad over
  histories.  A theorem about every environment therefore covers every error, every stale read and every
  interference of other clients between two calls.  \<open>ensures\<close> (with its rules) is the calculus of
  postconditions over the events of a run, \<open>keeps\<close> the calculus of invariants of each single event given
  the events before it.

  \<^bold>\<open>Theories.\<close>
  \<^item> \<open>Prelude\<close>: calls, the two calculi, word types.
  \<^item> \<open>Go_Lib\<close>, \<open>Go_Net\<close>, \<open>Go_Sha256\<close>, \<open>Go_Utf8\<close>, \<open>Go_Json\<close>: what the source uses of the Go standard library
    (error values, decimal printing and parsing, string functions, sorting, \<open>net.ParseCIDR\<close>, SHA-256, UTF-8,
    URL path segments, JSON).  \<open>Go_Json\<close> states what a pair of encoder and decoder promises (locale
    \<open>json_codec\<close>).
  \<^item> \<open>Go_Heap\<close>: memory as a map from addresses to cells, and the contract of a deep copy (locale
    \<open>deep_copier\<close>).
  \<^item> \<open>Api_Types\<close>: \<open>src/api/v1alpha1/smolvm_types.go\<close> and \<open>smolvmnode_types.go\<close>, with the validation
    markers as the predicates \<open>schema_admits\<close> and \<open>schema_admits_update\<close>.
  \<^item> \<open>Smolvm_Client\<close>, \<open>Client_Json\<close>, \<open>Client_Http\<close>: \<open>src/internal/smolvm/client.go\<close>: the data types,
    constructors and errors; the JSON of every message (\<open>json_codec\<close> is interpreted for each); \<open>request\<close> and
    the methods, over a transport that performs one exchange.
  \<^item> \<open>Deep_Copy\<close>: \<open>src/api/v1alpha1/zz_generated.deepcopy.go\<close> on the heap (\<open>deep_copier\<close> is interpreted for
    the copies of the status, the spec, the network and the node status).
  \<^item> \<open>Conditions\<close>: \<open>setCondition\<close> of both binaries, and the contract they share (locale
    \<open>condition_setter\<close>, interpreted for both).
  \<^item> \<open>Validation\<close>: the pure functions of the controller: \<open>validateSpec\<close>, the comparisons of a spec with a
    machine, the request builders, phase, readiness and machine names.
  \<^item> \<open>Cluster_Env\<close>: the environment of the controller and its calls.
  \<^item> \<open>Scheduler\<close>: \<open>schedule\<close> with everything below it, and \<open>requestsForNodeChange\<close>.
  \<^item> \<open>Vm_Status\<close>: \<open>statusInput\<close> and \<open>updateStatus\<close>; \<open>Status_Heap\<close>: the part of \<open>updateStatus\<close> that changes the
    status in place, with its slices and pointers.
  \<^item> \<open>Reconciler\<close>: \<open>Reconcile\<close>, \<open>reconcileDelete\<close>, \<open>runtimeForNode\<close>, \<open>runtimeUnavailable\<close>; and what one run may
    do (\<open>step_ok\<close>), proved for every branch.
  \<^item> \<open>Reference_Cluster\<close>: what the controller relies on, as locales: \<open>api_objects\<close> (objects and nodes are read as they are), extended
    by \<open>api_reader\<close> (so is the list of VMs) and \<open>api_store\<close> (writes are accepted), their union \<open>api_server\<close>, and
    \<open>cluster_service\<close>, which adds the laws of the runtimes.  The reference cluster, which stores what it is
    given, is an interpretation.
  \<^item> \<open>Convergence\<close>: one reconciliation under these contracts; \<open>Settling\<close>: repeated reconciliation, of a new
    VM, of one that already has a machine and of one that is deleted; \<open>Example_Runs\<close>: concrete runs, from
    which the witnesses are taken.
  \<^item> \<open>Cluster_Runs\<close>: the cluster over time, as the step relations \<open>reconcile_step\<close> (reconciliations over any
    \<open>api_server\<close>) and \<open>outside_step\<close> (users, with edits of bound VMs too, agents, with any reported capacity,
    and the clock), and the invariant \<open>placed\<close> of a node.
  \<^item> \<open>Runtime_Agent\<close>, \<open>Agent_Http\<close>: the agent's observations, its report, the orphan cleanup, the
    handlers, the routes and the configuration; \<open>Agent_Process\<close>: its loops, the certificate template and the
    start-up in \<open>main\<close>.
  \<^item> \<open>Runtime_Api\<close>: client and agent connected: the requests of the client are served by the routes of the
    agent, bytes in between.  \<open>Full_Stack\<close>: the controller on top of that: its runtime calls go through the
    client, the agents and the servers of the nodes, and the whole keeps \<open>cluster_service\<close>.
  \<^item> \<open>Status_Schema\<close>: the schema that the custom resource definition
    (\<open>src/config/crd/bases\<close>) puts on a status, and which statuses the controller writes.
  \<^item> \<open>Manager_Main\<close>: \<open>src/cmd/main.go\<close> and \<open>SetupWithManager\<close>.
  \<^item> \<open>Controller_Spec\<close>, \<open>Status_Spec\<close>, \<open>Scheduler_Spec\<close>, \<open>Validation_Spec\<close>, \<open>Agent_Spec\<close>, \<open>Cluster_Spec\<close>,
    \<open>Api_Spec\<close>, \<open>Memory_Spec\<close>, \<open>Process_Spec\<close>, \<open>Settling_Spec\<close>, \<open>Stack_Spec\<close>, \<open>Schema_Spec\<close>, \<open>Stale_Spec\<close> and
    this theory: the properties, each with its claim number and a witness.

  \<^bold>\<open>What the properties show.\<close>
  \<^item> Safety of the controller, in every environment: a binding is kept, the finalizer is removed only when
    the machine is gone (or the force annotation is set), machines are created, started, stopped, resized
    and deleted only on the verified runtime of the owning node (or, in a reconciler with a \<open>RuntimeFactory\<close>, as in
    the tests, on that of the factory) and only when the spec asks for it, a blocked deletion is reported, at most
    one change of a machine per run, binding only to nodes that the scheduler accepted.
  \<^item> Progress: in a cluster that stores what it is given, five reconciliations take a new VM to a running
    machine and a status that says so, three take a bound VM to the disks and the state its spec asks for,
    and one reconciliation removes a deleted VM.  One case makes no progress: a running machine whose storage
    is to grow is never stopped, even when the spec asks for that (\<open>expansion_blocks_the_stop\<close>).  These are statements
    about the result of the runs; no fuel is involved, since every function of the model is total (all
    loops of the source run over finite slices), apart from the three service loops of the agent, which are
    partial functions: they return exactly when their context is cancelled.
  \<^item> The cluster over any sequence of steps: whenever a reconciliation that sees the current objects binds a VM,
    the VMs of the node fit its capacity and the new one shares no host port, and a node that is in order stays
    so until someone enlarges a VM on it or it reports less capacity; what the runtimes answer does not matter.
    With a list that is one binding behind, a port is booked twice (\<open>stale_list_books_a_port_twice\<close>), and
    where the 32-bit sum of CPUs wraps around, a node is overcommitted (\<open>cpu_sum_wraps\<close>).
  \<^item> Types: every status that is written has the shape its schema demands, whatever the environment answers,
    up to the length of a message; and that length can be exceeded, by the list of reasons of a pending VM
    (\<open>pending_status_outgrows_the_schema\<close>), so that the API server refuses the status.
  \<^item> The composition of client and agent: a call of the client is the one call on the node it names, and
    its answer comes back, a missing machine as not found; every message survives its JSON encoding; the
    node a report describes passes the probe of the controller.  The whole stack: a new VM reaches a running
    machine on the server of its node with every call of the controller encoded, sent to the agent,
    decoded, passed on and answered (\<open>operator_end_to_end\<close>).
  \<^item> Memory: the in-place update of a status computes the status of the value model while the deep copy it
    is compared with stays as it was, and deep copies share nothing with their originals.
  \<^item> The pure parts: validation is exact, first fit, exact capacity sums where they do not wrap, multiset
    equality of ports, a machine conforms to the request that created it, conditions behave as a map.
  \<^item> The agent: its report decides eligibility, its API demands the token, the cleanup deletes exactly the
    orphans, and never a machine the controller has created for a live VM.

  \<^bold>\<open>Bounds.\<close>  Integers keep the width of the source (\<open>int32\<close>, \<open>int64\<close>, \<open>uint64\<close> as words, read as signed
  where Go does); where a sum may wrap around, the property says under which bound it does not, and
  \<open>cpu_sum_wraps\<close> in \<open>Cluster_Spec\<close> shows what happens beyond it.  Times are integers of nanoseconds.

  \<^bold>\<open>Not modelled.\<close>  Log lines; the scheme registration (\<open>groupversion_info.go\<close>); what belongs to libraries:
  the flag package, the manager and its work queue, the transport of \<open>net/http\<close>, TLS and the signing of the
  certificate, the child process of \<open>supervise\<close>, the deep copies of the Kubernetes metadata.  The
  goroutines of the agent are modelled one by one, not interleaved.

  \<^bold>\<open>Where the model is coarser than the code.\<close>  A nil slice and an empty one are the same list, so an empty
  machine list is printed as \<open>[]\<close> where the code may print \<open>null\<close>; the clock is read once for every call of
  \<open>setCondition\<close> and before the checks of a node, also where the code would not need the reading; \<open>%q\<close> prints
  bytes above 127 as escapes.

  \<^bold>\<open>Left open.\<close>  Pending VMs that a change of a node wakes up, interleavings of the agent's loops
  with its handlers, and what lagging caches can do beyond the counterexamples above.
\<close>

section \<open>Controller and agent together\<close>

text \<open>
  C30: the orphan cleanup of an agent never deletes a machine that the controller has created for a VM
  that still exists: when a reconciliation creates a machine, every later object of that VM that keeps
  the binding and the machine name and is not being deleted protects the machine from the cleanup on that
  node.
\<close>

theorem cleanup_spares_created_machines:
  assumes "run_state (Reconcile E R req) h = (r, h @ pre @ EvCreateMachine api creq res # post)"
    and "hd pre = EvGetVM req (Inr vm)"
    and "run_state (cleanupOrphans A a) g = (u, g @ es)" and "ag_nodeName a = vm_NodeName vm"
    and "AgListVM (Inr vms) \<in> set es" and "v \<in> set vms" and "vm_NodeName v = vm_NodeName vm"
    and "status_MachineName (vm_Status v) = machineNameOf vm" and "meta_DeletionTimestamp (vm_Meta v) = None"
  shows "create_Name creq \<notin> set (deleted_names es)"
proof -
  have "step_ok E R vm pre (EvCreateMachine api creq res)" by (rule Reconcile_step_at [OF assms(1,2)]) simp
  then have "create_Name creq = machineNameOf vm"
    by (auto simp: step_ok_def on_owner_def)
  moreover have "machineNameOf vm \<in> set (ownedMachines (ag_nodeName a) vms)"
    unfolding assms(4) set_ownedMachines using assms(6-9) machineNameOf_nonempty [of vm]
    by (intro CollectI exI [of _ v]) simp
  ultimately show ?thesis
    using ensuresD [OF cleanupOrphans_ensures assms(3)] assms(5) by (auto simp: cleanup_result_def orphan_def)
qed

theorem cleanup_spares_created_machines_witness:
  "let A = quiet_agent_env\<lparr>age_ListVM := (\<lambda>_. Inr [example_bound_vm])\<rparr> in
   ''m'' \<notin> set (deleted_names (snd (run_state (cleanupOrphans A example_agent) [])))"
proof -
  let ?A = "quiet_agent_env\<lparr>age_ListVM := (\<lambda>_. Inr [example_bound_vm])\<rparr>"
  let ?pre = "bound_prefix @ [EvGetMachine example_api ''m'' (Inl (APIError 404 ''machine not found'')),
      EvRecord example_bound_vm ''Normal'' ''Creating'' ''creating smolvm machine m'']"
  obtain post where run: "run_state (Reconcile (bound_env None) example_reconciler example_key) [] =
   ((requeue, None), [] @ ?pre @ EvCreateMachine example_api (buildCreateRequest example_bound_vm ''m'')
     (Inr (new_machine example_bound_vm)) # post)"
    using example_create_run by (metis append_Nil)
  have hd: "hd ?pre = EvGetVM example_key (Inr example_bound_vm)" by (simp add: bound_prefix_def)
  have names: "status_MachineName (vm_Status example_bound_vm) = ''m''" by (simp add: example_defs)
  obtain es where clean: "run_state (cleanupOrphans ?A example_agent) [] = ((), [] @ es)"
    and es: "AgListVM (Inr [example_bound_vm]) \<in> set es"
    by (simp add: cleanupOrphans_def quiet_agent_env_def HasPrefix_def example_vm_facts names example_agent_def)
  from cleanup_spares_created_machines [OF run hd clean _ es, of example_bound_vm] clean
  show ?thesis
    by (simp add: example_vm_facts example_agent_def buildCreateRequest_def names)
qed

end
